(* ===== verification/Prelude.thy ===== *)
theory Prelude
  imports Main "HOL-Library.Word" "HOL-Library.Monad_Syntax"
begin

text \<open>
  The vocabulary every component of the development shares: the Go types as HOL types, slices
  and \<open>copy\<close>, the conversions between big integers, machine integers and big-endian byte
  strings, and the lemmas about them that carry the component proofs.

  A Go run-time panic (index or slice out of range, nil dereference, an explicit \<open>panic\<close>) is the
  value \<open>None\<close> of an \<open>option\<close>; an \<open>error\<close> result of the code is a value of a sum type of the
  component that raises it.
\<close>

section \<open>Types\<close>

type_synonym byte = "8 word"
type_synonym bytes = "byte list"
type_synonym uint64 = "64 word"

text \<open>
  \<open>common.Hash\<close> is a \<open>[32]byte\<close> and \<open>common.Address\<close> a \<open>[20]byte\<close>; both are kept as the
  machine word with these bytes in big-endian order.
\<close>

type_synonym hash = "256 word"
type_synonym address = "160 word"

named_theorems bytes_simps \<open>lengths and values of byte strings\<close>

section \<open>Slices\<close>

definition slice :: "'a list \<Rightarrow> nat \<Rightarrow> nat \<Rightarrow> 'a list option" where
  "slice xs lo hi = (if lo \<le> hi \<and> hi \<le> length xs then Some (take (hi - lo) (drop lo xs)) else None)"

definition index :: "'a list \<Rightarrow> nat \<Rightarrow> 'a option" where
  "index xs i = (if i < length xs then Some (xs ! i) else None)"

text \<open>Go's \<open>copy(dst, src)\<close>: as many elements as the shorter of the two has.\<close>

definition copy_into :: "'a list \<Rightarrow> 'a list \<Rightarrow> 'a list" where
  "copy_into dst src = take (length dst) src @ drop (length src) dst"

lemma length_copy_into [simp]: "length (copy_into dst src) = length dst"
  by (simp add: copy_into_def)

lemma slice_Some_iff:
  "slice xs lo hi = Some ys \<longleftrightarrow> lo \<le> hi \<and> hi \<le> length xs \<and> ys = take (hi - lo) (drop lo xs)"
  by (auto simp: slice_def)

lemma length_slice: "slice xs lo hi = Some ys \<Longrightarrow> length ys = hi - lo"
  by (auto simp: slice_def split: if_splits)

text \<open>\<open>xs[lo:hi]\<close> overwritten by \<open>ys\<close> in place, the way \<open>copy(xs[lo:hi], ys)\<close> does.\<close>

definition overwrite :: "'a list \<Rightarrow> nat \<Rightarrow> nat \<Rightarrow> 'a list \<Rightarrow> 'a list option" where
  "overwrite xs lo hi ys =
     map_option (\<lambda>s. take lo xs @ copy_into s ys @ drop hi xs) (slice xs lo hi)"

lemma length_overwrite: "overwrite xs lo hi ys = Some zs \<Longrightarrow> length zs = length xs"
  by (auto simp: overwrite_def slice_def split: if_splits)

lemma overwrite_defined: "lo \<le> hi \<Longrightarrow> hi \<le> length xs \<Longrightarrow> \<exists>zs. overwrite xs lo hi ys = Some zs"
  by (simp add: overwrite_def slice_def)

lemma slice_overwrite_same:
  assumes "overwrite xs lo hi ys = Some zs" and "length ys = hi - lo"
  shows "slice zs lo hi = Some ys"
  using assms by (auto simp: overwrite_def slice_def copy_into_def split: if_splits)

lemma nth_overwrite_other:
  assumes "overwrite xs lo hi ys = Some zs" and "i < lo \<or> hi \<le> i" and "i < length xs"
  shows "zs ! i = xs ! i"
  using assms by (auto simp: overwrite_def slice_def nth_append split: if_splits)

section \<open>Big-endian numbers\<close>

fun le_bytes :: "nat \<Rightarrow> bytes" where
  "le_bytes n = (if n = 0 then [] else word_of_nat (n mod 256) # le_bytes (n div 256))"

declare le_bytes.simps [simp del]

text \<open>\<open>(*big.Int).Bytes\<close>: the absolute value, big-endian, without leading zero bytes.\<close>

definition big_Bytes :: "int \<Rightarrow> bytes" where
  "big_Bytes x = rev (le_bytes (nat \<bar>x\<bar>))"

text \<open>\<open>(*big.Int).SetBytes\<close>.\<close>

fun le_nat :: "bytes \<Rightarrow> nat" where
  "le_nat [] = 0"
| "le_nat (b # bs) = unat b + 256 * le_nat bs"

definition be_nat :: "bytes \<Rightarrow> nat" where
  "be_nat bs = le_nat (rev bs)"

definition big_SetBytes :: "bytes \<Rightarrow> int" where
  "big_SetBytes bs = int (be_nat bs)"

lemma unat_byte_less [simp]: "unat (b::byte) < 256"
  by (rule order.strict_trans2 [OF unsigned_less]) simp

lemma unat_byte_mod [simp]: "unat (word_of_nat (n mod 256) :: byte) = n mod 256"
  by (simp add: unat_of_nat)

lemma le_nat_le_bytes [simp]: "le_nat (le_bytes n) = n"
proof (induction n rule: le_bytes.induct)
  case (1 n)
  then show ?case by (cases "n = 0") (simp_all add: le_bytes.simps)
qed

lemma be_nat_Bytes [simp]: "be_nat (big_Bytes x) = nat \<bar>x\<bar>"
  by (simp add: be_nat_def big_Bytes_def)

lemma SetBytes_Bytes [simp]: "big_SetBytes (big_Bytes x) = \<bar>x\<bar>"
  by (simp add: big_SetBytes_def)

lemma le_nat_append: "le_nat (xs @ ys) = le_nat xs + 256 ^ length xs * le_nat ys"
  by (induction xs) (simp_all add: algebra_simps)

lemma be_nat_append: "be_nat (xs @ ys) = be_nat xs * 256 ^ length ys + be_nat ys"
  by (simp add: be_nat_def le_nat_append)

lemma be_nat_Nil [simp]: "be_nat [] = 0"
  by (simp add: be_nat_def)

lemma be_nat_single [simp]: "be_nat [b] = unat b"
  by (simp add: be_nat_def)

lemma be_nat_Cons: "be_nat (b # bs) = unat b * 256 ^ length bs + be_nat bs"
  using be_nat_append [of "[b]" bs] by simp

lemma le_nat_bound: "le_nat bs < 256 ^ length bs"
proof (induction bs)
  case (Cons b bs)
  have "unat b + 256 * le_nat bs < 256 + 256 * le_nat bs" by simp
  also have "\<dots> = 256 * Suc (le_nat bs)" by simp
  also have "\<dots> \<le> 256 * 256 ^ length bs"
    using Cons.IH by (intro mult_le_mono2) simp
  finally show ?case by simp
qed simp

lemma be_nat_bound: "be_nat bs < 256 ^ length bs"
  using le_nat_bound [of "rev bs"] by (simp add: be_nat_def)

lemma SetBytes_nonneg [simp]: "0 \<le> big_SetBytes bs"
  by (simp add: big_SetBytes_def)

lemma SetBytes_bound: "big_SetBytes bs < 256 ^ length bs"
  using be_nat_bound [of bs] by (simp add: big_SetBytes_def flip: of_nat_power of_nat_less_iff)

lemma be_nat_replicate0 [simp]: "be_nat (replicate k 0) = 0"
  by (induction k) (simp_all add: be_nat_Cons)

lemma be_nat_pad_left [simp]: "be_nat (replicate k 0 @ bs) = be_nat bs"
  by (simp add: be_nat_append)

lemma length_le_bytes: "n < 256 ^ k \<Longrightarrow> length (le_bytes n) \<le> k"
proof (induction k arbitrary: n)
  case (Suc k)
  show ?case
  proof (cases "n = 0")
    case False
    have "n div 256 < 256 ^ k" using Suc.prems by (simp add: less_mult_imp_div_less mult.commute)
    then show ?thesis using Suc.IH False by (simp add: le_bytes.simps [of n])
  qed (simp add: le_bytes.simps)
qed (simp add: le_bytes.simps)

lemma length_big_Bytes: "\<bar>x\<bar> < 256 ^ k \<Longrightarrow> length (big_Bytes x) \<le> k"
proof -
  assume "\<bar>x\<bar> < 256 ^ k"
  then have "nat \<bar>x\<bar> < 256 ^ k"
    by (simp add: nat_less_iff)
  then show ?thesis by (simp add: big_Bytes_def length_le_bytes)
qed

lemma le_bytes_Nil_iff [simp]: "le_bytes n = [] \<longleftrightarrow> n = 0"
  by (simp add: le_bytes.simps)

lemma big_Bytes_Nil_iff [simp]: "big_Bytes x = [] \<longleftrightarrow> x = 0"
  by (auto simp: big_Bytes_def)

lemma last_le_bytes: "n \<noteq> 0 \<Longrightarrow> last (le_bytes n) \<noteq> 0"
proof (induction n rule: le_bytes.induct)
  case (1 n)
  show ?case
  proof (cases "n div 256 = 0")
    case True
    then have "n < 256" by (simp add: div_eq_0_iff)
    with 1 show ?thesis
      by (simp add: le_bytes.simps [of n] le_bytes.simps [of "n div 256"] True word_of_nat_eq_0_iff nat_dvd_not_less)
  next
    case False
    with 1 show ?thesis by (simp add: le_bytes.simps [of n])
  qed
qed

lemma hd_big_Bytes: "x \<noteq> 0 \<Longrightarrow> hd (big_Bytes x) \<noteq> 0"
  by (simp add: big_Bytes_def hd_rev last_le_bytes)

lemma be_nat_inject:
  "length xs = length ys \<Longrightarrow> be_nat xs = be_nat ys \<Longrightarrow> xs = ys"
proof -
  have "length xs = length ys \<Longrightarrow> le_nat xs = le_nat ys \<Longrightarrow> xs = ys" for xs ys
  proof (induction xs ys rule: list_induct2)
    case (Cons x xs y ys)
    have "unat x = unat y \<and> le_nat xs = le_nat ys"
    proof -
      have "(unat x + 256 * le_nat xs) mod 256 = (unat y + 256 * le_nat ys) mod 256"
        using Cons.prems by simp
      then show ?thesis using Cons.prems by simp
    qed
    with Cons.IH show ?case by (simp add: unsigned_word_eqI)
  qed simp
  then show "length xs = length ys \<Longrightarrow> be_nat xs = be_nat ys \<Longrightarrow> xs = ys"
    by (metis be_nat_def length_rev rev_is_rev_conv)
qed

section \<open>Machine views of a big integer\<close>

text \<open>
  \<open>(*big.Int).Uint64\<close> and \<open>(*big.Int).Int64\<close> return the low 64 bits of the absolute value;
  the signed one negates the result of a negative integer.
\<close>

definition Uint64 :: "int \<Rightarrow> uint64" where
  "Uint64 x = word_of_int \<bar>x\<bar>"

definition Int64 :: "int \<Rightarrow> int" where
  "Int64 x = (if x < 0 then sint (- Uint64 x) else sint (Uint64 x))"

text \<open>The Go conversion \<open>int(u)\<close> of a \<open>uint64\<close> on a 64-bit platform.\<close>

definition int_of_uint64 :: "uint64 \<Rightarrow> int" where
  "int_of_uint64 u = sint u"

lemma unat_Uint64: "0 \<le> x \<Longrightarrow> x < 2 ^ 64 \<Longrightarrow> unat (Uint64 x) = nat x"
  by (simp add: Uint64_def unat_eq_nat_uint uint_word_of_int)

lemma uint_Uint64: "0 \<le> x \<Longrightarrow> x < 2 ^ 64 \<Longrightarrow> uint (Uint64 x) = x"
  by (simp add: Uint64_def uint_word_of_int)

lemma sint_word_of_int_small: "0 \<le> x \<Longrightarrow> x < 2 ^ 63 \<Longrightarrow> sint (word_of_int x :: 64 word) = x"
  by (simp add: sint_sbintrunc' signed_take_bit_int_eq_self)

lemma Int64_small: "0 \<le> x \<Longrightarrow> x < 2 ^ 63 \<Longrightarrow> Int64 x = x"
  by (simp add: Int64_def Uint64_def sint_word_of_int_small)

lemma int_of_Uint64_small: "0 \<le> x \<Longrightarrow> x < 2 ^ 63 \<Longrightarrow> int_of_uint64 (Uint64 x) = x"
  by (simp add: int_of_uint64_def Uint64_def sint_word_of_int_small)

end
