(* ===== verification/Common.thy ===== *)
theory Common
  imports Prelude
begin

text \<open>
  The helpers of \<^verbatim>\<open>src/common/big.go\<close>, \<^verbatim>\<open>src/common/bytes.go\<close> and \<^verbatim>\<open>src/common/types.go\<close> that the
  virtual machine and the state use: the 256-bit views of big integers, padding of byte strings,
  hashes and addresses.

  A \<open>*big.Int\<close> is an \<open>int\<close>. The in-place methods of the source return their receiver; the model
  returns the new value, and the callers rebind it.
\<close>

section \<open>Methods of big.Int\<close>

definition big_And :: "int \<Rightarrow> int \<Rightarrow> int" where
  "big_And x y = semiring_bit_operations_class.and x y"

definition big_Or :: "int \<Rightarrow> int \<Rightarrow> int" where
  "big_Or x y = semiring_bit_operations_class.or x y"

definition big_Xor :: "int \<Rightarrow> int \<Rightarrow> int" where
  "big_Xor x y = semiring_bit_operations_class.xor x y"

definition big_Not :: "int \<Rightarrow> int" where
  "big_Not x = - x - 1"

definition big_Lsh :: "int \<Rightarrow> nat \<Rightarrow> int" where
  "big_Lsh x n = x * 2 ^ n"

text \<open>\<open>Exp\<close> with a modulus greater than one and a non-negative exponent.\<close>

definition big_Exp :: "int \<Rightarrow> int \<Rightarrow> int \<Rightarrow> int" where
  "big_Exp x y m = x ^ nat y mod m"

section \<open>common/big.go\<close>

definition BytesToBig :: "bytes \<Rightarrow> int" where
  "BytesToBig data = big_SetBytes data"

definition BitTest :: "int \<Rightarrow> nat \<Rightarrow> bool" where
  "BitTest num i = bit num i"

definition tt256 :: int where
  "tt256 = big_Lsh 1 256"

definition tt256m1 :: int where
  "tt256m1 = big_Lsh 1 256 - 1"

definition tt255 :: int where
  "tt255 = big_Lsh 1 255"

definition MaxBig :: int where
  "MaxBig = 0xffffffffffffffffffffffffffffffffffffffffffffffffffffffffffffffff"

definition U256 :: "int \<Rightarrow> int" where
  "U256 x = big_And x tt256m1"

definition S256 :: "int \<Rightarrow> int" where
  "S256 x = (if x < tt255 then x else x - tt256)"

function FirstBitSet_from :: "int \<Rightarrow> nat \<Rightarrow> nat \<Rightarrow> nat" where
  "FirstBitSet_from v i len =
     (if i < len then if bit v i then i else FirstBitSet_from v (Suc i) len else len)"
  by pat_completeness auto
termination
  by (relation "measure (\<lambda>(v, i, len). len - i)") auto

declare FirstBitSet_from.simps [simp del]

text \<open>\<open>BitLen\<close>: the length of the absolute value in bits; zero has length 0.\<close>

fun nat_BitLen :: "nat \<Rightarrow> nat" where
  "nat_BitLen n = (if n = 0 then 0 else Suc (nat_BitLen (n div 2)))"

declare nat_BitLen.simps [simp del]

definition FirstBitSet :: "int \<Rightarrow> nat" where
  "FirstBitSet v = FirstBitSet_from v 0 (nat_BitLen (nat \<bar>v\<bar>))"

text \<open>\<open>base/8\<close> is an integer division; a number that does not fit is returned unpadded.\<close>

definition BigToBytes :: "int \<Rightarrow> nat \<Rightarrow> bytes" where
  "BigToBytes num base =
     (let ret = replicate (base div 8) 0 in
      if length (big_Bytes num) > base div 8 then big_Bytes num
      else take (length ret - length (big_Bytes num)) ret @ big_Bytes num)"

definition BigMax :: "int \<Rightarrow> int \<Rightarrow> int" where
  "BigMax x y = (if x < y then y else x)"

definition BigMin :: "int \<Rightarrow> int \<Rightarrow> int" where
  "BigMin x y = (if x > y then y else x)"

section \<open>common/bytes.go\<close>

definition RightPadBytes :: "bytes \<Rightarrow> int \<Rightarrow> bytes" where
  "RightPadBytes xs l =
     (if l < int (length xs) then xs
      else copy_into (take (length xs) (replicate (nat l) 0)) xs
             @ drop (length xs) (replicate (nat l) 0))"

definition LeftPadBytes :: "bytes \<Rightarrow> int \<Rightarrow> bytes" where
  "LeftPadBytes xs l =
     (if l < int (length xs) then xs
      else take (nat l - length xs) (replicate (nat l) 0)
             @ copy_into (drop (nat l - length xs) (replicate (nat l) 0)) xs)"

section \<open>common/types.go\<close>

text \<open>
  \<open>SetBytes\<close> keeps the last 32 (20) bytes of a longer slice and copies a shorter one to the
  right end of the zeroed array: the big-endian value of the kept bytes.
\<close>

definition BytesToHash :: "bytes \<Rightarrow> hash" where
  "BytesToHash b =
     (let b = (if length b > 32 then drop (length b - 32) b else b) in word_of_nat (be_nat b))"

definition BigToHash :: "int \<Rightarrow> hash" where
  "BigToHash b = BytesToHash (big_Bytes b)"

definition Hash_Big :: "hash \<Rightarrow> int" where
  "Hash_Big h = uint h"

definition EmptyHash :: "hash \<Rightarrow> bool" where
  "EmptyHash h = (h = 0)"

definition BytesToAddress :: "bytes \<Rightarrow> address" where
  "BytesToAddress b =
     (let b = (if length b > 20 then drop (length b - 20) b else b) in word_of_nat (be_nat b))"

definition BigToAddress :: "int \<Rightarrow> address" where
  "BigToAddress b = BytesToAddress (big_Bytes b)"

definition Address_Big :: "address \<Rightarrow> int" where
  "Address_Big a = uint a"

text \<open>The bytes of an address and of a hash, at their fixed lengths.\<close>

definition Address_Bytes :: "address \<Rightarrow> bytes" where
  "Address_Bytes a = LeftPadBytes (big_Bytes (uint a)) 20"

definition Hash_Bytes :: "hash \<Rightarrow> bytes" where
  "Hash_Bytes h = LeftPadBytes (big_Bytes (uint h)) 32"

section \<open>Facts\<close>

lemma U256_mod: "U256 x = x mod 2 ^ 256"
proof -
  have "semiring_bit_operations_class.and x (mask 256) = take_bit 256 x"
    by (simp add: take_bit_eq_mask)
  moreover have "tt256m1 = mask 256"
    by (simp add: tt256m1_def big_Lsh_def mask_eq_exp_minus_1)
  ultimately show ?thesis
    unfolding U256_def big_And_def by (simp add: take_bit_eq_mod)
qed

lemma U256_range [simp]: "0 \<le> U256 x" "U256 x < 2 ^ 256"
  by (simp_all add: U256_mod)

lemma U256_id: "0 \<le> x \<Longrightarrow> x < 2 ^ 256 \<Longrightarrow> U256 x = x"
  by (simp add: U256_mod)

lemma U256_uint: "U256 x = uint (word_of_int x :: 256 word)"
  by (simp add: U256_mod uint_word_of_int)

lemma S256_sint:
  assumes "0 \<le> x" "x < 2 ^ 256"
  shows "S256 x = sint (word_of_int x :: 256 word)"
proof -
  have "sint (word_of_int x :: 256 word) = signed_take_bit 255 x"
    by (simp add: sint_sbintrunc')
  also have "\<dots> = (x + 2 ^ 255) mod 2 ^ 256 - 2 ^ 255"
    by (simp add: signed_take_bit_eq_take_bit_shift take_bit_eq_mod)
  also have "\<dots> = S256 x"
  proof (cases "x < 2 ^ 255")
    case True
    then have "(x + 2 ^ 255) mod 2 ^ 256 = x + 2 ^ 255"
      using assms by (intro mod_pos_pos_trivial) simp_all
    then show ?thesis using True by (simp add: S256_def tt255_def big_Lsh_def)
  next
    case False
    then have "(x + 2 ^ 255) mod 2 ^ 256 = x + 2 ^ 255 - 2 ^ 256"
      using assms by (subst mod_pos_geq) (simp_all add: mod_pos_pos_trivial)
    then show ?thesis using False by (simp add: S256_def tt255_def tt256_def big_Lsh_def)
  qed
  finally show ?thesis by simp
qed

lemma S256_range:
  assumes "0 \<le> x" "x < 2 ^ 256"
  shows "- (2 ^ 255) \<le> S256 x" "S256 x < 2 ^ 255"
  using assms by (auto simp: S256_def tt255_def tt256_def big_Lsh_def)

lemma U256_S256: "0 \<le> x \<Longrightarrow> x < 2 ^ 256 \<Longrightarrow> U256 (S256 x) = x"
proof (cases "x < tt255")
  case False
  then show "0 \<le> x \<Longrightarrow> x < 2 ^ 256 \<Longrightarrow> U256 (S256 x) = x"
    unfolding S256_def U256_mod tt256_def big_Lsh_def
    by (simp only: if_False mult_1 minus_mod_self2 mod_pos_pos_trivial)
qed (simp add: S256_def U256_id)

lemma BigMax_max: "BigMax x y = max x y" and BigMin_min: "BigMin x y = min x y"
  by (simp_all add: BigMax_def BigMin_def max_def min_def)

lemma RightPadBytes_eq:
  "int (length xs) \<le> l \<Longrightarrow> RightPadBytes xs l = xs @ replicate (nat l - length xs) 0"
  by (simp add: RightPadBytes_def copy_into_def min_def le_nat_iff)

lemma LeftPadBytes_eq:
  "int (length xs) \<le> l \<Longrightarrow> LeftPadBytes xs l = replicate (nat l - length xs) 0 @ xs"
  by (simp add: LeftPadBytes_def copy_into_def min_def)

lemma length_RightPadBytes [bytes_simps]: "length (RightPadBytes xs l) = max (length xs) (nat l)"
  by (cases "int (length xs) \<le> l") (auto simp: RightPadBytes_eq RightPadBytes_def)

lemma length_LeftPadBytes [bytes_simps]: "length (LeftPadBytes xs l) = max (length xs) (nat l)"
  by (cases "int (length xs) \<le> l") (auto simp: LeftPadBytes_eq LeftPadBytes_def)

lemma be_nat_LeftPadBytes [simp]: "be_nat (LeftPadBytes xs l) = be_nat xs"
proof (cases "int (length xs) \<le> l")
  case True
  then show ?thesis by (simp add: LeftPadBytes_eq)
qed (simp add: LeftPadBytes_def)

lemma BigToBytes_256:
  assumes "0 \<le> x" "x < 2 ^ 256"
  shows "length (BigToBytes x 256) = 32" "big_SetBytes (BigToBytes x 256) = x"
proof -
  have "length (big_Bytes x) \<le> 32"
    using assms by (intro length_big_Bytes) simp
  then show "length (BigToBytes x 256) = 32" "big_SetBytes (BigToBytes x 256) = x"
    using assms by (simp_all add: BigToBytes_def big_SetBytes_def)
qed

lemma be_nat_drop_mod: "be_nat (drop (length b - n) b) = be_nat b mod 256 ^ n" if "n \<le> length b"
proof -
  let ?k = "length b - n"
  have "be_nat b = be_nat (take ?k b) * 256 ^ n + be_nat (drop ?k b)"
    using be_nat_append [of "take ?k b" "drop ?k b"] that by simp
  moreover have "be_nat (drop ?k b) < 256 ^ n"
    using be_nat_bound [of "drop ?k b"] that by simp
  ultimately show ?thesis by simp
qed

lemma BytesToAddress_be_nat: "BytesToAddress b = word_of_nat (be_nat b)"
proof (cases "length b > 20")
  case True
  have "(word_of_nat (be_nat b mod 2 ^ LENGTH(160)) :: address) = word_of_nat (be_nat b)"
    by (rule word_of_nat_eq_iff [THEN iffD2]) (simp add: take_bit_eq_mod)
  with True show ?thesis by (simp add: BytesToAddress_def be_nat_drop_mod)
qed (simp add: BytesToAddress_def)

lemma BytesToHash_be_nat: "BytesToHash b = word_of_nat (be_nat b)"
proof (cases "length b > 32")
  case True
  have "(word_of_nat (be_nat b mod 2 ^ LENGTH(256)) :: hash) = word_of_nat (be_nat b)"
    by (rule word_of_nat_eq_iff [THEN iffD2]) (simp add: take_bit_eq_mod)
  with True show ?thesis by (simp add: BytesToHash_def be_nat_drop_mod)
qed (simp add: BytesToHash_def)

lemma BigToHash_word: "0 \<le> x \<Longrightarrow> BigToHash x = word_of_int x"
  by (simp add: BigToHash_def BytesToHash_be_nat)

lemma BigToAddress_word: "0 \<le> x \<Longrightarrow> BigToAddress x = word_of_int x"
  by (simp add: BigToAddress_def BytesToAddress_be_nat)

lemma Hash_Big_range [simp]: "0 \<le> Hash_Big h" "Hash_Big h < 2 ^ 256"
  using uint_lt2p [of h] by (simp_all add: Hash_Big_def)

lemma Hash_Big_BigToHash: "0 \<le> x \<Longrightarrow> x < 2 ^ 256 \<Longrightarrow> Hash_Big (BigToHash x) = x"
  by (simp add: Hash_Big_def BigToHash_word uint_word_of_int)

lemma BigToHash_Hash_Big [simp]: "BigToHash (Hash_Big h) = h"
  by (simp add: Hash_Big_def BigToHash_word)

lemma BigToAddress_Address_Big [simp]: "BigToAddress (Address_Big a) = a"
  by (simp add: Address_Big_def BigToAddress_word)

lemma Address_Big_range [simp]: "0 \<le> Address_Big a" "Address_Big a < 2 ^ 256"
proof -
  show "0 \<le> Address_Big a" by (simp add: Address_Big_def)
  have "uint a < 2 ^ 160" using uint_lt2p [of a] by simp
  then show "Address_Big a < 2 ^ 256" by (simp add: Address_Big_def)
qed

lemma EmptyHash_BigToHash: "0 \<le> x \<Longrightarrow> x < 2 ^ 256 \<Longrightarrow> EmptyHash (BigToHash x) \<longleftrightarrow> x = 0"
  using Hash_Big_BigToHash [of x] by (auto simp: EmptyHash_def Hash_Big_def BigToHash_word)

lemma length_Address_Bytes: "length (Address_Bytes a) = 20"
proof -
  have "length (big_Bytes (uint a)) \<le> 20" using uint_lt2p [of a] by (intro length_big_Bytes) simp
  then show ?thesis by (simp add: Address_Bytes_def length_LeftPadBytes)
qed

lemma BytesToAddress_Address_Bytes: "BytesToAddress (Address_Bytes a) = a"
  by (simp add: BytesToAddress_be_nat Address_Bytes_def)

lemma length_Hash_Bytes: "length (Hash_Bytes h) = 32"
proof -
  have "length (big_Bytes (uint h)) \<le> 32" using uint_lt2p [of h] by (intro length_big_Bytes) simp
  then show ?thesis by (simp add: Hash_Bytes_def length_LeftPadBytes)
qed

lemma BytesToHash_Hash_Bytes: "BytesToHash (Hash_Bytes h) = h"
  by (simp add: BytesToHash_be_nat Hash_Bytes_def)

end
