(* ===== verification/State_Object.thy ===== *)
theory State_Object
  imports Common
begin

text \<open>
  One account of the state, \<^verbatim>\<open>src/core/state/state_object.go\<close>, and the log entries of
  \<^verbatim>\<open>src/core/vm/log.go\<close>.

  A \<open>StateObject\<close> keeps the account's fields, a cache of the storage slots read or written so far
  and the storage trie behind it. The trie is modelled by its content, the function from a slot
  to its value, where an absent slot holds the zero hash (what \<open>getAddr\<close> returns for it). The
  fields \<open>codeHash\<close> and \<open>initCode\<close>, which no operation reads, and the handle \<open>db\<close> are left out.
\<close>

section \<open>Log entries\<close>

record vmlog =
  lg_address :: address
  lg_topics :: "hash list"
  lg_data :: bytes
  lg_blockNumber :: uint64
  lg_txHash :: hash
  lg_txIndex :: uint64
  lg_blockHash :: hash
  lg_index :: uint64

definition NewLog :: "address \<Rightarrow> hash list \<Rightarrow> bytes \<Rightarrow> uint64 \<Rightarrow> vmlog" where
  "NewLog addr topics data number =
     \<lparr>lg_address = addr, lg_topics = topics, lg_data = data, lg_blockNumber = number,
      lg_txHash = 0, lg_txIndex = 0, lg_blockHash = 0, lg_index = 0\<rparr>"

section \<open>State objects\<close>

record state_object =
  so_address :: address
  so_balance :: int
  so_nonce :: uint64
  so_code :: bytes
  so_storage :: "hash \<rightharpoonup> hash"
  so_trie :: "hash \<Rightarrow> hash"
  so_remove :: bool
  so_deleted :: bool
  so_dirty :: bool

text \<open>
  What the account trie stores under an address: the struct \<open>extobject\<close> that
  \<open>NewStateObjectFromBytes\<close> decodes, with the storage root and the code hash replaced by the
  storage and the code they identify.
\<close>

record account =
  ac_nonce :: uint64
  ac_balance :: int
  ac_storage :: "hash \<Rightarrow> hash"
  ac_code :: bytes

definition NewStateObject :: "address \<Rightarrow> state_object" where
  "NewStateObject addr =
     \<lparr>so_address = addr, so_balance = 0, so_nonce = 0, so_code = [], so_storage = Map.empty,
      so_trie = (\<lambda>_. 0), so_remove = False, so_deleted = False, so_dirty = True\<rparr>"

definition NewStateObjectFromBytes :: "address \<Rightarrow> account \<Rightarrow> state_object" where
  "NewStateObjectFromBytes addr ext =
     \<lparr>so_address = addr, so_balance = ac_balance ext, so_nonce = ac_nonce ext,
      so_code = ac_code ext, so_storage = Map.empty, so_trie = ac_storage ext,
      so_remove = False, so_deleted = False, so_dirty = False\<rparr>"

definition MarkForDeletion :: "state_object \<Rightarrow> state_object" where
  "MarkForDeletion so = so\<lparr>so_remove := True, so_dirty := True\<rparr>"

definition getAddr :: "state_object \<Rightarrow> hash \<Rightarrow> hash" where
  "getAddr so k = so_trie so k"

definition so_GetState :: "state_object \<Rightarrow> hash \<Rightarrow> hash \<times> state_object" where
  "so_GetState so key =
     (case so_storage so key of
        Some value \<Rightarrow> (value, so)
      | None \<Rightarrow>
          (let value = getAddr so key in
           (value, if value \<noteq> 0 then so\<lparr>so_storage := (so_storage so)(key \<mapsto> value)\<rparr> else so)))"

definition so_SetState :: "state_object \<Rightarrow> hash \<Rightarrow> hash \<Rightarrow> state_object" where
  "so_SetState so k value =
     so\<lparr>so_storage := (so_storage so)(k \<mapsto> value), so_dirty := True\<rparr>"

text \<open>
  \<open>Update\<close> writes every cached slot through to the trie. A zero value deletes the entry, after
  which the slot reads as zero; the iteration order of the cache does not matter.
\<close>

definition so_Update :: "state_object \<Rightarrow> state_object" where
  "so_Update so =
     so\<lparr>so_trie := (\<lambda>k. case so_storage so k of Some value \<Rightarrow> value | None \<Rightarrow> so_trie so k)\<rparr>"

definition so_SetBalance :: "state_object \<Rightarrow> int \<Rightarrow> state_object" where
  "so_SetBalance c amount = c\<lparr>so_balance := amount, so_dirty := True\<rparr>"

definition so_AddBalance :: "state_object \<Rightarrow> int \<Rightarrow> state_object" where
  "so_AddBalance c amount = so_SetBalance c (so_balance c + amount)"

definition so_SubBalance :: "state_object \<Rightarrow> int \<Rightarrow> state_object" where
  "so_SubBalance c amount = so_SetBalance c (so_balance c - amount)"

definition so_SetCode :: "state_object \<Rightarrow> bytes \<Rightarrow> state_object" where
  "so_SetCode so code = so\<lparr>so_code := code, so_dirty := True\<rparr>"

definition so_SetNonce :: "state_object \<Rightarrow> uint64 \<Rightarrow> state_object" where
  "so_SetNonce so nonce = so\<lparr>so_nonce := nonce, so_dirty := True\<rparr>"

definition so_Copy :: "state_object \<Rightarrow> state_object" where
  "so_Copy self =
     (NewStateObject (so_address self))
       \<lparr>so_balance := so_balance self, so_nonce := so_nonce self, so_trie := so_trie self,
        so_code := so_code self, so_storage := so_storage self, so_remove := so_remove self,
        so_dirty := so_dirty self, so_deleted := so_deleted self\<rparr>"

section \<open>What an object denotes\<close>

text \<open>
  The account an object stands for: the cached slots shadow the trie. Reading a slot changes
  the cache but not the account.
\<close>

definition so_view :: "state_object \<Rightarrow> account" where
  "so_view so =
     \<lparr>ac_nonce = so_nonce so, ac_balance = so_balance so,
      ac_storage = (\<lambda>k. case so_storage so k of Some v \<Rightarrow> v | None \<Rightarrow> so_trie so k),
      ac_code = so_code so\<rparr>"

lemma so_Copy_id: "so_Copy so = so"
  by (simp add: so_Copy_def NewStateObject_def)

lemma so_view_FromBytes [simp]: "so_view (NewStateObjectFromBytes addr ext) = ext"
  by (simp add: so_view_def NewStateObjectFromBytes_def)

lemma so_GetState_value: "fst (so_GetState so k) = ac_storage (so_view so) k"
  by (simp add: so_GetState_def so_view_def getAddr_def Let_def split: option.split)

lemma so_GetState_view [simp]: "so_view (snd (so_GetState so k)) = so_view so"
  by (auto simp: so_GetState_def so_view_def getAddr_def Let_def split: option.split)

lemma so_GetState_flags [simp]:
  "so_remove (snd (so_GetState so k)) = so_remove so"
  "so_deleted (snd (so_GetState so k)) = so_deleted so"
  "so_dirty (snd (so_GetState so k)) = so_dirty so"
  by (simp_all add: so_GetState_def Let_def split: option.split)

lemma so_SetState_view:
  "so_view (so_SetState so k v) =
     (so_view so)\<lparr>ac_storage := (ac_storage (so_view so))(k := v)\<rparr>"
  by (simp add: so_SetState_def so_view_def fun_eq_iff split: option.split)

lemma so_Update_view [simp]: "so_view (so_Update so) = so_view so"
  by (auto simp: so_Update_def so_view_def split: option.split)

lemma so_Update_flushes: "so_trie (so_Update so) = ac_storage (so_view so)"
  by (simp add: so_Update_def so_view_def)

lemmas so_defs = so_SetBalance_def so_AddBalance_def so_SubBalance_def so_SetCode_def
  so_SetNonce_def so_SetState_def MarkForDeletion_def

end
