(* ===== verification/StateDB.thy ===== *)
theory StateDB
  imports State_Object
begin

text \<open>
  The state database of \<^verbatim>\<open>src/core/state/statedb.go\<close>: a cache of state objects over the account
  trie, the refund counter and the logs of the running block.

  The account trie is modelled by its content, a partial map from addresses to accounts; the
  key-value store, the hashing and the RLP layer below it are not part of this component. A
  lookup that misses the cache loads the object and stores it in the cache, so every operation,
  the queries included, returns the state it leaves behind. \<open>db_StartingNonce\<close> is the package
  variable \<open>StartingNonce\<close>.
\<close>

section \<open>State\<close>

record statedb =
  db_trie :: "address \<rightharpoonup> account"
  stateObjects :: "address \<rightharpoonup> state_object"
  refund :: int
  thash :: hash
  bhash :: hash
  txIndex :: uint64
  logs :: "hash \<Rightarrow> vmlog list"
  logSize :: uint64
  db_StartingNonce :: uint64

definition state_New :: "uint64 \<Rightarrow> (address \<rightharpoonup> account) \<Rightarrow> statedb" where
  "state_New n0 tr =
     \<lparr>db_trie = tr, stateObjects = Map.empty, refund = 0, thash = 0, bhash = 0, txIndex = 0,
      logs = (\<lambda>_. []), logSize = 0, db_StartingNonce = n0\<rparr>"

section \<open>Logs and refunds\<close>

definition StartRecord :: "statedb \<Rightarrow> hash \<Rightarrow> hash \<Rightarrow> uint64 \<Rightarrow> statedb" where
  "StartRecord db th bh ti = db\<lparr>thash := th, bhash := bh, txIndex := ti\<rparr>"

definition AddLog :: "statedb \<Rightarrow> vmlog \<Rightarrow> statedb" where
  "AddLog db log =
     (let log = log\<lparr>lg_txHash := thash db, lg_blockHash := bhash db, lg_txIndex := txIndex db,
                    lg_index := logSize db\<rparr> in
      db\<lparr>logs := (logs db)(thash db := logs db (thash db) @ [log]),
         logSize := logSize db + 1\<rparr>)"

definition GetLogs :: "statedb \<Rightarrow> hash \<Rightarrow> vmlog list" where
  "GetLogs db h = logs db h"

definition AddRefund :: "statedb \<Rightarrow> int \<Rightarrow> statedb" where
  "AddRefund db gas = db\<lparr>refund := refund db + gas\<rparr>"

definition GetRefund :: "statedb \<Rightarrow> int" where
  "GetRefund db = refund db"

section \<open>State objects\<close>

text \<open>\<open>put_object\<close> is the write through the pointer that the object map holds for an address.\<close>

definition put_object :: "statedb \<Rightarrow> address \<Rightarrow> state_object \<Rightarrow> statedb" where
  "put_object db addr so = db\<lparr>stateObjects := (stateObjects db)(addr \<mapsto> so)\<rparr>"

definition SetStateObject :: "statedb \<Rightarrow> state_object \<Rightarrow> statedb" where
  "SetStateObject db so = put_object db (so_address so) so"

definition GetStateObject :: "statedb \<Rightarrow> address \<Rightarrow> state_object option \<times> statedb" where
  "GetStateObject db addr =
     (case stateObjects db addr of
        Some so \<Rightarrow> (if so_deleted so then (None, db) else (Some so, db))
      | None \<Rightarrow>
          (case db_trie db addr of
             None \<Rightarrow> (None, db)
           | Some data \<Rightarrow>
               (let so = NewStateObjectFromBytes addr data in (Some so, SetStateObject db so))))"

definition newStateObject :: "statedb \<Rightarrow> address \<Rightarrow> state_object \<times> statedb" where
  "newStateObject db addr =
     (let so = so_SetNonce (NewStateObject addr) (db_StartingNonce db) in
      (so, put_object db addr so))"

definition CreateStateObject :: "statedb \<Rightarrow> address \<Rightarrow> state_object \<times> statedb" where
  "CreateStateObject db addr =
     (let (so, db) = GetStateObject db addr;
          (newSo, db) = newStateObject db addr in
      case so of
        None \<Rightarrow> (newSo, db)
      | Some so \<Rightarrow>
          (let newSo = newSo\<lparr>so_balance := so_balance so\<rparr> in (newSo, put_object db addr newSo)))"

definition GetOrNewStateObject :: "statedb \<Rightarrow> address \<Rightarrow> state_object \<times> statedb" where
  "GetOrNewStateObject db addr =
     (case GetStateObject db addr of
        (None, db) \<Rightarrow> CreateStateObject db addr
      | (Some so, db) \<Rightarrow> if so_deleted so then CreateStateObject db addr else (so, db))"

definition CreateAccount :: "statedb \<Rightarrow> address \<Rightarrow> statedb" where
  "CreateAccount db addr = snd (CreateStateObject db addr)"

section \<open>Queries\<close>

definition Exist :: "statedb \<Rightarrow> address \<Rightarrow> bool \<times> statedb" where
  "Exist db addr = (case GetStateObject db addr of (so, db) \<Rightarrow> (so \<noteq> None, db))"

definition GetBalance :: "statedb \<Rightarrow> address \<Rightarrow> int \<times> statedb" where
  "GetBalance db addr =
     (case GetStateObject db addr of
        (Some so, db) \<Rightarrow> (so_balance so, db) | (None, db) \<Rightarrow> (0, db))"

definition GetNonce :: "statedb \<Rightarrow> address \<Rightarrow> uint64 \<times> statedb" where
  "GetNonce db addr =
     (case GetStateObject db addr of
        (Some so, db) \<Rightarrow> (so_nonce so, db) | (None, db) \<Rightarrow> (0, db))"

definition GetCode :: "statedb \<Rightarrow> address \<Rightarrow> bytes \<times> statedb" where
  "GetCode db addr =
     (case GetStateObject db addr of
        (Some so, db) \<Rightarrow> (so_code so, db) | (None, db) \<Rightarrow> ([], db))"

definition GetState :: "statedb \<Rightarrow> address \<Rightarrow> hash \<Rightarrow> hash \<times> statedb" where
  "GetState db a b =
     (case GetStateObject db a of
        (Some so, db) \<Rightarrow> (case so_GetState so b of (v, so) \<Rightarrow> (v, put_object db a so))
      | (None, db) \<Rightarrow> (0, db))"

definition IsDeleted :: "statedb \<Rightarrow> address \<Rightarrow> bool \<times> statedb" where
  "IsDeleted db addr =
     (case GetStateObject db addr of
        (Some so, db) \<Rightarrow> (so_remove so, db) | (None, db) \<Rightarrow> (False, db))"

section \<open>Setters\<close>

definition AddBalance :: "statedb \<Rightarrow> address \<Rightarrow> int \<Rightarrow> statedb" where
  "AddBalance db addr amount =
     (case GetOrNewStateObject db addr of (so, db) \<Rightarrow> put_object db addr (so_AddBalance so amount))"

definition SetNonce :: "statedb \<Rightarrow> address \<Rightarrow> uint64 \<Rightarrow> statedb" where
  "SetNonce db addr nonce =
     (case GetOrNewStateObject db addr of (so, db) \<Rightarrow> put_object db addr (so_SetNonce so nonce))"

definition SetCode :: "statedb \<Rightarrow> address \<Rightarrow> bytes \<Rightarrow> statedb" where
  "SetCode db addr code =
     (case GetOrNewStateObject db addr of (so, db) \<Rightarrow> put_object db addr (so_SetCode so code))"

definition SetState :: "statedb \<Rightarrow> address \<Rightarrow> hash \<Rightarrow> hash \<Rightarrow> statedb" where
  "SetState db addr key value =
     (case GetOrNewStateObject db addr of
        (so, db) \<Rightarrow> put_object db addr (so_SetState so key value))"

definition Delete :: "statedb \<Rightarrow> address \<Rightarrow> bool \<times> statedb" where
  "Delete db addr =
     (case GetStateObject db addr of
        (Some so, db) \<Rightarrow> (True, put_object db addr ((MarkForDeletion so)\<lparr>so_balance := 0\<rparr>))
      | (None, db) \<Rightarrow> (False, db))"

section \<open>Accounts by reference\<close>

text \<open>
  \<open>SubBalance\<close> and \<open>AddBalance\<close> of the account that \<open>GetAccount\<close> returned: the method writes
  the object in place, and a nil account is dereferenced.
\<close>

definition Account_SubBalance :: "statedb \<Rightarrow> address \<Rightarrow> int \<Rightarrow> statedb option" where
  "Account_SubBalance db addr amount =
     (case GetStateObject db addr of
        (Some so, db) \<Rightarrow> Some (put_object db addr (so_SubBalance so amount)) | (None, db) \<Rightarrow> None)"

definition Account_AddBalance :: "statedb \<Rightarrow> address \<Rightarrow> int \<Rightarrow> statedb option" where
  "Account_AddBalance db addr amount =
     (case GetStateObject db addr of
        (Some so, db) \<Rightarrow> Some (put_object db addr (so_AddBalance so amount)) | (None, db) \<Rightarrow> None)"

section \<open>Snapshots\<close>

definition db_Copy :: "statedb \<Rightarrow> statedb" where
  "db_Copy self =
     (state_New (db_StartingNonce self) (db_trie self))
       \<lparr>stateObjects := (\<lambda>k. map_option so_Copy (stateObjects self k)),
        refund := refund self, logs := logs self, logSize := logSize self\<rparr>"

definition db_Set :: "statedb \<Rightarrow> statedb \<Rightarrow> statedb" where
  "db_Set self state =
     self\<lparr>db_trie := db_trie state, stateObjects := stateObjects state, refund := refund state,
          logs := logs state, logSize := logSize state\<rparr>"

section \<open>Flushing to the trie\<close>

definition DeleteStateObject :: "statedb \<Rightarrow> address \<Rightarrow> state_object \<Rightarrow> statedb" where
  "DeleteStateObject db addr so =
     (put_object db addr (so\<lparr>so_deleted := True\<rparr>))\<lparr>db_trie := (db_trie db)(addr := None)\<rparr>"

definition UpdateStateObject :: "statedb \<Rightarrow> address \<Rightarrow> state_object \<Rightarrow> statedb" where
  "UpdateStateObject db addr so =
     db\<lparr>db_trie := (db_trie db)(addr \<mapsto>
        \<lparr>ac_nonce = so_nonce so, ac_balance = so_balance so, ac_storage = so_trie so,
         ac_code = so_code so\<rparr>)\<rparr>"

text \<open>
  One iteration of the loop of \<open>IntermediateRoot\<close> over the object map, for the object under
  \<open>addr\<close>; the loop runs it for every address of the map, each once, in an unspecified order.
\<close>

definition flush_object :: "address \<Rightarrow> statedb \<Rightarrow> statedb" where
  "flush_object addr db =
     (case stateObjects db addr of
        None \<Rightarrow> db
      | Some so \<Rightarrow>
          if so_dirty so then
            if so_remove so then
              DeleteStateObject db addr (so\<lparr>so_dirty := False\<rparr>)
            else
              (let so = so_Update so; db = UpdateStateObject db addr so in
               put_object db addr (so\<lparr>so_dirty := False\<rparr>))
          else db)"

definition IntermediateRoot :: "statedb \<Rightarrow> address list \<Rightarrow> statedb" where
  "IntermediateRoot db keys = fold flush_object keys (db\<lparr>refund := 0\<rparr>)"

text \<open>\<open>commit\<close> flushes every object, dirty or not.\<close>

definition commit_object :: "address \<Rightarrow> statedb \<Rightarrow> statedb" where
  "commit_object addr db =
     (case stateObjects db addr of
        None \<Rightarrow> db
      | Some so \<Rightarrow>
          if so_remove so then
            DeleteStateObject db addr (so\<lparr>so_dirty := False\<rparr>)
          else
            (let so = so_Update so; db = UpdateStateObject db addr so in
             put_object db addr (so\<lparr>so_dirty := False\<rparr>)))"

definition commit :: "statedb \<Rightarrow> address list \<Rightarrow> statedb" where
  "commit db keys = fold commit_object keys (db\<lparr>refund := 0\<rparr>)"

section \<open>The live objects\<close>

text \<open>
  \<open>live db a\<close> is the object that a lookup of \<open>a\<close> finds, wherever it is kept. Loading an object
  into the cache does not change it, so the queries leave \<open>live\<close> alone and every setter changes
  it at one address; the other theories reason about a state through \<open>live\<close> only.
\<close>

definition live :: "statedb \<Rightarrow> address \<Rightarrow> state_object option" where
  "live db a =
     (case stateObjects db a of
        Some so \<Rightarrow> if so_deleted so then None else Some so
      | None \<Rightarrow> map_option (NewStateObjectFromBytes a) (db_trie db a))"

definition fresh :: "statedb \<Rightarrow> address \<Rightarrow> state_object" where
  "fresh db a = so_SetNonce (NewStateObject a) (db_StartingNonce db)"

definition bal :: "statedb \<Rightarrow> address \<Rightarrow> int" where
  "bal db a = (case live db a of Some so \<Rightarrow> so_balance so | None \<Rightarrow> 0)"

definition total_supply :: "statedb \<Rightarrow> int" where
  "total_supply db = (\<Sum>a\<in>UNIV. bal db a)"

named_theorems live_simps \<open>effect of the state database operations on the live objects\<close>

lemma FromBytes_not_deleted [simp]: "\<not> so_deleted (NewStateObjectFromBytes a d)"
  by (simp add: NewStateObjectFromBytes_def)

lemma live_not_deleted: "live db a = Some so \<Longrightarrow> \<not> so_deleted so"
  by (auto simp: live_def split: option.splits if_splits)

lemma live_cong:
  "stateObjects db' = stateObjects db \<Longrightarrow> db_trie db' = db_trie db \<Longrightarrow> live db' = live db"
  by (rule ext) (simp add: live_def split: option.split)

lemma live_put_object [live_simps]:
  "live (put_object db a so) = (live db)(a := if so_deleted so then None else Some so)"
  by (auto simp: live_def put_object_def fun_eq_iff split: option.split)

lemma live_GetStateObject [live_simps]:
  "fst (GetStateObject db a) = live db a"
  "live (snd (GetStateObject db a)) = live db"
proof -
  show "fst (GetStateObject db a) = live db a"
    by (simp add: GetStateObject_def live_def Let_def split: option.split)
  show "live (snd (GetStateObject db a)) = live db"
    by (auto simp: GetStateObject_def Let_def SetStateObject_def live_put_object fun_eq_iff
          NewStateObjectFromBytes_def split: option.splits)
       (auto simp: live_def NewStateObjectFromBytes_def)
qed

text \<open>What no operation on objects touches.\<close>

definition same_frame :: "statedb \<Rightarrow> statedb \<Rightarrow> bool" where
  "same_frame db db' \<longleftrightarrow>
     db_trie db' = db_trie db \<and> thash db' = thash db \<and> bhash db' = bhash db \<and>
     txIndex db' = txIndex db \<and> db_StartingNonce db' = db_StartingNonce db"

lemma same_frame_refl [simp]: "same_frame db db"
  by (simp add: same_frame_def)

lemma same_frame_trans: "same_frame a b \<Longrightarrow> same_frame b c \<Longrightarrow> same_frame a c"
  by (simp add: same_frame_def)

lemma same_frame_put [simp]: "same_frame db (put_object db' a so) = same_frame db db'"
  by (simp add: same_frame_def put_object_def)

lemma same_frame_GetStateObject [simp]: "same_frame db (snd (GetStateObject db' a)) = same_frame db db'"
  by (simp add: same_frame_def GetStateObject_def SetStateObject_def put_object_def Let_def
      split: option.split)

lemma GetStateObject_unfold:
  "GetStateObject db a = (live db a, snd (GetStateObject db a))"
  by (metis live_GetStateObject(1) prod.collapse)

lemma fresh_not_deleted [simp]: "\<not> so_deleted (fresh db a)"
  by (simp add: fresh_def so_SetNonce_def NewStateObject_def)

lemma fresh_frame: "same_frame db db' \<Longrightarrow> fresh db' a = fresh db a"
  by (simp add: fresh_def same_frame_def)

lemma newStateObject_fresh:
  "newStateObject db a = (fresh db a, put_object db a (fresh db a))"
  by (simp add: newStateObject_def fresh_def Let_def)

definition created :: "statedb \<Rightarrow> address \<Rightarrow> state_object" where
  "created db a =
     (case live db a of None \<Rightarrow> fresh db a | Some so \<Rightarrow> (fresh db a)\<lparr>so_balance := so_balance so\<rparr>)"

lemma created_not_deleted [simp]: "\<not> so_deleted (created db a)"
  by (simp add: created_def fresh_def so_SetNonce_def NewStateObject_def split: option.split)

lemma live_CreateStateObject [live_simps]:
  "fst (CreateStateObject db a) = created db a"
  "live (snd (CreateStateObject db a)) = (live db)(a \<mapsto> created db a)"
  "same_frame db' (snd (CreateStateObject db a)) = same_frame db' db"
proof -
  let ?db = "snd (GetStateObject db a)"
  have fr: "fresh ?db a = fresh db a"
    by (rule fresh_frame) simp
  have eq: "CreateStateObject db a =
     (case live db a of
        None \<Rightarrow> (fresh db a, put_object ?db a (fresh db a))
      | Some so \<Rightarrow>
         (let s = (fresh db a)\<lparr>so_balance := so_balance so\<rparr> in
          (s, put_object (put_object ?db a (fresh db a)) a s)))"
    unfolding CreateStateObject_def
    by (subst GetStateObject_unfold) (simp add: newStateObject_fresh fr split: option.split)
  have [simp]: "\<not> so_deleted ((fresh db a)\<lparr>so_balance := b\<rparr>)" for b
    by (simp add: fresh_def so_SetNonce_def NewStateObject_def)
  show "fst (CreateStateObject db a) = created db a"
    "live (snd (CreateStateObject db a)) = (live db)(a \<mapsto> created db a)"
    "same_frame db' (snd (CreateStateObject db a)) = same_frame db' db"
    by (simp_all add: eq created_def Let_def live_simps split: option.split)
qed

definition obtained :: "statedb \<Rightarrow> address \<Rightarrow> state_object" where
  "obtained db a = (case live db a of Some so \<Rightarrow> so | None \<Rightarrow> fresh db a)"

lemma obtained_not_deleted [simp]: "\<not> so_deleted (obtained db a)"
  by (auto simp: obtained_def dest: live_not_deleted split: option.split)

lemma live_GetOrNewStateObject [live_simps]:
  "fst (GetOrNewStateObject db a) = obtained db a"
  "live (snd (GetOrNewStateObject db a)) = (live db)(a \<mapsto> obtained db a)"
  "same_frame db' (snd (GetOrNewStateObject db a)) = same_frame db' db"
proof -
  let ?db = "snd (GetStateObject db a)"
  have eq: "GetOrNewStateObject db a =
     (case live db a of None \<Rightarrow> CreateStateObject ?db a | Some so \<Rightarrow> (so, ?db))"
    unfolding GetOrNewStateObject_def
    by (subst GetStateObject_unfold) (auto dest: live_not_deleted split: option.split)
  have "live db a = None \<Longrightarrow> created ?db a = fresh db a"
    using fresh_frame [of db ?db a] by (simp add: created_def live_simps)
  then show "fst (GetOrNewStateObject db a) = obtained db a"
    "live (snd (GetOrNewStateObject db a)) = (live db)(a \<mapsto> obtained db a)"
    "same_frame db' (snd (GetOrNewStateObject db a)) = same_frame db' db"
    by (auto simp: eq obtained_def live_simps split: option.split)
qed

text \<open>Every operation in terms of \<open>live\<close>.\<close>

lemma live_queries [live_simps]:
  "fst (Exist db a) = (live db a \<noteq> None)" "live (snd (Exist db a)) = live db"
  "fst (GetBalance db a) = bal db a" "live (snd (GetBalance db a)) = live db"
  "fst (GetNonce db a) = (case live db a of Some so \<Rightarrow> so_nonce so | None \<Rightarrow> 0)"
  "live (snd (GetNonce db a)) = live db"
  "fst (GetCode db a) = (case live db a of Some so \<Rightarrow> so_code so | None \<Rightarrow> [])"
  "live (snd (GetCode db a)) = live db"
  "fst (IsDeleted db a) = (case live db a of Some so \<Rightarrow> so_remove so | None \<Rightarrow> False)"
  "live (snd (IsDeleted db a)) = live db"
  "fst (GetState db a k) =
     (case live db a of Some so \<Rightarrow> ac_storage (so_view so) k | None \<Rightarrow> 0)"
  "live (snd (GetState db a k)) =
     (live db)(a := map_option (\<lambda>so. snd (so_GetState so k)) (live db a))"
  unfolding Exist_def GetBalance_def GetNonce_def GetCode_def IsDeleted_def GetState_def bal_def
    case_prod_beta live_GetStateObject
  by (auto simp: live_GetStateObject live_put_object so_GetState_value
      dest: live_not_deleted split: option.split)

lemma frame_queries [simp]:
  "same_frame d (snd (Exist db a)) = same_frame d db"
  "same_frame d (snd (GetBalance db a)) = same_frame d db"
  "same_frame d (snd (GetNonce db a)) = same_frame d db"
  "same_frame d (snd (GetCode db a)) = same_frame d db"
  "same_frame d (snd (IsDeleted db a)) = same_frame d db"
  "same_frame d (snd (GetState db a k)) = same_frame d db"
  unfolding Exist_def GetBalance_def GetNonce_def GetCode_def IsDeleted_def GetState_def
    case_prod_beta live_GetStateObject
  by (simp_all split: option.split)

lemma live_setters [live_simps]:
  "live (AddBalance db a v) = (live db)(a \<mapsto> so_AddBalance (obtained db a) v)"
  "live (SetNonce db a n) = (live db)(a \<mapsto> so_SetNonce (obtained db a) n)"
  "live (SetCode db a c) = (live db)(a \<mapsto> so_SetCode (obtained db a) c)"
  "live (SetState db a k h) = (live db)(a \<mapsto> so_SetState (obtained db a) k h)"
  "live (CreateAccount db a) = (live db)(a \<mapsto> created db a)"
  "live (snd (Delete db a)) =
     (live db)(a := map_option (\<lambda>so. (MarkForDeletion so)\<lparr>so_balance := 0\<rparr>) (live db a))"
  "live (AddRefund db g) = live db"
  "live (AddLog db l) = live db"
  unfolding AddBalance_def SetNonce_def SetCode_def SetState_def CreateAccount_def Delete_def
    case_prod_beta live_GetStateObject live_GetOrNewStateObject
  by (auto simp: live_simps so_defs dest: live_not_deleted split: option.split)
     (rule live_cong; simp add: AddRefund_def AddLog_def Let_def)+

lemma frame_setters [simp]:
  "same_frame d (AddBalance db a v) = same_frame d db"
  "same_frame d (SetNonce db a n) = same_frame d db"
  "same_frame d (SetCode db a c) = same_frame d db"
  "same_frame d (SetState db a k h) = same_frame d db"
  "same_frame d (CreateAccount db a) = same_frame d db"
  "same_frame d (snd (Delete db a)) = same_frame d db"
  "same_frame d (AddRefund db g) = same_frame d db"
  "same_frame d (AddLog db l) = same_frame d db"
  unfolding AddBalance_def SetNonce_def SetCode_def SetState_def CreateAccount_def Delete_def
    case_prod_beta live_GetStateObject live_GetOrNewStateObject
  by (simp_all add: live_simps split: option.split)
     (simp_all add: same_frame_def AddRefund_def AddLog_def Let_def)

lemma Account_balance_eq:
  "Account_SubBalance db a v =
     map_option (\<lambda>so. put_object (snd (GetStateObject db a)) a (so_SubBalance so v)) (live db a)"
  "Account_AddBalance db a v =
     map_option (\<lambda>so. put_object (snd (GetStateObject db a)) a (so_AddBalance so v)) (live db a)"
  unfolding Account_SubBalance_def Account_AddBalance_def
  by (subst GetStateObject_unfold, simp split: option.split)+

lemma so_balance_deleted [simp]:
  "so_deleted (so_SubBalance so v) = so_deleted so"
  "so_deleted (so_AddBalance so v) = so_deleted so"
  by (simp_all add: so_defs)

lemma live_Account:
  "Account_SubBalance db a v = None \<longleftrightarrow> live db a = None"
  "Account_AddBalance db a v = None \<longleftrightarrow> live db a = None"
  "Account_SubBalance db a v = Some db' \<Longrightarrow>
     live db' = (live db)(a := map_option (\<lambda>so. so_SubBalance so v) (live db a))"
  "Account_AddBalance db a v = Some db' \<Longrightarrow>
     live db' = (live db)(a := map_option (\<lambda>so. so_AddBalance so v) (live db a))"
  "Account_SubBalance db a v = Some db' \<Longrightarrow> same_frame d db' = same_frame d db"
  "Account_AddBalance db a v = Some db' \<Longrightarrow> same_frame d db' = same_frame d db"
  unfolding Account_balance_eq
  by (auto simp: live_put_object live_GetStateObject live_not_deleted)

section \<open>Balances and existence\<close>

definition exists_acct :: "statedb \<Rightarrow> address \<Rightarrow> bool" where
  "exists_acct db a \<longleftrightarrow> live db a \<noteq> None"

lemma obtained_balance: "so_balance (obtained db a) = bal db a"
  by (simp add: obtained_def bal_def fresh_def so_SetNonce_def NewStateObject_def
      split: option.split)

lemma created_balance: "so_balance (created db a) = bal db a"
  by (simp add: created_def bal_def fresh_def so_SetNonce_def NewStateObject_def
      split: option.split)

named_theorems bal_simps \<open>effect of the state database operations on balances and existence\<close>

lemma bal_live_cong: "live db' = live db \<Longrightarrow> bal db' = bal db"
  by (simp add: bal_def fun_eq_iff)

lemma so_GetState_balance [simp]: "so_balance (snd (so_GetState so k)) = so_balance so"
  by (simp add: so_GetState_def Let_def split: option.split)

lemma bal_ops [bal_simps]:
  "bal (snd (Exist db a)) = bal db" "bal (snd (GetBalance db a)) = bal db"
  "bal (snd (GetNonce db a)) = bal db" "bal (snd (GetCode db a)) = bal db"
  "bal (snd (IsDeleted db a)) = bal db" "bal (snd (GetState db a k)) = bal db"
  "bal (AddBalance db a v) = (bal db)(a := bal db a + v)"
  "bal (SetNonce db a n) = bal db" "bal (SetCode db a c) = bal db"
  "bal (SetState db a k h) = bal db" "bal (CreateAccount db a) = bal db"
  "bal (snd (Delete db a)) = (bal db)(a := 0)"
  "bal (AddRefund db g) = bal db" "bal (AddLog db l) = bal db"
  using obtained_balance [of db a] created_balance [of db a]
  by (auto simp: bal_def fun_eq_iff live_simps so_defs split: option.split)

lemma exists_ops [bal_simps]:
  "exists_acct (snd (Exist db a)) = exists_acct db"
  "exists_acct (snd (GetBalance db a)) = exists_acct db"
  "exists_acct (snd (GetNonce db a)) = exists_acct db"
  "exists_acct (snd (GetCode db a)) = exists_acct db"
  "exists_acct (snd (IsDeleted db a)) = exists_acct db"
  "exists_acct (snd (GetState db a k)) = exists_acct db"
  "exists_acct (AddBalance db a v) = (exists_acct db)(a := True)"
  "exists_acct (SetNonce db a n) = (exists_acct db)(a := True)"
  "exists_acct (SetCode db a c) = (exists_acct db)(a := True)"
  "exists_acct (SetState db a k h) = (exists_acct db)(a := True)"
  "exists_acct (CreateAccount db a) = (exists_acct db)(a := True)"
  "exists_acct (snd (Delete db a)) = exists_acct db"
  "exists_acct (AddRefund db g) = exists_acct db" "exists_acct (AddLog db l) = exists_acct db"
  by (auto simp: exists_acct_def fun_eq_iff live_simps)

lemma db_Set_Copy:
  assumes "same_frame db db'"
  shows "db_Set db' (db_Copy db) = db"
proof -
  have "map_option so_Copy x = x" for x by (cases x) (simp_all add: so_Copy_id)
  then show ?thesis
    using assms by (simp add: db_Set_def db_Copy_def state_New_def same_frame_def)
qed

section \<open>The ledger interface\<close>

lemma sum_fun_upd:
  fixes f :: "address \<Rightarrow> int"
  shows "(\<Sum>x\<in>UNIV. (f(a := y)) x) = (\<Sum>x\<in>UNIV. f x) - f a + y"
proof -
  have "(\<Sum>x\<in>UNIV - {a}. (f(a := y)) x) = (\<Sum>x\<in>UNIV - {a}. f x)"
    by (rule sum.cong) auto
  then show ?thesis
    using sum.remove [of UNIV a f] sum.remove [of UNIV a "f(a := y)"] by simp
qed

text \<open>
  What value transfers rely on of the database behind \<open>vm.Database\<close> and \<open>vm.Account\<close>: balances
  that a credit and a debit change at one account, and a debit that is defined on an existing
  account. The sums range over all addresses, of which there are finitely many.
\<close>

locale ledger =
  fixes balance :: "'d \<Rightarrow> address \<Rightarrow> int"
    and present :: "'d \<Rightarrow> address \<Rightarrow> bool"
    and credit :: "'d \<Rightarrow> address \<Rightarrow> int \<Rightarrow> 'd option"
    and debit :: "'d \<Rightarrow> address \<Rightarrow> int \<Rightarrow> 'd option"
  assumes credit_defined: "present d a \<Longrightarrow> \<exists>d'. credit d a v = Some d'"
    and debit_defined: "present d a \<Longrightarrow> \<exists>d'. debit d a v = Some d'"
    and credit_present: "credit d a v = Some d' \<Longrightarrow> present d' = present d"
    and debit_present: "debit d a v = Some d' \<Longrightarrow> present d' = present d"
    and credit_balance: "credit d a v = Some d' \<Longrightarrow> balance d' = (balance d)(a := balance d a + v)"
    and debit_balance: "debit d a v = Some d' \<Longrightarrow> balance d' = (balance d)(a := balance d a - v)"
begin

text \<open>A debit followed by a credit of the same amount: defined, and no value appears or is lost.\<close>

lemma transfer_defined:
  assumes "present d a" and "present d b"
  shows "\<exists>d'. Option.bind (debit d a v) (\<lambda>d. credit d b v) = Some d'"
proof -
  from debit_defined [OF assms(1)] obtain d1 where d1: "debit d a v = Some d1" by blast
  with assms(2) have "present d1 b" by (simp add: debit_present)
  then show ?thesis using d1 credit_defined by simp
qed

lemma transfer_total:
  assumes "Option.bind (debit d a v) (\<lambda>d. credit d b v) = Some d'"
  shows "(\<Sum>x\<in>UNIV. balance d' x) = (\<Sum>x\<in>UNIV. balance d x)"
proof -
  from assms obtain d1 where "debit d a v = Some d1" and "credit d1 b v = Some d'"
    by (auto simp: bind_eq_Some_conv)
  then have 1: "balance d' = (balance d1)(b := balance d1 b + v)"
    and 2: "balance d1 = (balance d)(a := balance d a - v)"
    by (simp_all add: credit_balance debit_balance)
  have "(\<Sum>x\<in>UNIV. balance d' x) = (\<Sum>x\<in>UNIV. balance d1 x) + v"
    unfolding 1 sum_fun_upd by simp
  also have "(\<Sum>x\<in>UNIV. balance d1 x) = (\<Sum>x\<in>UNIV. balance d x) - v"
    unfolding 2 sum_fun_upd by simp
  finally show ?thesis by simp
qed

lemma transfer_nonneg:
  assumes "Option.bind (debit d a v) (\<lambda>d. credit d b v) = Some d'"
    and "\<And>x. 0 \<le> balance d x" and "0 \<le> v" and "v \<le> balance d a"
  shows "0 \<le> balance d' x"
proof -
  from assms(1) obtain d1 where "debit d a v = Some d1" and "credit d1 b v = Some d'"
    by (auto simp: bind_eq_Some_conv)
  then have "balance d' = (balance d1)(b := balance d1 b + v)"
    and "balance d1 = (balance d)(a := balance d a - v)"
    by (simp_all add: credit_balance debit_balance)
  then show ?thesis using assms(2) [of x] assms(2) [of b] assms(3,4) by simp
qed

lemma transfer_present:
  assumes "Option.bind (debit d a v) (\<lambda>d. credit d b v) = Some d'"
  shows "present d' = present d"
  using assms by (auto simp: bind_eq_Some_conv credit_present debit_present)

end

interpretation sdb: ledger bal exists_acct Account_AddBalance Account_SubBalance
proof unfold_locales
  fix d a v
  show "exists_acct d a \<Longrightarrow> \<exists>d'. Account_AddBalance d a v = Some d'"
    "exists_acct d a \<Longrightarrow> \<exists>d'. Account_SubBalance d a v = Some d'"
    using live_Account(1,2) [of d a v] by (auto simp: exists_acct_def)
next
  fix d a v d'
  assume r: "Account_AddBalance d a v = Some d'"
  then have "live d' = (live d)(a := map_option (\<lambda>so. so_AddBalance so v) (live d a))"
    and "live d a \<noteq> None"
    using live_Account(2) [of d a v] live_Account(4) [OF r] by simp_all
  then show "exists_acct d' = exists_acct d" and "bal d' = (bal d)(a := bal d a + v)"
    by (auto simp: exists_acct_def bal_def fun_eq_iff so_defs)
next
  fix d a v d'
  assume r: "Account_SubBalance d a v = Some d'"
  then have "live d' = (live d)(a := map_option (\<lambda>so. so_SubBalance so v) (live d a))"
    and "live d a \<noteq> None"
    using live_Account(1) [of d a v] live_Account(3) [OF r] by simp_all
  then show "exists_acct d' = exists_acct d" and "bal d' = (bal d)(a := bal d a - v)"
    by (auto simp: exists_acct_def bal_def fun_eq_iff so_defs)
qed

lemma total_supply_upd: "bal d' = (bal d)(a := y) \<Longrightarrow> total_supply d' = total_supply d - bal d a + y"
  unfolding total_supply_def by (simp only: sum_fun_upd)

end
