(* ===== verification/Params.thy ===== *)
theory Params
  imports Prelude
begin

text \<open>
  The protocol constants of \<^verbatim>\<open>src/params/protocol_params.go\<close>. Every constant is a \<open>*big.Int\<close> of
  the source, here an \<open>int\<close>.
\<close>

abbreviation (input) MaximumExtraDataSize :: int where "MaximumExtraDataSize \<equiv> 32"
abbreviation (input) ExpByteGas :: int where "ExpByteGas \<equiv> 10"
abbreviation (input) SloadGas :: int where "SloadGas \<equiv> 50"
abbreviation (input) CallValueTransferGas :: int where "CallValueTransferGas \<equiv> 9000"
abbreviation (input) CallNewAccountGas :: int where "CallNewAccountGas \<equiv> 25000"
abbreviation (input) TxGas :: int where "TxGas \<equiv> 21000"
abbreviation (input) TxDataZeroGas :: int where "TxDataZeroGas \<equiv> 4"
abbreviation (input) DifficultyBoundDivisor :: int where "DifficultyBoundDivisor \<equiv> 2048"
abbreviation (input) QuadCoeffDiv :: int where "QuadCoeffDiv \<equiv> 512"
abbreviation (input) GenesisDifficulty :: int where "GenesisDifficulty \<equiv> 131072"
abbreviation (input) DurationLimit :: int where "DurationLimit \<equiv> 13"
abbreviation (input) SstoreSetGas :: int where "SstoreSetGas \<equiv> 20000"
abbreviation (input) LogDataGas :: int where "LogDataGas \<equiv> 8"
abbreviation (input) CallStipend :: int where "CallStipend \<equiv> 2300"
abbreviation (input) EcrecoverGas :: int where "EcrecoverGas \<equiv> 3000"
abbreviation (input) Sha256WordGas :: int where "Sha256WordGas \<equiv> 12"
abbreviation (input) MinGasLimit :: int where "MinGasLimit \<equiv> 5000"
abbreviation (input) GenesisGasLimit :: int where "GenesisGasLimit \<equiv> 3141592"
abbreviation (input) Sha3Gas :: int where "Sha3Gas \<equiv> 30"
abbreviation (input) Sha256Gas :: int where "Sha256Gas \<equiv> 60"
abbreviation (input) IdentityWordGas :: int where "IdentityWordGas \<equiv> 3"
abbreviation (input) Sha3WordGas :: int where "Sha3WordGas \<equiv> 6"
abbreviation (input) SstoreResetGas :: int where "SstoreResetGas \<equiv> 5000"
abbreviation (input) SstoreClearGas :: int where "SstoreClearGas \<equiv> 5000"
abbreviation (input) SstoreRefundGas :: int where "SstoreRefundGas \<equiv> 15000"
abbreviation (input) JumpdestGas :: int where "JumpdestGas \<equiv> 1"
abbreviation (input) IdentityGas :: int where "IdentityGas \<equiv> 15"
abbreviation (input) GasLimitBoundDivisor :: int where "GasLimitBoundDivisor \<equiv> 1024"
abbreviation (input) EpochDuration :: int where "EpochDuration \<equiv> 30000"
abbreviation (input) CallGas :: int where "CallGas \<equiv> 40"
abbreviation (input) CreateDataGas :: int where "CreateDataGas \<equiv> 200"
abbreviation (input) Ripemd160Gas :: int where "Ripemd160Gas \<equiv> 600"
abbreviation (input) Ripemd160WordGas :: int where "Ripemd160WordGas \<equiv> 120"
abbreviation (input) MinimumDifficulty :: int where "MinimumDifficulty \<equiv> 131072"
abbreviation (input) CallCreateDepth :: int where "CallCreateDepth \<equiv> 1024"
abbreviation (input) ExpGas :: int where "ExpGas \<equiv> 10"
abbreviation (input) LogGas :: int where "LogGas \<equiv> 375"
abbreviation (input) CopyGas :: int where "CopyGas \<equiv> 3"
abbreviation (input) StackLimit :: int where "StackLimit \<equiv> 1024"
abbreviation (input) TierStepGas :: int where "TierStepGas \<equiv> 0"
abbreviation (input) LogTopicGas :: int where "LogTopicGas \<equiv> 375"
abbreviation (input) CreateGas :: int where "CreateGas \<equiv> 32000"
abbreviation (input) SuicideRefundGas :: int where "SuicideRefundGas \<equiv> 24000"
abbreviation (input) MemoryGas :: int where "MemoryGas \<equiv> 3"
abbreviation (input) TxDataNonZeroGas :: int where "TxDataNonZeroGas \<equiv> 68"

end
