(* ===== verification/Vm_Stack.thy ===== *)
theory Vm_Stack
  imports Common Params
begin

text \<open>
  The operand stack of the virtual machine, \<^verbatim>\<open>src/core/vm/stack.go\<close>. The slice \<open>data\<close> grows at
  its end, so the top of the stack is the last element. Reading below the bottom is a run-time
  panic of the code and \<open>None\<close> here; \<open>st_require\<close> is the check the code makes first.

  Stack items are pointers in the code. An operation pops the pointers it writes through, \<open>dup\<close>
  and the pushes of shared values copy, so no two live items share an integer and the items are
  values here.
\<close>

section \<open>Errors of the virtual machine\<close>

datatype vm_error =
    OutOfGasError
  | DepthError
  | ValueTransferErr int int
  | StackUnderflow nat nat
  | StackLimitReached nat
  | InvalidJumpDest byte int
  | InvalidOpcode byte

section \<open>Operations\<close>

record stack =
  st_data :: "int list"

definition newstack :: stack where
  "newstack = \<lparr>st_data = []\<rparr>"

definition st_push :: "stack \<Rightarrow> int \<Rightarrow> stack" where
  "st_push st d = st\<lparr>st_data := st_data st @ [d]\<rparr>"

definition st_pop :: "stack \<Rightarrow> (int \<times> stack) option" where
  "st_pop st =
     (if st_data st = [] then None
      else Some (last (st_data st), st\<lparr>st_data := butlast (st_data st)\<rparr>))"

definition st_len :: "stack \<Rightarrow> nat" where
  "st_len st = length (st_data st)"

text \<open>The read \<open>stack.data[stack.len()-n]\<close> that the gas calculation makes.\<close>

definition st_back :: "stack \<Rightarrow> nat \<Rightarrow> int option" where
  "st_back st n = (if 0 < n \<and> n \<le> st_len st then Some (st_data st ! (st_len st - n)) else None)"

definition st_swap :: "stack \<Rightarrow> nat \<Rightarrow> stack option" where
  "st_swap st n =
     do { x \<leftarrow> st_back st n;
          y \<leftarrow> st_back st 1;
          Some (st\<lparr>st_data := (st_data st)[st_len st - n := y, st_len st - 1 := x]\<rparr>) }"

definition st_dup :: "stack \<Rightarrow> nat \<Rightarrow> stack option" where
  "st_dup st n = map_option (st_push st) (st_back st n)"

definition st_peek :: "stack \<Rightarrow> int option" where
  "st_peek st = st_back st 1"

definition st_require :: "stack \<Rightarrow> nat \<Rightarrow> vm_error option" where
  "st_require st n = (if st_len st < n then Some (StackUnderflow (st_len st) n) else None)"

section \<open>Facts\<close>

text \<open>A machine word on the stack; every item is one.\<close>

definition is_u256 :: "int \<Rightarrow> bool" where
  "is_u256 x \<longleftrightarrow> 0 \<le> x \<and> x < 2 ^ 256"

definition wf_stack :: "stack \<Rightarrow> bool" where
  "wf_stack st \<longleftrightarrow> list_all is_u256 (st_data st)"

named_theorems stack_simps \<open>evaluation of stack operations on a stack whose top items are known\<close>

lemma st_pop_snoc [stack_simps]:
  "st_pop st = Some (x, st') \<longleftrightarrow> st_data st = st_data st' @ [x] \<and> st\<lparr>st_data := st_data st'\<rparr> = st'"
  by (cases "st_data st" rule: rev_cases) (auto simp: st_pop_def)

lemma st_pop_update [stack_simps]:
  "st_pop (st\<lparr>st_data := xs @ [x]\<rparr>) = Some (x, st\<lparr>st_data := xs\<rparr>)"
  "st_pop (st\<lparr>st_data := xs @ [y, x]\<rparr>) = Some (x, st\<lparr>st_data := xs @ [y]\<rparr>)"
  by (simp_all add: st_pop_def butlast_append)

lemma st_pop_defined: "0 < st_len st \<Longrightarrow> \<exists>x st'. st_pop st = Some (x, st') \<and> st_len st = Suc (st_len st')"
  by (cases "st_data st" rule: rev_cases) (auto simp: st_pop_def st_len_def)

lemma st_len_push [simp]: "st_len (st_push st x) = Suc (st_len st)"
  by (simp add: st_len_def st_push_def)

lemma wf_stack_push [simp]: "wf_stack (st_push st x) \<longleftrightarrow> wf_stack st \<and> is_u256 x"
  by (auto simp: wf_stack_def st_push_def)

lemma st_pop_wf: "st_pop st = Some (x, st') \<Longrightarrow> wf_stack st \<longleftrightarrow> is_u256 x \<and> wf_stack st'"
  by (auto simp: st_pop_snoc wf_stack_def)

lemma st_pop_len: "st_pop st = Some (x, st') \<Longrightarrow> st_len st = Suc (st_len st')"
  by (auto simp: st_pop_snoc st_len_def)

lemma st_pop_push: "st_pop (st_push st x) = Some (x, st)"
  by (simp add: st_pop_def st_push_def)

lemma st_back_defined: "0 < n \<Longrightarrow> n \<le> st_len st \<Longrightarrow> \<exists>x. st_back st n = Some x"
  by (simp add: st_back_def)

lemma st_back_wf: "wf_stack st \<Longrightarrow> st_back st n = Some x \<Longrightarrow> is_u256 x"
  by (auto simp: st_back_def wf_stack_def st_len_def list_all_length split: if_splits)

text \<open>\<open>st_back\<close> reads what successive pops return.\<close>

lemma st_back_pop:
  assumes "st_pop st = Some (x, st')"
  shows "st_back st (Suc 0) = Some x" and "0 < n \<Longrightarrow> st_back st (Suc n) = st_back st' n"
  using assms by (auto simp: st_pop_snoc st_back_def st_len_def nth_append)

lemma st_swap_defined: "0 < n \<Longrightarrow> n \<le> st_len st \<Longrightarrow> \<exists>st'. st_swap st n = Some st' \<and> st_len st' = st_len st"
  by (simp add: st_swap_def st_back_def st_len_def)

lemma st_swap_wf:
  assumes "wf_stack st" and "st_swap st n = Some st'"
  shows "wf_stack st'"
proof -
  from assms(2) obtain x y where "st_back st n = Some x" "st_back st 1 = Some y"
    and st': "st' = st\<lparr>st_data := (st_data st)[st_len st - n := y, st_len st - 1 := x]\<rparr>"
    by (auto simp: st_swap_def bind_eq_Some_conv)
  with assms(1) have "is_u256 x" "is_u256 y" by (auto dest: st_back_wf)
  moreover have "set (st_data st') \<subseteq> insert x (insert y (set (st_data st)))"
    by (simp add: st') (rule order_trans [OF set_update_subset_insert insert_mono [OF set_update_subset_insert]])
  ultimately show ?thesis using assms(1) by (auto simp: wf_stack_def list_all_iff)
qed

lemma st_dup_defined: "0 < n \<Longrightarrow> n \<le> st_len st \<Longrightarrow> \<exists>st'. st_dup st n = Some st' \<and> st_len st' = Suc (st_len st)"
  by (simp add: st_dup_def st_back_def)

lemma st_dup_wf: "wf_stack st \<Longrightarrow> st_dup st n = Some st' \<Longrightarrow> wf_stack st'"
  by (auto simp: st_dup_def dest: st_back_wf)

lemma st_swap_swap:
  assumes "st_swap st n = Some st'"
  shows "st_swap st' n = Some st"
proof -
  from assms have "0 < n" "n \<le> st_len st"
    by (auto simp: st_swap_def st_back_def bind_eq_Some_conv split: if_splits)
  then show ?thesis
    using assms
    by (auto simp: st_swap_def st_back_def st_len_def nth_list_update bind_eq_Some_conv
        intro!: stack.equality nth_equalityI)
qed

end
