(* ===== verification/Opcodes.thy ===== *)
theory Opcodes
  imports Prelude
begin

text \<open>
  The instruction set of \<^verbatim>\<open>src/core/vm/opcodes.go\<close>: an \<open>OpCode\<close> is a byte, its constants are
  abbreviations, and the two string tables are association lists in the source's order.
\<close>

type_synonym OpCode = byte

section \<open>The constants\<close>

abbreviation (input) STOP :: OpCode where "STOP \<equiv> 0"
abbreviation (input) ADD :: OpCode where "ADD \<equiv> 1"
abbreviation (input) MUL :: OpCode where "MUL \<equiv> 2"
abbreviation (input) SUB :: OpCode where "SUB \<equiv> 3"
abbreviation (input) DIV :: OpCode where "DIV \<equiv> 4"
abbreviation (input) SDIV :: OpCode where "SDIV \<equiv> 5"
abbreviation (input) MOD :: OpCode where "MOD \<equiv> 6"
abbreviation (input) SMOD :: OpCode where "SMOD \<equiv> 7"
abbreviation (input) ADDMOD :: OpCode where "ADDMOD \<equiv> 8"
abbreviation (input) MULMOD :: OpCode where "MULMOD \<equiv> 9"
abbreviation (input) EXP :: OpCode where "EXP \<equiv> 10"
abbreviation (input) SIGNEXTEND :: OpCode where "SIGNEXTEND \<equiv> 11"
abbreviation (input) LT :: OpCode where "LT \<equiv> 16"
abbreviation (input) GT :: OpCode where "GT \<equiv> 17"
abbreviation (input) SLT :: OpCode where "SLT \<equiv> 18"
abbreviation (input) SGT :: OpCode where "SGT \<equiv> 19"
abbreviation (input) EQ :: OpCode where "EQ \<equiv> 20"
abbreviation (input) ISZERO :: OpCode where "ISZERO \<equiv> 21"
abbreviation (input) AND :: OpCode where "AND \<equiv> 22"
abbreviation (input) OR :: OpCode where "OR \<equiv> 23"
abbreviation (input) XOR :: OpCode where "XOR \<equiv> 24"
abbreviation (input) NOT :: OpCode where "NOT \<equiv> 25"
abbreviation (input) BYTE :: OpCode where "BYTE \<equiv> 26"
abbreviation (input) SHA3 :: OpCode where "SHA3 \<equiv> 32"
abbreviation (input) ADDRESS :: OpCode where "ADDRESS \<equiv> 48"
abbreviation (input) BALANCE :: OpCode where "BALANCE \<equiv> 49"
abbreviation (input) ORIGIN :: OpCode where "ORIGIN \<equiv> 50"
abbreviation (input) CALLER :: OpCode where "CALLER \<equiv> 51"
abbreviation (input) CALLVALUE :: OpCode where "CALLVALUE \<equiv> 52"
abbreviation (input) CALLDATALOAD :: OpCode where "CALLDATALOAD \<equiv> 53"
abbreviation (input) CALLDATASIZE :: OpCode where "CALLDATASIZE \<equiv> 54"
abbreviation (input) CALLDATACOPY :: OpCode where "CALLDATACOPY \<equiv> 55"
abbreviation (input) CODESIZE :: OpCode where "CODESIZE \<equiv> 56"
abbreviation (input) CODECOPY :: OpCode where "CODECOPY \<equiv> 57"
abbreviation (input) GASPRICE :: OpCode where "GASPRICE \<equiv> 58"
abbreviation (input) EXTCODESIZE :: OpCode where "EXTCODESIZE \<equiv> 59"
abbreviation (input) EXTCODECOPY :: OpCode where "EXTCODECOPY \<equiv> 60"
abbreviation (input) BLOCKHASH :: OpCode where "BLOCKHASH \<equiv> 64"
abbreviation (input) COINBASE :: OpCode where "COINBASE \<equiv> 65"
abbreviation (input) TIMESTAMP :: OpCode where "TIMESTAMP \<equiv> 66"
abbreviation (input) NUMBER :: OpCode where "NUMBER \<equiv> 67"
abbreviation (input) DIFFICULTY :: OpCode where "DIFFICULTY \<equiv> 68"
abbreviation (input) GASLIMIT :: OpCode where "GASLIMIT \<equiv> 69"
abbreviation (input) POP :: OpCode where "POP \<equiv> 80"
abbreviation (input) MLOAD :: OpCode where "MLOAD \<equiv> 81"
abbreviation (input) MSTORE :: OpCode where "MSTORE \<equiv> 82"
abbreviation (input) MSTORE8 :: OpCode where "MSTORE8 \<equiv> 83"
abbreviation (input) SLOAD :: OpCode where "SLOAD \<equiv> 84"
abbreviation (input) SSTORE :: OpCode where "SSTORE \<equiv> 85"
abbreviation (input) JUMP :: OpCode where "JUMP \<equiv> 86"
abbreviation (input) JUMPI :: OpCode where "JUMPI \<equiv> 87"
abbreviation (input) PC :: OpCode where "PC \<equiv> 88"
abbreviation (input) MSIZE :: OpCode where "MSIZE \<equiv> 89"
abbreviation (input) GAS :: OpCode where "GAS \<equiv> 90"
abbreviation (input) JUMPDEST :: OpCode where "JUMPDEST \<equiv> 91"
abbreviation (input) PUSH1 :: OpCode where "PUSH1 \<equiv> 96"
abbreviation (input) PUSH2 :: OpCode where "PUSH2 \<equiv> 97"
abbreviation (input) PUSH3 :: OpCode where "PUSH3 \<equiv> 98"
abbreviation (input) PUSH4 :: OpCode where "PUSH4 \<equiv> 99"
abbreviation (input) PUSH5 :: OpCode where "PUSH5 \<equiv> 100"
abbreviation (input) PUSH6 :: OpCode where "PUSH6 \<equiv> 101"
abbreviation (input) PUSH7 :: OpCode where "PUSH7 \<equiv> 102"
abbreviation (input) PUSH8 :: OpCode where "PUSH8 \<equiv> 103"
abbreviation (input) PUSH9 :: OpCode where "PUSH9 \<equiv> 104"
abbreviation (input) PUSH10 :: OpCode where "PUSH10 \<equiv> 105"
abbreviation (input) PUSH11 :: OpCode where "PUSH11 \<equiv> 106"
abbreviation (input) PUSH12 :: OpCode where "PUSH12 \<equiv> 107"
abbreviation (input) PUSH13 :: OpCode where "PUSH13 \<equiv> 108"
abbreviation (input) PUSH14 :: OpCode where "PUSH14 \<equiv> 109"
abbreviation (input) PUSH15 :: OpCode where "PUSH15 \<equiv> 110"
abbreviation (input) PUSH16 :: OpCode where "PUSH16 \<equiv> 111"
abbreviation (input) PUSH17 :: OpCode where "PUSH17 \<equiv> 112"
abbreviation (input) PUSH18 :: OpCode where "PUSH18 \<equiv> 113"
abbreviation (input) PUSH19 :: OpCode where "PUSH19 \<equiv> 114"
abbreviation (input) PUSH20 :: OpCode where "PUSH20 \<equiv> 115"
abbreviation (input) PUSH21 :: OpCode where "PUSH21 \<equiv> 116"
abbreviation (input) PUSH22 :: OpCode where "PUSH22 \<equiv> 117"
abbreviation (input) PUSH23 :: OpCode where "PUSH23 \<equiv> 118"
abbreviation (input) PUSH24 :: OpCode where "PUSH24 \<equiv> 119"
abbreviation (input) PUSH25 :: OpCode where "PUSH25 \<equiv> 120"
abbreviation (input) PUSH26 :: OpCode where "PUSH26 \<equiv> 121"
abbreviation (input) PUSH27 :: OpCode where "PUSH27 \<equiv> 122"
abbreviation (input) PUSH28 :: OpCode where "PUSH28 \<equiv> 123"
abbreviation (input) PUSH29 :: OpCode where "PUSH29 \<equiv> 124"
abbreviation (input) PUSH30 :: OpCode where "PUSH30 \<equiv> 125"
abbreviation (input) PUSH31 :: OpCode where "PUSH31 \<equiv> 126"
abbreviation (input) PUSH32 :: OpCode where "PUSH32 \<equiv> 127"
abbreviation (input) DUP1 :: OpCode where "DUP1 \<equiv> 128"
abbreviation (input) DUP2 :: OpCode where "DUP2 \<equiv> 129"
abbreviation (input) DUP3 :: OpCode where "DUP3 \<equiv> 130"
abbreviation (input) DUP4 :: OpCode where "DUP4 \<equiv> 131"
abbreviation (input) DUP5 :: OpCode where "DUP5 \<equiv> 132"
abbreviation (input) DUP6 :: OpCode where "DUP6 \<equiv> 133"
abbreviation (input) DUP7 :: OpCode where "DUP7 \<equiv> 134"
abbreviation (input) DUP8 :: OpCode where "DUP8 \<equiv> 135"
abbreviation (input) DUP9 :: OpCode where "DUP9 \<equiv> 136"
abbreviation (input) DUP10 :: OpCode where "DUP10 \<equiv> 137"
abbreviation (input) DUP11 :: OpCode where "DUP11 \<equiv> 138"
abbreviation (input) DUP12 :: OpCode where "DUP12 \<equiv> 139"
abbreviation (input) DUP13 :: OpCode where "DUP13 \<equiv> 140"
abbreviation (input) DUP14 :: OpCode where "DUP14 \<equiv> 141"
abbreviation (input) DUP15 :: OpCode where "DUP15 \<equiv> 142"
abbreviation (input) DUP16 :: OpCode where "DUP16 \<equiv> 143"
abbreviation (input) SWAP1 :: OpCode where "SWAP1 \<equiv> 144"
abbreviation (input) SWAP2 :: OpCode where "SWAP2 \<equiv> 145"
abbreviation (input) SWAP3 :: OpCode where "SWAP3 \<equiv> 146"
abbreviation (input) SWAP4 :: OpCode where "SWAP4 \<equiv> 147"
abbreviation (input) SWAP5 :: OpCode where "SWAP5 \<equiv> 148"
abbreviation (input) SWAP6 :: OpCode where "SWAP6 \<equiv> 149"
abbreviation (input) SWAP7 :: OpCode where "SWAP7 \<equiv> 150"
abbreviation (input) SWAP8 :: OpCode where "SWAP8 \<equiv> 151"
abbreviation (input) SWAP9 :: OpCode where "SWAP9 \<equiv> 152"
abbreviation (input) SWAP10 :: OpCode where "SWAP10 \<equiv> 153"
abbreviation (input) SWAP11 :: OpCode where "SWAP11 \<equiv> 154"
abbreviation (input) SWAP12 :: OpCode where "SWAP12 \<equiv> 155"
abbreviation (input) SWAP13 :: OpCode where "SWAP13 \<equiv> 156"
abbreviation (input) SWAP14 :: OpCode where "SWAP14 \<equiv> 157"
abbreviation (input) SWAP15 :: OpCode where "SWAP15 \<equiv> 158"
abbreviation (input) SWAP16 :: OpCode where "SWAP16 \<equiv> 159"
abbreviation (input) LOG0 :: OpCode where "LOG0 \<equiv> 160"
abbreviation (input) LOG1 :: OpCode where "LOG1 \<equiv> 161"
abbreviation (input) LOG2 :: OpCode where "LOG2 \<equiv> 162"
abbreviation (input) LOG3 :: OpCode where "LOG3 \<equiv> 163"
abbreviation (input) LOG4 :: OpCode where "LOG4 \<equiv> 164"
abbreviation (input) PUSH :: OpCode where "PUSH \<equiv> 176"
abbreviation (input) DUP :: OpCode where "DUP \<equiv> 177"
abbreviation (input) SWAP :: OpCode where "SWAP \<equiv> 178"
abbreviation (input) CREATE :: OpCode where "CREATE \<equiv> 240"
abbreviation (input) CALL :: OpCode where "CALL \<equiv> 241"
abbreviation (input) CALLCODE :: OpCode where "CALLCODE \<equiv> 242"
abbreviation (input) RETURN :: OpCode where "RETURN \<equiv> 243"
abbreviation (input) SUICIDE :: OpCode where "SUICIDE \<equiv> 255"

section \<open>Classification\<close>

definition IsPush :: "OpCode \<Rightarrow> bool" where
  "IsPush op = (op \<in> set [PUSH1, PUSH2, PUSH3, PUSH4, PUSH5, PUSH6, PUSH7, PUSH8, PUSH9, PUSH10,
     PUSH11, PUSH12, PUSH13, PUSH14, PUSH15, PUSH16, PUSH17, PUSH18, PUSH19, PUSH20, PUSH21,
     PUSH22, PUSH23, PUSH24, PUSH25, PUSH26, PUSH27, PUSH28, PUSH29, PUSH30, PUSH31, PUSH32])"

definition IsStaticJump :: "OpCode \<Rightarrow> bool" where
  "IsStaticJump op = (op = JUMP)"

section \<open>Names\<close>

definition opCodeToString :: "(OpCode \<times> string) list" where
  "opCodeToString =
    [(STOP, ''STOP''), (ADD, ''ADD''), (MUL, ''MUL''), (SUB, ''SUB''),
     (DIV, ''DIV''), (SDIV, ''SDIV''), (MOD, ''MOD''), (SMOD, ''SMOD''),
     (EXP, ''EXP''), (NOT, ''NOT''), (LT, ''LT''), (GT, ''GT''),
     (SLT, ''SLT''), (SGT, ''SGT''), (EQ, ''EQ''), (ISZERO, ''ISZERO''),
     (SIGNEXTEND, ''SIGNEXTEND''), (AND, ''AND''), (OR, ''OR''), (XOR, ''XOR''),
     (BYTE, ''BYTE''), (ADDMOD, ''ADDMOD''), (MULMOD, ''MULMOD''), (SHA3, ''SHA3''),
     (ADDRESS, ''ADDRESS''), (BALANCE, ''BALANCE''), (ORIGIN, ''ORIGIN''), (CALLER, ''CALLER''),
     (CALLVALUE, ''CALLVALUE''), (CALLDATALOAD, ''CALLDATALOAD''), (CALLDATASIZE, ''CALLDATASIZE''), (CALLDATACOPY, ''CALLDATACOPY''),
     (CODESIZE, ''CODESIZE''), (CODECOPY, ''CODECOPY''), (GASPRICE, ''TXGASPRICE''), (BLOCKHASH, ''BLOCKHASH''),
     (COINBASE, ''COINBASE''), (TIMESTAMP, ''TIMESTAMP''), (NUMBER, ''NUMBER''), (DIFFICULTY, ''DIFFICULTY''),
     (GASLIMIT, ''GASLIMIT''), (EXTCODESIZE, ''EXTCODESIZE''), (EXTCODECOPY, ''EXTCODECOPY''), (POP, ''POP''),
     (MLOAD, ''MLOAD''), (MSTORE, ''MSTORE''), (MSTORE8, ''MSTORE8''), (SLOAD, ''SLOAD''),
     (SSTORE, ''SSTORE''), (JUMP, ''JUMP''), (JUMPI, ''JUMPI''), (PC, ''PC''),
     (MSIZE, ''MSIZE''), (GAS, ''GAS''), (JUMPDEST, ''JUMPDEST''), (PUSH1, ''PUSH1''),
     (PUSH2, ''PUSH2''), (PUSH3, ''PUSH3''), (PUSH4, ''PUSH4''), (PUSH5, ''PUSH5''),
     (PUSH6, ''PUSH6''), (PUSH7, ''PUSH7''), (PUSH8, ''PUSH8''), (PUSH9, ''PUSH9''),
     (PUSH10, ''PUSH10''), (PUSH11, ''PUSH11''), (PUSH12, ''PUSH12''), (PUSH13, ''PUSH13''),
     (PUSH14, ''PUSH14''), (PUSH15, ''PUSH15''), (PUSH16, ''PUSH16''), (PUSH17, ''PUSH17''),
     (PUSH18, ''PUSH18''), (PUSH19, ''PUSH19''), (PUSH20, ''PUSH20''), (PUSH21, ''PUSH21''),
     (PUSH22, ''PUSH22''), (PUSH23, ''PUSH23''), (PUSH24, ''PUSH24''), (PUSH25, ''PUSH25''),
     (PUSH26, ''PUSH26''), (PUSH27, ''PUSH27''), (PUSH28, ''PUSH28''), (PUSH29, ''PUSH29''),
     (PUSH30, ''PUSH30''), (PUSH31, ''PUSH31''), (PUSH32, ''PUSH32''), (DUP1, ''DUP1''),
     (DUP2, ''DUP2''), (DUP3, ''DUP3''), (DUP4, ''DUP4''), (DUP5, ''DUP5''),
     (DUP6, ''DUP6''), (DUP7, ''DUP7''), (DUP8, ''DUP8''), (DUP9, ''DUP9''),
     (DUP10, ''DUP10''), (DUP11, ''DUP11''), (DUP12, ''DUP12''), (DUP13, ''DUP13''),
     (DUP14, ''DUP14''), (DUP15, ''DUP15''), (DUP16, ''DUP16''), (SWAP1, ''SWAP1''),
     (SWAP2, ''SWAP2''), (SWAP3, ''SWAP3''), (SWAP4, ''SWAP4''), (SWAP5, ''SWAP5''),
     (SWAP6, ''SWAP6''), (SWAP7, ''SWAP7''), (SWAP8, ''SWAP8''), (SWAP9, ''SWAP9''),
     (SWAP10, ''SWAP10''), (SWAP11, ''SWAP11''), (SWAP12, ''SWAP12''), (SWAP13, ''SWAP13''),
     (SWAP14, ''SWAP14''), (SWAP15, ''SWAP15''), (SWAP16, ''SWAP16''), (LOG0, ''LOG0''),
     (LOG1, ''LOG1''), (LOG2, ''LOG2''), (LOG3, ''LOG3''), (LOG4, ''LOG4''),
     (CREATE, ''CREATE''), (CALL, ''CALL''), (RETURN, ''RETURN''), (CALLCODE, ''CALLCODE''),
     (SUICIDE, ''SUICIDE''), (PUSH, ''PUSH''), (DUP, ''DUP''), (SWAP, ''SWAP'')]"

text \<open>The verb \<open>%x\<close> on a non-negative \<open>int\<close>.\<close>

fun hex_string :: "nat \<Rightarrow> string" where
  "hex_string n = (if n < 16 then [''0123456789abcdef'' ! n]
                   else hex_string (n div 16) @ [''0123456789abcdef'' ! (n mod 16)])"

declare hex_string.simps [simp del]

definition OpCode_String :: "OpCode \<Rightarrow> string" where
  "OpCode_String o' =
     (let str = (case map_of opCodeToString o' of None \<Rightarrow> [] | Some s \<Rightarrow> s) in
      if length str = 0 then ''Missing opcode 0x'' @ hex_string (unat o') else str)"

definition stringToOp :: "(string \<times> OpCode) list" where
  "stringToOp =
    [(''STOP'', STOP), (''ADD'', ADD), (''MUL'', MUL), (''SUB'', SUB),
     (''DIV'', DIV), (''SDIV'', SDIV), (''MOD'', MOD), (''SMOD'', SMOD),
     (''EXP'', EXP), (''NOT'', NOT), (''LT'', LT), (''GT'', GT),
     (''SLT'', SLT), (''SGT'', SGT), (''EQ'', EQ), (''ISZERO'', ISZERO),
     (''SIGNEXTEND'', SIGNEXTEND), (''AND'', AND), (''OR'', OR), (''XOR'', XOR),
     (''BYTE'', BYTE), (''ADDMOD'', ADDMOD), (''MULMOD'', MULMOD), (''SHA3'', SHA3),
     (''ADDRESS'', ADDRESS), (''BALANCE'', BALANCE), (''ORIGIN'', ORIGIN), (''CALLER'', CALLER),
     (''CALLVALUE'', CALLVALUE), (''CALLDATALOAD'', CALLDATALOAD), (''CALLDATASIZE'', CALLDATASIZE), (''CALLDATACOPY'', CALLDATACOPY),
     (''CODESIZE'', CODESIZE), (''CODECOPY'', CODECOPY), (''GASPRICE'', GASPRICE), (''BLOCKHASH'', BLOCKHASH),
     (''COINBASE'', COINBASE), (''TIMESTAMP'', TIMESTAMP), (''NUMBER'', NUMBER), (''DIFFICULTY'', DIFFICULTY),
     (''GASLIMIT'', GASLIMIT), (''EXTCODESIZE'', EXTCODESIZE), (''EXTCODECOPY'', EXTCODECOPY), (''POP'', POP),
     (''MLOAD'', MLOAD), (''MSTORE'', MSTORE), (''MSTORE8'', MSTORE8), (''SLOAD'', SLOAD),
     (''SSTORE'', SSTORE), (''JUMP'', JUMP), (''JUMPI'', JUMPI), (''PC'', PC),
     (''MSIZE'', MSIZE), (''GAS'', GAS), (''JUMPDEST'', JUMPDEST), (''PUSH1'', PUSH1),
     (''PUSH2'', PUSH2), (''PUSH3'', PUSH3), (''PUSH4'', PUSH4), (''PUSH5'', PUSH5),
     (''PUSH6'', PUSH6), (''PUSH7'', PUSH7), (''PUSH8'', PUSH8), (''PUSH9'', PUSH9),
     (''PUSH10'', PUSH10), (''PUSH11'', PUSH11), (''PUSH12'', PUSH12), (''PUSH13'', PUSH13),
     (''PUSH14'', PUSH14), (''PUSH15'', PUSH15), (''PUSH16'', PUSH16), (''PUSH17'', PUSH17),
     (''PUSH18'', PUSH18), (''PUSH19'', PUSH19), (''PUSH20'', PUSH20), (''PUSH21'', PUSH21),
     (''PUSH22'', PUSH22), (''PUSH23'', PUSH23), (''PUSH24'', PUSH24), (''PUSH25'', PUSH25),
     (''PUSH26'', PUSH26), (''PUSH27'', PUSH27), (''PUSH28'', PUSH28), (''PUSH29'', PUSH29),
     (''PUSH30'', PUSH30), (''PUSH31'', PUSH31), (''PUSH32'', PUSH32), (''DUP1'', DUP1),
     (''DUP2'', DUP2), (''DUP3'', DUP3), (''DUP4'', DUP4), (''DUP5'', DUP5),
     (''DUP6'', DUP6), (''DUP7'', DUP7), (''DUP8'', DUP8), (''DUP9'', DUP9),
     (''DUP10'', DUP10), (''DUP11'', DUP11), (''DUP12'', DUP12), (''DUP13'', DUP13),
     (''DUP14'', DUP14), (''DUP15'', DUP15), (''DUP16'', DUP16), (''SWAP1'', SWAP1),
     (''SWAP2'', SWAP2), (''SWAP3'', SWAP3), (''SWAP4'', SWAP4), (''SWAP5'', SWAP5),
     (''SWAP6'', SWAP6), (''SWAP7'', SWAP7), (''SWAP8'', SWAP8), (''SWAP9'', SWAP9),
     (''SWAP10'', SWAP10), (''SWAP11'', SWAP11), (''SWAP12'', SWAP12), (''SWAP13'', SWAP13),
     (''SWAP14'', SWAP14), (''SWAP15'', SWAP15), (''SWAP16'', SWAP16), (''LOG0'', LOG0),
     (''LOG1'', LOG1), (''LOG2'', LOG2), (''LOG3'', LOG3), (''LOG4'', LOG4),
     (''CREATE'', CREATE), (''CALL'', CALL), (''RETURN'', RETURN), (''CALLCODE'', CALLCODE),
     (''SUICIDE'', SUICIDE)]"

text \<open>A missing key of a Go map reads as the zero value, here \<open>STOP\<close>.\<close>

definition StringToOp :: "string \<Rightarrow> OpCode" where
  "StringToOp str = (case map_of stringToOp str of None \<Rightarrow> 0 | Some op \<Rightarrow> op)"

section \<open>Properties\<close>

text \<open>The two tables are listed in the same order.\<close>

lemma stringToOp_eq:
  "stringToOp =
     map (\<lambda>(op, s). (if op = GASPRICE then ''GASPRICE'' else s, op))
       (filter (\<lambda>(op, s). op \<notin> {PUSH, DUP, SWAP}) opCodeToString)"
  by code_simp

lemma names_distinct: "distinct (map fst opCodeToString)" "distinct (map snd opCodeToString)"
  by code_simp+

lemma names_not: "list_all (\<lambda>(op, s). s \<noteq> [] \<and> s \<noteq> ''GASPRICE'') opCodeToString"
  by code_simp

lemma pseudo_names:
  "StringToOp ''TXGASPRICE'' = STOP" "StringToOp ''PUSH'' = STOP" "StringToOp ''DUP'' = STOP" "StringToOp ''SWAP'' = STOP"
  "map_of opCodeToString GASPRICE = Some ''TXGASPRICE''" "map_of opCodeToString PUSH = Some ''PUSH''"
  "map_of opCodeToString DUP = Some ''DUP''" "map_of opCodeToString SWAP = Some ''SWAP''"
  by code_simp+

lemma stringToOp_distinct: "distinct (map fst stringToOp)"
proof -
  let ?T = "filter (\<lambda>(op, s). op \<notin> {PUSH, DUP, SWAP}) opCodeToString"
  let ?f = "\<lambda>(op, s). if op = GASPRICE then ''GASPRICE'' else s"
  have "distinct ?T" using names_distinct(1) by (simp add: distinct_map)
  moreover have "b = c" if "(a, b) \<in> set opCodeToString" "(a, c) \<in> set opCodeToString" for a b c
    using names_distinct(1) that by (rule eq_key_imp_eq_value)
  moreover have "a = c" if "(a, b) \<in> set opCodeToString" "(c, b) \<in> set opCodeToString" for a b c
    using names_distinct(2) that by (metis distinct_map fst_conv inj_onD snd_conv)
  ultimately have "distinct ?T" "inj_on ?f (set ?T)"
    using names_not by (auto simp: inj_on_def list_all_iff split: if_splits)
  moreover have "map fst stringToOp = map ?f ?T" unfolding stringToOp_eq by (simp add: comp_def case_prod_beta)
  ultimately show ?thesis by (simp add: distinct_map)
qed

text \<open>
  C36. The name of every opcode that has one reads back as the opcode, except for \<open>GASPRICE\<close>, whose
  printed name \<open>TXGASPRICE\<close> is unknown to the reader, and for the pseudo opcodes \<open>PUSH\<close>, \<open>DUP\<close> and
  \<open>SWAP\<close>; an unknown name reads as \<open>STOP\<close>.
\<close>

theorem opcode_names:
  assumes "(op, s) \<in> set opCodeToString"
  shows "OpCode_String op = s \<and> StringToOp s = (if op \<in> {GASPRICE, PUSH, DUP, SWAP} then STOP else op)"
proof
  have "map_of opCodeToString op = Some s" using names_distinct(1) assms by simp
  then show "OpCode_String op = s" using assms names_not by (auto simp: OpCode_String_def list_all_iff)
  show "StringToOp s = (if op \<in> {GASPRICE, PUSH, DUP, SWAP} then STOP else op)"
  proof (cases "op \<in> {GASPRICE, PUSH, DUP, SWAP}")
    case True
    then show ?thesis using pseudo_names \<open>map_of opCodeToString op = Some s\<close> by auto
  next
    case False
    then have "(s, op) \<in> set stringToOp" unfolding stringToOp_eq using assms by force
    then show ?thesis using False stringToOp_distinct by (simp add: StringToOp_def)
  qed
qed

theorem opcode_names_witness:
  "OpCode_String SSTORE = ''SSTORE'' \<and> StringToOp ''SSTORE'' = SSTORE"
proof -
  have "(SSTORE, ''SSTORE'') \<in> set opCodeToString" by code_simp
  from opcode_names [OF this] show ?thesis by simp
qed

end
