(* ===== verification/Vm_Gas.thy ===== *)
theory Vm_Gas
  imports Vm_Stack Opcodes
begin

text \<open>
  The static part of the gas schedule and the stack requirements, \<^verbatim>\<open>src/core/vm/gas.go\<close>.
\<close>

section \<open>The schedule\<close>

abbreviation (input) GasQuickStep :: int where "GasQuickStep \<equiv> 2"
abbreviation (input) GasFastestStep :: int where "GasFastestStep \<equiv> 3"
abbreviation (input) GasFastStep :: int where "GasFastStep \<equiv> 5"
abbreviation (input) GasMidStep :: int where "GasMidStep \<equiv> 8"
abbreviation (input) GasSlowStep :: int where "GasSlowStep \<equiv> 10"
abbreviation (input) GasExtStep :: int where "GasExtStep \<equiv> 20"

record req =
  stackPop :: nat
  req_gas :: int
  stackPush :: nat

text \<open>The entries of the Go map \<open>_baseCheck\<close>, in the order of the source.\<close>

definition baseCheck_entries :: "(OpCode \<times> req) list" where
  "baseCheck_entries = [
    (ADD, \<lparr>stackPop = 2, req_gas = GasFastestStep, stackPush = 1\<rparr>),
    (LT, \<lparr>stackPop = 2, req_gas = GasFastestStep, stackPush = 1\<rparr>),
    (GT, \<lparr>stackPop = 2, req_gas = GasFastestStep, stackPush = 1\<rparr>),
    (SLT, \<lparr>stackPop = 2, req_gas = GasFastestStep, stackPush = 1\<rparr>),
    (SGT, \<lparr>stackPop = 2, req_gas = GasFastestStep, stackPush = 1\<rparr>),
    (EQ, \<lparr>stackPop = 2, req_gas = GasFastestStep, stackPush = 1\<rparr>),
    (ISZERO, \<lparr>stackPop = 1, req_gas = GasFastestStep, stackPush = 1\<rparr>),
    (SUB, \<lparr>stackPop = 2, req_gas = GasFastestStep, stackPush = 1\<rparr>),
    (AND, \<lparr>stackPop = 2, req_gas = GasFastestStep, stackPush = 1\<rparr>),
    (OR, \<lparr>stackPop = 2, req_gas = GasFastestStep, stackPush = 1\<rparr>),
    (XOR, \<lparr>stackPop = 2, req_gas = GasFastestStep, stackPush = 1\<rparr>),
    (NOT, \<lparr>stackPop = 1, req_gas = GasFastestStep, stackPush = 1\<rparr>),
    (BYTE, \<lparr>stackPop = 2, req_gas = GasFastestStep, stackPush = 1\<rparr>),
    (CALLDATALOAD, \<lparr>stackPop = 1, req_gas = GasFastestStep, stackPush = 1\<rparr>),
    (CALLDATACOPY, \<lparr>stackPop = 3, req_gas = GasFastestStep, stackPush = 1\<rparr>),
    (MLOAD, \<lparr>stackPop = 1, req_gas = GasFastestStep, stackPush = 1\<rparr>),
    (MSTORE, \<lparr>stackPop = 2, req_gas = GasFastestStep, stackPush = 0\<rparr>),
    (MSTORE8, \<lparr>stackPop = 2, req_gas = GasFastestStep, stackPush = 0\<rparr>),
    (CODECOPY, \<lparr>stackPop = 3, req_gas = GasFastestStep, stackPush = 0\<rparr>),
    (MUL, \<lparr>stackPop = 2, req_gas = GasFastStep, stackPush = 1\<rparr>),
    (DIV, \<lparr>stackPop = 2, req_gas = GasFastStep, stackPush = 1\<rparr>),
    (SDIV, \<lparr>stackPop = 2, req_gas = GasFastStep, stackPush = 1\<rparr>),
    (MOD, \<lparr>stackPop = 2, req_gas = GasFastStep, stackPush = 1\<rparr>),
    (SMOD, \<lparr>stackPop = 2, req_gas = GasFastStep, stackPush = 1\<rparr>),
    (SIGNEXTEND, \<lparr>stackPop = 2, req_gas = GasFastStep, stackPush = 1\<rparr>),
    (ADDMOD, \<lparr>stackPop = 3, req_gas = GasMidStep, stackPush = 1\<rparr>),
    (MULMOD, \<lparr>stackPop = 3, req_gas = GasMidStep, stackPush = 1\<rparr>),
    (JUMP, \<lparr>stackPop = 1, req_gas = GasMidStep, stackPush = 0\<rparr>),
    (JUMPI, \<lparr>stackPop = 2, req_gas = GasSlowStep, stackPush = 0\<rparr>),
    (EXP, \<lparr>stackPop = 2, req_gas = GasSlowStep, stackPush = 1\<rparr>),
    (ADDRESS, \<lparr>stackPop = 0, req_gas = GasQuickStep, stackPush = 1\<rparr>),
    (ORIGIN, \<lparr>stackPop = 0, req_gas = GasQuickStep, stackPush = 1\<rparr>),
    (CALLER, \<lparr>stackPop = 0, req_gas = GasQuickStep, stackPush = 1\<rparr>),
    (CALLVALUE, \<lparr>stackPop = 0, req_gas = GasQuickStep, stackPush = 1\<rparr>),
    (CODESIZE, \<lparr>stackPop = 0, req_gas = GasQuickStep, stackPush = 1\<rparr>),
    (GASPRICE, \<lparr>stackPop = 0, req_gas = GasQuickStep, stackPush = 1\<rparr>),
    (COINBASE, \<lparr>stackPop = 0, req_gas = GasQuickStep, stackPush = 1\<rparr>),
    (TIMESTAMP, \<lparr>stackPop = 0, req_gas = GasQuickStep, stackPush = 1\<rparr>),
    (NUMBER, \<lparr>stackPop = 0, req_gas = GasQuickStep, stackPush = 1\<rparr>),
    (CALLDATASIZE, \<lparr>stackPop = 0, req_gas = GasQuickStep, stackPush = 1\<rparr>),
    (DIFFICULTY, \<lparr>stackPop = 0, req_gas = GasQuickStep, stackPush = 1\<rparr>),
    (GASLIMIT, \<lparr>stackPop = 0, req_gas = GasQuickStep, stackPush = 1\<rparr>),
    (POP, \<lparr>stackPop = 1, req_gas = GasQuickStep, stackPush = 0\<rparr>),
    (PC, \<lparr>stackPop = 0, req_gas = GasQuickStep, stackPush = 1\<rparr>),
    (MSIZE, \<lparr>stackPop = 0, req_gas = GasQuickStep, stackPush = 1\<rparr>),
    (GAS, \<lparr>stackPop = 0, req_gas = GasQuickStep, stackPush = 1\<rparr>),
    (BLOCKHASH, \<lparr>stackPop = 1, req_gas = GasExtStep, stackPush = 1\<rparr>),
    (BALANCE, \<lparr>stackPop = 1, req_gas = GasExtStep, stackPush = 1\<rparr>),
    (EXTCODESIZE, \<lparr>stackPop = 1, req_gas = GasExtStep, stackPush = 1\<rparr>),
    (EXTCODECOPY, \<lparr>stackPop = 4, req_gas = GasExtStep, stackPush = 0\<rparr>),
    (SLOAD, \<lparr>stackPop = 1, req_gas = SloadGas, stackPush = 1\<rparr>),
    (SSTORE, \<lparr>stackPop = 2, req_gas = 0, stackPush = 0\<rparr>),
    (SHA3, \<lparr>stackPop = 2, req_gas = Sha3Gas, stackPush = 1\<rparr>),
    (CREATE, \<lparr>stackPop = 3, req_gas = CreateGas, stackPush = 1\<rparr>),
    (CALL, \<lparr>stackPop = 7, req_gas = CallGas, stackPush = 1\<rparr>),
    (CALLCODE, \<lparr>stackPop = 7, req_gas = CallGas, stackPush = 1\<rparr>),
    (JUMPDEST, \<lparr>stackPop = 0, req_gas = JumpdestGas, stackPush = 0\<rparr>),
    (SUICIDE, \<lparr>stackPop = 1, req_gas = 0, stackPush = 0\<rparr>),
    (RETURN, \<lparr>stackPop = 2, req_gas = 0, stackPush = 0\<rparr>),
    (PUSH1, \<lparr>stackPop = 0, req_gas = GasFastestStep, stackPush = 1\<rparr>),
    (DUP1, \<lparr>stackPop = 0, req_gas = 0, stackPush = 1\<rparr>)]"

definition baseCheck_req :: "OpCode \<Rightarrow> req option" where
  "baseCheck_req op = map_of baseCheck_entries op"

text \<open>The key under which an opcode is looked up: all pushes share one entry and all dups another.\<close>

definition baseCheck_key :: "OpCode \<Rightarrow> OpCode" where
  "baseCheck_key op =
     (let op = (if PUSH1 \<le> op \<and> op \<le> PUSH32 then PUSH1 else op) in
      if DUP1 \<le> op \<and> op \<le> DUP16 then DUP1 else op)"

definition baseCheck :: "OpCode \<Rightarrow> stack \<Rightarrow> int \<Rightarrow> vm_error + int" where
  "baseCheck op st gas =
     (case baseCheck_req (baseCheck_key op) of
        None \<Rightarrow> Inr gas
      | Some r \<Rightarrow>
          (case st_require st (stackPop r) of
             Some err \<Rightarrow> Inl err
           | None \<Rightarrow>
               if stackPush r > 0 \<and> int (st_len st) - int (stackPop r) + int (stackPush r) > StackLimit
               then Inl (StackLimitReached (st_len st))
               else Inr (gas + req_gas r)))"

section \<open>Facts\<close>

lemma baseCheck_ok:
  assumes "baseCheck op st g = Inr g'" and "baseCheck_req (baseCheck_key op) = Some r"
  shows "stackPop r \<le> st_len st" and "g' = g + req_gas r"
    and "stackPush r > 0 \<Longrightarrow> st_len st - stackPop r + stackPush r \<le> 1024"
  using assms by (auto simp: baseCheck_def st_require_def split: if_splits)

lemma baseCheck_none:
  "baseCheck_req (baseCheck_key op) = None \<Longrightarrow> baseCheck op st g = Inr g' \<longleftrightarrow> g' = g"
  by (auto simp: baseCheck_def)

lemma baseCheck_gas_nonneg:
  assumes "baseCheck op st g = Inr g'"
  shows "g \<le> g'"
proof (cases "baseCheck_req (baseCheck_key op)")
  case (Some r)
  then have "(baseCheck_key op, r) \<in> set baseCheck_entries"
    by (simp add: baseCheck_req_def map_of_SomeD)
  moreover have "\<forall>(k, r) \<in> set baseCheck_entries. 0 \<le> req_gas r"
    by (simp add: baseCheck_entries_def)
  ultimately have "0 \<le> req_gas r" by blast
  then show ?thesis using baseCheck_ok(2) [OF assms Some] by simp
qed (use assms in \<open>simp add: baseCheck_none\<close>)

end
