(* ===== verification/Vm_Memory.thy ===== *)
theory Vm_Memory
  imports Common Params
begin

text \<open>
  The byte memory of the virtual machine, \<^verbatim>\<open>src/core/vm/memory.go\<close>, and the helpers of
  \<^verbatim>\<open>src/core/vm/common.go\<close> and \<^verbatim>\<open>src/core/vm/gas.go\<close> that size it and price its growth.

  The upper bound of a slice expression is checked against the length of the store. The run-time
  system checks it against the capacity, which is no smaller: where the model is defined the code
  does the same, and \<open>Interp\<close> shows that the model is always defined.
\<close>

section \<open>Memory\<close>

record Memory =
  store :: bytes

definition NewMemory :: Memory where
  "NewMemory = \<lparr>store = []\<rparr>"

definition Memory_Len :: "Memory \<Rightarrow> nat" where
  "Memory_Len m = length (store m)"

definition Memory_Set :: "Memory \<Rightarrow> uint64 \<Rightarrow> uint64 \<Rightarrow> bytes \<Rightarrow> Memory option" where
  "Memory_Set m offset sz value =
     (if unat sz > Memory_Len m then None
      else if sz > 0 then
        map_option (\<lambda>s. m\<lparr>store := s\<rparr>) (overwrite (store m) (unat offset) (unat (offset + sz)) value)
      else Some m)"

definition Memory_Resize :: "Memory \<Rightarrow> uint64 \<Rightarrow> Memory" where
  "Memory_Resize m sz =
     (if Memory_Len m < unat sz
      then m\<lparr>store := store m @ replicate (unat sz - Memory_Len m) 0\<rparr> else m)"

text \<open>\<open>make\<close> with a negative size and a slice with a negative bound panic.\<close>

definition Memory_Get :: "Memory \<Rightarrow> int \<Rightarrow> int \<Rightarrow> bytes option" where
  "Memory_Get self offset sz =
     (if sz = 0 then Some []
      else if int (Memory_Len self) > offset then
        (if sz < 0 \<or> offset < 0 then None
         else map_option (copy_into (replicate (nat sz) 0))
                (slice (store self) (nat offset) (nat (offset + sz))))
      else Some [])"

definition Memory_GetPtr :: "Memory \<Rightarrow> int \<Rightarrow> int \<Rightarrow> bytes option" where
  "Memory_GetPtr self offset sz =
     (if sz = 0 then Some []
      else if int (Memory_Len self) > offset then
        (if sz < 0 \<or> offset < 0 then None
         else slice (store self) (nat offset) (nat (offset + sz)))
      else Some [])"

section \<open>Sizing and pricing\<close>

definition toWordSize :: "int \<Rightarrow> int" where
  "toWordSize sz = (sz + 31) div 32"

definition calcMemSize :: "int \<Rightarrow> int \<Rightarrow> int" where
  "calcMemSize off l = (if l = 0 then 0 else off + l)"

text \<open>The new values of the arguments \<open>newMemSize\<close> and \<open>gas\<close>, which the code writes in place.\<close>

definition quadMemGas :: "Memory \<Rightarrow> int \<Rightarrow> int \<Rightarrow> int \<times> int" where
  "quadMemGas mem newMemSize gas =
     (if newMemSize > 0 then
        let newMemSizeWords = toWordSize newMemSize;
            newMemSize = newMemSizeWords * 32 in
        if newMemSize > int (Memory_Len mem) then
          let oldSize = toWordSize (int (Memory_Len mem));
              pow = oldSize ^ 2;
              linCoef = oldSize * MemoryGas;
              quadCoef = pow div QuadCoeffDiv;
              oldTotalFee = linCoef + quadCoef;
              pow = newMemSizeWords ^ 2;
              linCoef = newMemSizeWords * MemoryGas;
              quadCoef = pow div QuadCoeffDiv;
              newTotalFee = linCoef + quadCoef;
              fee = newTotalFee - oldTotalFee
          in (newMemSize, gas + fee)
        else (newMemSize, gas)
      else (newMemSize, gas))"

definition getData :: "bytes \<Rightarrow> int \<Rightarrow> int \<Rightarrow> bytes option" where
  "getData dat start sz =
     (let dlen = int (length dat);
          s = BigMin start dlen;
          e = BigMin (s + sz) dlen in
      map_option (\<lambda>d. RightPadBytes d (int_of_uint64 (Uint64 sz)))
        (slice dat (unat (Uint64 s)) (unat (Uint64 e))))"

section \<open>The fee of a memory of a given size\<close>

definition mem_fee :: "int \<Rightarrow> int" where
  "mem_fee w = w * MemoryGas + w ^ 2 div QuadCoeffDiv"

definition mem_words :: "Memory \<Rightarrow> int" where
  "mem_words m = toWordSize (int (Memory_Len m))"

text \<open>Memory is a whole number of words.\<close>

definition wf_mem :: "Memory \<Rightarrow> bool" where
  "wf_mem m \<longleftrightarrow> 32 dvd Memory_Len m"

lemma mem_fee_mono: "0 \<le> v \<Longrightarrow> v \<le> w \<Longrightarrow> mem_fee v \<le> mem_fee w"
  unfolding mem_fee_def by (intro add_mono mult_right_mono zdiv_mono1 power_mono) simp_all

lemma mem_fee_nonneg: "0 \<le> w \<Longrightarrow> 0 \<le> mem_fee w"
  by (simp add: mem_fee_def pos_imp_zdiv_nonneg_iff)

lemma mem_fee_bound:
  assumes "0 \<le> w" and "mem_fee w < 2 ^ 63"
  shows "w < 2 ^ 36"
proof (rule ccontr)
  assume "\<not> w < 2 ^ 36"
  then have "mem_fee (2 ^ 36) \<le> mem_fee w" by (intro mem_fee_mono) simp_all
  moreover have "(2::int) ^ 63 \<le> mem_fee (2 ^ 36)" by (simp add: mem_fee_def)
  ultimately show False using assms(2) by simp
qed

lemma mem_words_nonneg [simp]: "0 \<le> mem_words m"
  by (simp add: mem_words_def toWordSize_def)

lemma wf_mem_words: "wf_mem m \<Longrightarrow> int (Memory_Len m) = 32 * mem_words m"
  by (auto simp: wf_mem_def mem_words_def toWordSize_def elim!: dvdE)

lemma wf_NewMemory [simp]: "wf_mem NewMemory" "mem_words NewMemory = 0"
  by (simp_all add: wf_mem_def NewMemory_def Memory_Len_def mem_words_def toWordSize_def)

lemma quadMemGas_eq:
  assumes "wf_mem m" and "0 \<le> n"
  shows "quadMemGas m n g =
           (32 * toWordSize n, g + (mem_fee (max (mem_words m) (toWordSize n)) - mem_fee (mem_words m)))"
proof (cases "n > 0")
  case True
  show ?thesis
    unfolding quadMemGas_def Let_def mem_words_def [symmetric]
    using True wf_mem_words [OF assms(1)]
    by (simp add: mem_fee_def max_def)
next
  case False
  then have "n = 0" using assms(2) by simp
  then show ?thesis by (simp add: quadMemGas_def toWordSize_def max_absorb1)
qed

lemma Memory_Len_Resize [simp]: "Memory_Len (Memory_Resize m s) = max (Memory_Len m) (unat s)"
  by (simp add: Memory_Resize_def Memory_Len_def max_def)

lemma Resize_words:
  assumes "wf_mem m" and "0 \<le> w" and "32 * w < 2 ^ 64"
  shows "wf_mem (Memory_Resize m (Uint64 (32 * w)))"
    and "mem_words (Memory_Resize m (Uint64 (32 * w))) = max (mem_words m) w"
proof -
  have s: "unat (Uint64 (32 * w)) = 32 * nat w"
    using assms by (simp add: unat_Uint64 nat_mult_distrib)
  then show 1: "wf_mem (Memory_Resize m (Uint64 (32 * w)))"
    using assms(1) by (simp add: wf_mem_def max_def)
  have "int (Memory_Len m) = 32 * mem_words m" using wf_mem_words [OF assms(1)] .
  moreover have "32 * mem_words (Memory_Resize m (Uint64 (32 * w))) = int (max (Memory_Len m) (32 * nat w))"
    using wf_mem_words [OF 1] s by simp
  ultimately show "mem_words (Memory_Resize m (Uint64 (32 * w))) = max (mem_words m) w"
    using assms(2) by (auto simp: max_def split: if_splits)
qed

lemma toWordSize_covers: "n \<le> 32 * toWordSize n"
  by (simp add: toWordSize_def)

lemma toWordSize_nonneg: "0 \<le> n \<Longrightarrow> 0 \<le> toWordSize n"
  by (simp add: toWordSize_def)

lemma calcMemSize_nonneg: "0 \<le> off \<Longrightarrow> 0 \<le> l \<Longrightarrow> 0 \<le> calcMemSize off l"
  by (simp add: calcMemSize_def)

section \<open>Access within the size paid for\<close>

lemma Memory_Get_defined:
  assumes "0 \<le> off" "0 \<le> l" "calcMemSize off l \<le> int (Memory_Len m)"
  shows "\<exists>bs. Memory_Get m off l = Some bs \<and> int (length bs) = l"
proof (cases "l = 0")
  case False
  then have "off + l \<le> int (Memory_Len m)" and "0 < l" using assms by (simp_all add: calcMemSize_def)
  then show ?thesis
    using assms by (auto simp: Memory_Get_def slice_def Memory_Len_def nat_add_distrib)
qed (simp add: Memory_Get_def)

lemma Memory_GetPtr_Get:
  assumes "0 \<le> off" "0 \<le> l" "calcMemSize off l \<le> int (Memory_Len m)"
  shows "Memory_GetPtr m off l = Memory_Get m off l"
proof (cases "l = 0")
  case False
  then have "off + l \<le> int (Memory_Len m)" and "0 < l" using assms by (simp_all add: calcMemSize_def)
  then show ?thesis
    using assms
    by (auto simp: Memory_Get_def Memory_GetPtr_def slice_def Memory_Len_def copy_into_def nat_add_distrib)
qed (simp add: Memory_Get_def Memory_GetPtr_def)

lemma Memory_Set_eq:
  assumes "0 \<le> off" "0 < l" "off + l \<le> int (Memory_Len m)" "int (Memory_Len m) < 2 ^ 63"
  shows "Memory_Set m (Uint64 off) (Uint64 l) bs =
           map_option (\<lambda>s. m\<lparr>store := s\<rparr>) (overwrite (store m) (nat off) (nat (off + l)) bs)"
proof -
  have len: "off + l < 2 ^ 64" "l < 2 ^ 64" "off < 2 ^ 64" using assms by simp_all
  have u: "unat (Uint64 off) = nat off" "unat (Uint64 l) = nat l"
      "unat (Uint64 (off + l)) = nat (off + l)"
    using len assms(1,2) by (simp_all only: unat_Uint64 add_nonneg_nonneg order_less_imp_le)
  have p: "Uint64 off + Uint64 l = Uint64 (off + l)" using assms(1,2) by (simp add: Uint64_def)
  have "Uint64 l > 0"
    using u(2) assms(2) by (metis unat_gt_0 zero_less_nat_eq word_neq_0_conv unat_0 less_numeral_extra(3))
  moreover have "\<not> Memory_Len m < nat l" using assms by linarith
  ultimately show ?thesis by (simp only: Memory_Set_def u p if_False if_True)
qed

lemma Memory_Set_defined:
  assumes "0 \<le> off" "0 \<le> l" "calcMemSize off l \<le> int (Memory_Len m)" "int (Memory_Len m) < 2 ^ 63"
  shows "\<exists>m'. Memory_Set m (Uint64 off) (Uint64 l) bs = Some m' \<and> Memory_Len m' = Memory_Len m"
proof (cases "l = 0")
  case False
  then have b: "off + l \<le> int (Memory_Len m)" "0 < l" using assms by (simp_all add: calcMemSize_def)
  then obtain zs where "overwrite (store m) (nat off) (nat (off + l)) bs = Some zs"
    using overwrite_defined [of "nat off" "nat (off + l)" "store m" bs] assms(1)
    by (auto simp: Memory_Len_def nat_le_iff)
  then show ?thesis
    using Memory_Set_eq [OF assms(1) b(2,1) assms(4), of bs]
    by (simp add: Memory_Len_def length_overwrite)
qed (simp add: Memory_Set_def Uint64_def)

lemma Memory_Get_Set:
  assumes "Memory_Set m (Uint64 off) (Uint64 l) bs = Some m'"
    and "0 \<le> off" "0 < l" "off + l \<le> int (Memory_Len m)" "int (Memory_Len m) < 2 ^ 63"
    and "int (length bs) = l"
  shows "Memory_Get m' off l = Some bs"
proof -
  from assms(1) obtain s where s: "overwrite (store m) (nat off) (nat (off + l)) bs = Some s"
    and m': "m' = m\<lparr>store := s\<rparr>"
    unfolding Memory_Set_eq [OF assms(2-5)] by auto
  have "slice s (nat off) (nat (off + l)) = Some bs"
    using slice_overwrite_same [OF s] assms(2,3,6) by (simp add: nat_add_distrib)
  moreover have "length s = Memory_Len m" using length_overwrite [OF s] by (simp add: Memory_Len_def)
  moreover have "length bs = nat l" using assms(6) by simp
  ultimately show ?thesis
    using assms(2-4) by (simp add: m' Memory_Get_def Memory_Len_def copy_into_def)
qed

lemma getData_defined:
  assumes "0 \<le> start" "0 \<le> sz" "sz < 2 ^ 63" "int (length dat) < 2 ^ 63"
  shows "\<exists>bs. getData dat start sz = Some bs \<and> int (length bs) = sz"
proof -
  let ?n = "int (length dat)"
  let ?s = "min start ?n" and ?e = "min (min start ?n + sz) ?n"
  have u: "unat (Uint64 ?s) = nat ?s" "unat (Uint64 ?e) = nat ?e"
    using assms by (intro unat_Uint64; simp)+
  have le: "nat ?s \<le> nat ?e" "nat ?e \<le> length dat" "nat ?e - nat ?s \<le> nat sz"
    using assms by linarith+
  then show ?thesis
    using assms u
    by (simp add: getData_def Let_def BigMin_min slice_def int_of_Uint64_small length_RightPadBytes
        max_def min_def split: if_splits)
qed

section \<open>Properties\<close>

text \<open>
  C33. The gas charged for memory is the difference of the fees of the memory after and before the
  resize, the fee being linear plus quadratic in the number of words: growing in several steps costs
  as much as growing at once, and an access inside the memory costs nothing.
\<close>

theorem memory_fee:
  assumes "wf_mem m" "0 \<le> n" "quadMemGas m n g = (sz, g')" "sz < 2 ^ 64"
  shows "g' - g = mem_fee (mem_words (Memory_Resize m (Uint64 sz))) - mem_fee (mem_words m) \<and>
         n \<le> int (Memory_Len (Memory_Resize m (Uint64 sz)))"
proof -
  have sz: "sz = 32 * toWordSize n" "g' = g + (mem_fee (max (mem_words m) (toWordSize n)) - mem_fee (mem_words m))"
    using assms(3) by (simp_all add: quadMemGas_eq [OF assms(1,2)])
  have w: "0 \<le> toWordSize n" "n \<le> 32 * toWordSize n" using assms(2) by (auto simp: toWordSize_def)
  note r = Resize_words [OF assms(1) w(1) assms(4) [unfolded sz(1)], folded sz(1)]
  have "int (Memory_Len (Memory_Resize m (Uint64 sz))) = 32 * max (mem_words m) (toWordSize n)"
    using wf_mem_words [OF r(1)] r(2) by simp
  then show ?thesis using sz w(2) r(2) by (simp add: max_def)
qed

theorem memory_fee_witness:
  "704 - 0 = mem_fee (mem_words (Memory_Resize NewMemory (Uint64 7168))) - mem_fee (mem_words NewMemory) + 704 - 770 \<and>
   7160 \<le> int (Memory_Len (Memory_Resize NewMemory (Uint64 7168)))"
  using memory_fee [of NewMemory 7160 0 7168 770]
  by (simp add: wf_NewMemory quadMemGas_eq toWordSize_def mem_fee_def)

text \<open>
  C34. What is written to the memory is read back, and the bytes outside the written range are
  unchanged.
\<close>

theorem memory_write_read:
  assumes "0 \<le> off" "0 < l" "off + l \<le> int (Memory_Len m)" "int (Memory_Len m) < 2 ^ 63" "int (length bs) = l"
  shows "\<exists>m'. Memory_Set m (Uint64 off) (Uint64 l) bs = Some m' \<and> Memory_Get m' off l = Some bs \<and>
           Memory_Len m' = Memory_Len m \<and>
           (\<forall>i < Memory_Len m. int i < off \<or> off + l \<le> int i \<longrightarrow> store m' ! i = store m ! i)"
proof -
  have "nat off \<le> nat (off + l)" "nat (off + l) \<le> length (store m)"
    using assms by (simp_all add: Memory_Len_def nat_le_iff)
  then obtain s where s: "overwrite (store m) (nat off) (nat (off + l)) bs = Some s"
    using overwrite_defined by blast
  then have m': "Memory_Set m (Uint64 off) (Uint64 l) bs = Some (m\<lparr>store := s\<rparr>)"
    using Memory_Set_eq [OF assms(1-4)] by simp
  moreover have "Memory_Len (m\<lparr>store := s\<rparr>) = Memory_Len m"
    using length_overwrite [OF s] by (simp add: Memory_Len_def)
  moreover have "s ! i = store m ! i" if "i < Memory_Len m" "int i < off \<or> off + l \<le> int i" for i
    using that assms by (intro nth_overwrite_other [OF s]) (auto simp: Memory_Len_def)
  ultimately show ?thesis using Memory_Get_Set [OF m' assms] by auto
qed

theorem memory_write_read_witness:
  "\<exists>m'. Memory_Set \<lparr>store = replicate 32 0\<rparr> (Uint64 30) (Uint64 2) [1, 2] = Some m' \<and> Memory_Get m' 30 2 = Some [1, 2]"
  using memory_write_read [of 30 2 "\<lparr>store = replicate 32 0\<rparr>" "[1, 2]"] by (auto simp: Memory_Len_def)

end
