(* ===== verification/Contract.thy ===== *)
theory Contract
  imports Vm_Memory Opcodes
begin

text \<open>
  The execution context of a frame, \<^verbatim>\<open>src/core/vm/contract.go\<close>, and the analysis of jump
  destinations, \<^verbatim>\<open>src/core/vm/analysis.go\<close>.

  A \<open>ContractRef\<close> is used for its address (\<open>SetCode\<close> is never called through it) and for
  \<open>ReturnGas\<close>, which a caller that is a contract receives as the gas the call hands back. The map
  \<open>jumpdests\<close> of a contract is the one of its parent, so it is not a field here but part of the
  state that a run threads through its calls.
\<close>

section \<open>Contracts\<close>

record Contract =
  ct_caller :: address
  ct_self :: address
  ct_Code :: bytes
  ct_Input :: bytes
  ct_CodeAddr :: "address option"
  ct_value :: int
  ct_Gas :: int
  ct_UsedGas :: int
  ct_Price :: int

definition NewContract :: "address \<Rightarrow> address \<Rightarrow> int \<Rightarrow> int \<Rightarrow> int \<Rightarrow> Contract" where
  "NewContract caller object val gas price =
     \<lparr>ct_caller = caller, ct_self = object, ct_Code = [], ct_Input = [], ct_CodeAddr = None,
      ct_value = val, ct_Gas = gas, ct_UsedGas = 0, ct_Price = price\<rparr>"

definition GetByte :: "Contract \<Rightarrow> uint64 \<Rightarrow> byte" where
  "GetByte c n = (if unat n < length (ct_Code c) then ct_Code c ! unat n else 0)"

definition GetOp :: "Contract \<Rightarrow> uint64 \<Rightarrow> OpCode" where
  "GetOp c n = GetByte c n"

text \<open>The value of the gas counter after \<open>useGas(gas, amount)\<close>, or \<open>None\<close> where it returns false.\<close>

definition useGas :: "int \<Rightarrow> int \<Rightarrow> int option" where
  "useGas gas amount = (if gas < amount then None else Some (gas - amount))"

definition UseGas :: "Contract \<Rightarrow> int \<Rightarrow> Contract option" where
  "UseGas c gas =
     map_option (\<lambda>g. c\<lparr>ct_Gas := g, ct_UsedGas := ct_UsedGas c + gas\<rparr>) (useGas (ct_Gas c) gas)"

text \<open>
  The call \<open>contract.UseGas(contract.Gas)\<close>: the amount is the same pointer as the counter, which
  is zero by the time \<open>UsedGas\<close> is increased by it.
\<close>

definition UseGas_all :: "Contract \<Rightarrow> Contract" where
  "UseGas_all c = c\<lparr>ct_Gas := 0\<rparr>"

definition ReturnGas :: "Contract \<Rightarrow> int \<Rightarrow> Contract" where
  "ReturnGas c gas = c\<lparr>ct_Gas := ct_Gas c + gas, ct_UsedGas := ct_UsedGas c - gas\<rparr>"

definition SetCallCode :: "Contract \<Rightarrow> address option \<Rightarrow> bytes \<Rightarrow> Contract" where
  "SetCallCode self addr code = self\<lparr>ct_Code := code, ct_CodeAddr := addr\<rparr>"

lemma UseGas_Some_iff:
  "UseGas c g = Some c' \<longleftrightarrow>
     g \<le> ct_Gas c \<and> c' = c\<lparr>ct_Gas := ct_Gas c - g, ct_UsedGas := ct_UsedGas c + g\<rparr>"
  by (auto simp: UseGas_def useGas_def)

section \<open>Jump destinations\<close>

text \<open>
  The loop counter of the source is a \<open>uint64\<close>; a slice is shorter than \<open>2^63\<close>, so it does not
  wrap and is a natural number here. The keys of the map are \<open>uint64\<close>.
\<close>

function jumpdests_from :: "bytes \<Rightarrow> nat \<Rightarrow> uint64 set \<Rightarrow> uint64 set" where
  "jumpdests_from code pc m =
     (if pc < length code then
        let op = code ! pc in
        if PUSH1 \<le> op \<and> op \<le> PUSH32 then
          jumpdests_from code (pc + (unat op - unat PUSH1 + 1) + 1) m
        else if op = JUMPDEST then jumpdests_from code (pc + 1) (insert (word_of_nat pc) m)
        else jumpdests_from code (pc + 1) m
      else m)"
  by pat_completeness auto
termination
  by (relation "measure (\<lambda>(code, pc, m). length code - pc)") auto

declare jumpdests_from.simps [simp del]

definition jumpdests :: "bytes \<Rightarrow> uint64 set" where
  "jumpdests code = jumpdests_from code 0 {}"

type_synonym destinations = "hash \<Rightarrow> uint64 set option"

definition bigMaxUint64 :: int where
  "bigMaxUint64 = 2 ^ 64 - 1"

definition dests_has :: "destinations \<Rightarrow> hash \<Rightarrow> bytes \<Rightarrow> int \<Rightarrow> bool \<times> destinations" where
  "dests_has d codehash code dest =
     (if dest > bigMaxUint64 then (False, d)
      else
        case d codehash of
          None \<Rightarrow> (let m = jumpdests code in (Uint64 dest \<in> m, d(codehash \<mapsto> m)))
        | Some m \<Rightarrow> (Uint64 dest \<in> m, d))"

section \<open>What the analysis computes\<close>

text \<open>
  The positions at which an instruction starts: the first byte of the code, and from the start of
  an instruction the byte after its immediate data.
\<close>

definition immediate_length :: "OpCode \<Rightarrow> nat" where
  "immediate_length op = (if PUSH1 \<le> op \<and> op \<le> PUSH32 then unat op - 0x5f else 0)"

inductive instr_start :: "bytes \<Rightarrow> nat \<Rightarrow> bool" for code where
  first: "instr_start code 0"
| follow: "instr_start code pc \<Longrightarrow> pc < length code \<Longrightarrow>
    instr_start code (pc + 1 + immediate_length (code ! pc))"

inductive_cases instr_startE: "instr_start code pc"

definition valid_dest :: "bytes \<Rightarrow> nat \<Rightarrow> bool" where
  "valid_dest code pc \<longleftrightarrow> instr_start code pc \<and> pc < length code \<and> code ! pc = JUMPDEST"

lemma immediate_length_push:
  fixes op :: OpCode
  assumes "PUSH1 \<le> op"
  shows "unat op - unat (PUSH1 :: byte) + 1 = unat op - 0x5f"
proof -
  have "0x60 \<le> unat op" using assms by (simp add: word_le_nat_alt)
  then show ?thesis by simp
qed

lemma jumpdests_from_step:
  assumes "pc < length code"
  shows "jumpdests_from code pc m =
           jumpdests_from code (pc + 1 + immediate_length (code ! pc))
             (if code ! pc = JUMPDEST then insert (word_of_nat pc) m else m)"
proof (cases "PUSH1 \<le> code ! pc \<and> code ! pc \<le> PUSH32")
  case True
  then have "code ! pc \<noteq> JUMPDEST" by auto
  moreover have "pc + (unat (code ! pc) - unat (PUSH1 :: byte) + 1) + 1 = pc + 1 + immediate_length (code ! pc)"
    using True immediate_length_push [of "code ! pc"] by (simp add: immediate_length_def)
  ultimately show ?thesis
    using assms True by (subst jumpdests_from.simps) (simp only: Let_def if_True if_False simp_thms)
next
  case False
  then have "immediate_length (code ! pc) = 0" by (simp only: immediate_length_def if_False)
  then show ?thesis
    using assms False by (subst jumpdests_from.simps) 
      (cases "code ! pc = JUMPDEST"; simp only: Let_def if_True if_False simp_thms add_0_right)
qed

text \<open>No instruction starts inside another one.\<close>

lemma instr_start_disjoint:
  assumes "instr_start code q" and "instr_start code pc" and "pc < length code" and "pc < q"
  shows "pc + 1 + immediate_length (code ! pc) \<le> q"
  using assms
proof (induction q arbitrary: pc rule: less_induct)
  case (less q)
  from less.prems(1) show ?case
  proof (cases rule: instr_start.cases)
    case (follow r)
    consider "pc < r" | "pc = r" | "r < pc" by linarith
    then show ?thesis
    proof cases
      case 1
      then have "pc + 1 + immediate_length (code ! pc) \<le> r"
        using less.IH [of r pc] less.prems follow by simp
      then show ?thesis using follow by simp
    next
      case 3
      then have "r + 1 + immediate_length (code ! r) \<le> pc"
        using less.IH [of pc r] less.prems follow by simp
      then show ?thesis using follow less.prems(4) by simp
    qed (use follow in simp)
  qed (use less.prems in simp)
qed

lemma jumpdests_from_mem:
  assumes "instr_start code pc"
  shows "w \<in> jumpdests_from code pc m \<longleftrightarrow>
           w \<in> m \<or> (\<exists>q \<ge> pc. valid_dest code q \<and> w = word_of_nat q)"
  using assms
proof (induction "length code - pc" arbitrary: pc m rule: less_induct)
  case less
  show ?case
  proof (cases "pc < length code")
    case False
    then show ?thesis by (subst jumpdests_from.simps) (auto simp: valid_dest_def)
  next
    case True
    let ?n = "pc + 1 + immediate_length (code ! pc)"
    let ?m = "if code ! pc = JUMPDEST then insert (word_of_nat pc) m else m"
    have n: "instr_start code ?n" using less.prems True by (rule instr_start.follow)
    have "w \<in> jumpdests_from code pc m \<longleftrightarrow>
        w \<in> ?m \<or> (\<exists>q \<ge> ?n. valid_dest code q \<and> w = word_of_nat q)"
      unfolding jumpdests_from_step [OF True] by (rule less.hyps) (use True n in simp_all)
    moreover have "q = pc \<or> ?n \<le> q" if "pc \<le> q" "valid_dest code q" for q
      using that instr_start_disjoint [of code q pc] less.prems True
      unfolding valid_dest_def by (metis le_neq_implies_less)
    moreover have "valid_dest code pc \<longleftrightarrow> code ! pc = JUMPDEST"
      using True less.prems by (simp add: valid_dest_def)
    ultimately show ?thesis by (auto dest: Suc_leD add_leD1)
  qed
qed

lemma jumpdests_iff:
  assumes "int (length code) < 2 ^ 63"
  shows "w \<in> jumpdests code \<longleftrightarrow> valid_dest code (unat w)"
proof -
  have "unat (word_of_nat q :: uint64) = q" if "q < length code" for q
  proof -
    have "int q < 2 ^ 64" using that assms by simp
    then have "q < 2 ^ 64" by (metis of_nat_less_iff of_nat_numeral of_nat_power)
    then show ?thesis by (simp add: unsigned_of_nat take_bit_nat_eq_self)
  qed
  then have "w = word_of_nat q \<longleftrightarrow> unat w = q" if "valid_dest code q" for q
    using that by (auto simp: valid_dest_def)
  then show ?thesis
    unfolding jumpdests_def using jumpdests_from_mem [OF instr_start.first, of w code "{}"] by auto
qed

section \<open>The cache\<close>

text \<open>
  The cache is keyed by the hash of the code. Its entries are results of the analysis, and where
  no two codes in play share a hash it is transparent.
\<close>

definition dests_ok :: "(bytes \<Rightarrow> hash) \<Rightarrow> bytes set \<Rightarrow> destinations \<Rightarrow> bool" where
  "dests_ok codehash C d \<longleftrightarrow>
     (\<forall>h m. d h = Some m \<longrightarrow> (\<exists>code \<in> C. h = codehash code \<and> m = jumpdests code))"

lemma dests_ok_empty [simp]: "dests_ok codehash C (\<lambda>_. None)"
  by (simp add: dests_ok_def)

lemma dests_has_ok:
  "dests_ok codehash C d \<Longrightarrow> code \<in> C \<Longrightarrow>
     dests_ok codehash C (snd (dests_has d (codehash code) code dest))"
  by (auto simp: dests_ok_def dests_has_def Let_def split: option.split)

lemma dests_has_correct:
  assumes "dests_ok codehash C d" and "inj_on codehash C" and "code \<in> C"
    and "0 \<le> dest" and "int (length code) < 2 ^ 63"
  shows "fst (dests_has d (codehash code) code dest) \<longleftrightarrow> valid_dest code (nat dest)"
proof (cases "dest > bigMaxUint64")
  case True
  then have "\<not> nat dest < length code" using assms(5) by (simp add: bigMaxUint64_def)
  then show ?thesis using True by (simp add: dests_has_def valid_dest_def)
next
  case False
  then have u: "unat (Uint64 dest) = nat dest"
    using assms(4) by (intro unat_Uint64) (simp_all add: bigMaxUint64_def)
  have m: "d (codehash code) = Some m \<Longrightarrow> m = jumpdests code" for m
    using assms(1-3) unfolding dests_ok_def by (metis inj_onD)
  show ?thesis
    using False jumpdests_iff [OF assms(5), of "Uint64 dest"] m
    by (cases "d (codehash code)") (simp_all add: dests_has_def Let_def u)
qed

section \<open>Properties\<close>

text \<open>
  C25. A jump is accepted exactly where it leads to a \<open>JUMPDEST\<close> instruction at the start of an
  instruction, not inside the data of a \<open>PUSH\<close>; the cache of analyses, shared by nested calls and
  keyed by the hash of the code, does not change the answer as long as the hash distinguishes the
  codes that run.
\<close>

theorem jump_destinations:
  assumes "dests_ok codehash C d" "inj_on codehash C" "code \<in> C" "0 \<le> dest" "int (length code) < 2 ^ 63"
  shows "fst (dests_has d (codehash code) code dest) = valid_dest code (nat dest) \<and>
         dests_ok codehash C (snd (dests_has d (codehash code) code dest))"
  using dests_has_correct [OF assms] dests_has_ok [OF assms(1,3)] by simp

theorem jump_destinations_witness:
  "fst (dests_has Map.empty 0 [0x60, 0x5b, 0x5b] 2) \<and> \<not> fst (dests_has Map.empty 0 [0x60, 0x5b, 0x5b] 1) \<and>
   valid_dest [0x60, 0x5b, 0x5b] 2 \<and> \<not> valid_dest [0x60, 0x5b, 0x5b] 1"
proof -
  have "fst (dests_has Map.empty 0 [0x60, 0x5b, 0x5b] 2)" "\<not> fst (dests_has Map.empty 0 [0x60, 0x5b, 0x5b] 1)"
    by code_simp+
  then show ?thesis
    using jump_destinations [of "\<lambda>_. 0" "{[0x60, 0x5b, 0x5b]}" Map.empty "[0x60, 0x5b, 0x5b]" 2]
      jump_destinations [of "\<lambda>_. 0" "{[0x60, 0x5b, 0x5b]}" Map.empty "[0x60, 0x5b, 0x5b]" 1] by simp
qed

end
