(* ===== verification/Rlp.thy ===== *)
theory Rlp
  imports Prelude
begin

text \<open>
  The RLP serialisation of \<^verbatim>\<open>src/rlp/encode.go\<close> and the splitting of encoded values of
  \<^verbatim>\<open>src/rlp/raw.go\<close>.

  The encoder writes the string data of a value into one buffer and keeps the headers of its
  lists aside, with the offset at which each belongs and the size of its content, because a size
  is known only when the list ends; \<open>toBytes\<close> merges the two. \<open>rlp\<close> is the encoding as the format
  defines it, and the encoder is shown to produce it.
\<close>

section \<open>Headers and integers\<close>

text \<open>The bytes that \<open>putint\<close> writes; their number is its result.\<close>

definition putint :: "uint64 \<Rightarrow> bytes" where
  "putint i =
     (let b = (\<lambda>k. ucast (drop_bit k i) :: byte) in
      if i < 2 ^ 8 then [b 0]
      else if i < 2 ^ 16 then [b 8, b 0]
      else if i < 2 ^ 24 then [b 16, b 8, b 0]
      else if i < 2 ^ 32 then [b 24, b 16, b 8, b 0]
      else if i < 2 ^ 40 then [b 32, b 24, b 16, b 8, b 0]
      else if i < 2 ^ 48 then [b 40, b 32, b 24, b 16, b 8, b 0]
      else if i < 2 ^ 56 then [b 48, b 40, b 32, b 24, b 16, b 8, b 0]
      else [b 56, b 48, b 40, b 32, b 24, b 16, b 8, b 0])"

function intsize_from :: "uint64 \<Rightarrow> nat \<Rightarrow> nat" where
  "intsize_from i sz = (let i = drop_bit 8 i in if i = 0 then sz else intsize_from i (sz + 1))"
  by pat_completeness auto
termination
proof (relation "measure (\<lambda>(i, sz). unat i)")
  fix i :: uint64 and sz x
  assume x: "x = drop_bit 8 i" and nz: "x \<noteq> 0"
  have "unat x = unat i div 256" by (simp add: x unat_div drop_bit_eq_div)
  moreover have "unat x \<noteq> 0" using nz by (simp add: unat_eq_0)
  ultimately show "((x, sz + 1), i, sz) \<in> measure (\<lambda>(i, sz). unat i)" by simp
qed simp

declare intsize_from.simps [simp del]

definition intsize :: "uint64 \<Rightarrow> nat" where
  "intsize i = intsize_from i 1"

definition headsize :: "uint64 \<Rightarrow> nat" where
  "headsize sz = (if sz < 56 then 1 else 1 + intsize sz)"

definition puthead :: "byte \<Rightarrow> byte \<Rightarrow> uint64 \<Rightarrow> bytes" where
  "puthead smalltag largetag sz =
     (if sz < 56 then [smalltag + ucast sz]
      else let buf = putint sz in (largetag + word_of_nat (length buf)) # buf)"

definition ListSize :: "uint64 \<Rightarrow> uint64" where
  "ListSize contentSize = word_of_nat (headsize contentSize) + contentSize"

section \<open>The encoding buffer\<close>

record listhead =
  lh_offset :: nat
  lh_size :: nat

record encbuf =
  eb_str :: bytes
  lheads :: "listhead list"
  lhsize :: nat

definition empty_encbuf :: encbuf where
  "empty_encbuf = \<lparr>eb_str = [], lheads = [], lhsize = 0\<rparr>"

definition listhead_encode :: "listhead \<Rightarrow> bytes" where
  "listhead_encode head = puthead 0xC0 0xF7 (word_of_nat (lh_size head))"

definition eb_size :: "encbuf \<Rightarrow> nat" where
  "eb_size w = length (eb_str w) + lhsize w"

definition eb_append :: "encbuf \<Rightarrow> bytes \<Rightarrow> encbuf" where
  "eb_append w b = w\<lparr>eb_str := eb_str w @ b\<rparr>"

definition encodeStringHeader :: "encbuf \<Rightarrow> nat \<Rightarrow> encbuf" where
  "encodeStringHeader w sz =
     (if sz < 56 then eb_append w [0x80 + word_of_nat sz]
      else let buf = putint (word_of_nat sz) in eb_append w ((0xB7 + word_of_nat (length buf)) # buf))"

definition encodeString :: "encbuf \<Rightarrow> bytes \<Rightarrow> encbuf" where
  "encodeString w b =
     (if length b = 1 \<and> b ! 0 \<le> 0x7F then eb_append w [b ! 0]
      else eb_append (encodeStringHeader w (length b)) b)"

text \<open>\<open>eb_list\<close> returns the index of the new header, in place of the pointer to it.\<close>

definition eb_list :: "encbuf \<Rightarrow> nat \<times> encbuf" where
  "eb_list w =
     (length (lheads w),
      w\<lparr>lheads := lheads w @ [\<lparr>lh_offset = length (eb_str w), lh_size = lhsize w\<rparr>]\<rparr>)"

definition eb_listEnd :: "encbuf \<Rightarrow> nat \<Rightarrow> encbuf" where
  "eb_listEnd w i =
     (let lh = lheads w ! i;
          sz = eb_size w - lh_offset lh - lh_size lh;
          w = w\<lparr>lheads := (lheads w)[i := lh\<lparr>lh_size := sz\<rparr>]\<rparr> in
      if sz < 56 then w\<lparr>lhsize := lhsize w + 1\<rparr>
      else w\<lparr>lhsize := lhsize w + (1 + intsize (word_of_nat sz))\<rparr>)"

text \<open>The loop of \<open>toBytes\<close> over the remaining headers, and the copy after it.\<close>

fun toBytes_from :: "bytes \<Rightarrow> nat \<Rightarrow> listhead list \<Rightarrow> bytes" where
  "toBytes_from str strpos [] = drop strpos str"
| "toBytes_from str strpos (head # heads) =
     take (lh_offset head - strpos) (drop strpos str) @ listhead_encode head @
     toBytes_from str (strpos + (lh_offset head - strpos)) heads"

definition toBytes :: "encbuf \<Rightarrow> bytes" where
  "toBytes w = toBytes_from (eb_str w) 0 (lheads w)"

section \<open>The writers\<close>

text \<open>
  The values that the writers accept, by the kind that \<open>makeWriter\<close> selects: a \<open>RawValue\<close>, an
  unsigned integer, a boolean, a \<open>*big.Int\<close> (nil or not), a byte slice, a byte array, a string,
  a nil interface value, nil pointers to a byte array and to another array or a struct, and a
  slice, array or struct as the list of its elements or public fields.
\<close>

datatype rlp_val =
    VRaw bytes
  | VUint uint64
  | VBool bool
  | VBig "int option"
  | VBytes bytes
  | VByteArray bytes
  | VString bytes
  | VNilInterface
  | VNilByteArray
  | VNilStruct
  | VList "rlp_val list"

datatype rlp_error =
    ErrNegativeBigInt
  | ErrUnexpectedEOF
  | ErrCanonSize
  | ErrValueTooLarge
  | ErrExpectedString
  | ErrExpectedList

definition writeUint :: "uint64 \<Rightarrow> encbuf \<Rightarrow> encbuf" where
  "writeUint i w =
     (if i = 0 then eb_append w [0x80]
      else if i < 128 then eb_append w [ucast i]
      else let buf = putint i in eb_append w ((0x80 + word_of_nat (length buf)) # buf))"

definition writeBigInt :: "int \<Rightarrow> encbuf \<Rightarrow> rlp_error + encbuf" where
  "writeBigInt i w =
     (if i < 0 then Inl ErrNegativeBigInt
      else if i = 0 then Inr (eb_append w [0x80])
      else Inr (encodeString w (big_Bytes i)))"

definition writeBool :: "bool \<Rightarrow> encbuf \<Rightarrow> encbuf" where
  "writeBool b w = eb_append w [if b then 0x01 else 0x80]"

definition writeString :: "bytes \<Rightarrow> encbuf \<Rightarrow> encbuf" where
  "writeString s w =
     (if length s = 1 \<and> s ! 0 \<le> 0x7f then eb_append w [s ! 0]
      else eb_append (encodeStringHeader w (length s)) s)"

fun write_val :: "rlp_val \<Rightarrow> encbuf \<Rightarrow> rlp_error + encbuf"
  and write_elems :: "rlp_val list \<Rightarrow> encbuf \<Rightarrow> rlp_error + encbuf" where
  "write_val (VRaw b) w = Inr (eb_append w b)"
| "write_val (VUint i) w = Inr (writeUint i w)"
| "write_val (VBool b) w = Inr (writeBool b w)"
| "write_val (VBig None) w = Inr (eb_append w [0x80])"
| "write_val (VBig (Some i)) w = writeBigInt i w"
| "write_val (VBytes b) w = Inr (encodeString w b)"
| "write_val (VByteArray b) w = Inr (encodeString w b)"
| "write_val (VString s) w = Inr (writeString s w)"
| "write_val VNilInterface w = Inr (eb_append w [0xC0])"
| "write_val VNilByteArray w = Inr (eb_append w [0x80])"
| "write_val VNilStruct w = (let (lh, w) = eb_list w in Inr (eb_listEnd w lh))"
| "write_val (VList vs) w =
     (let (lh, w) = eb_list w in
      case write_elems vs w of Inl err \<Rightarrow> Inl err | Inr w \<Rightarrow> Inr (eb_listEnd w lh))"
| "write_elems [] w = Inr w"
| "write_elems (v # vs) w =
     (case write_val v w of Inl err \<Rightarrow> Inl err | Inr w \<Rightarrow> write_elems vs w)"

definition EncodeToBytes :: "rlp_val \<Rightarrow> rlp_error + bytes" where
  "EncodeToBytes val =
     (case write_val val empty_encbuf of Inl err \<Rightarrow> Inl err | Inr w \<Rightarrow> Inr (toBytes w))"

section \<open>Splitting encoded values\<close>

datatype Kind = Byte | String | List

definition readSize :: "bytes \<Rightarrow> byte \<Rightarrow> (rlp_error + uint64) option" where
  "readSize b slen =
     (if unat slen > length b then Some (Inl ErrUnexpectedEOF)
      else
        let s = (if 1 \<le> slen \<and> slen \<le> 8 then word_of_nat (be_nat (take (unat slen) b)) else 0 :: uint64) in
        if s < 56 then Some (Inl ErrCanonSize)
        else map_option (\<lambda>b0. if b0 = 0 then Inl ErrCanonSize else Inr s) (index b 0))"

text \<open>\<open>None\<close> is the panic of \<open>buf[1]\<close> on a buffer of one byte.\<close>

definition readKind :: "bytes \<Rightarrow> (rlp_error + Kind \<times> uint64 \<times> uint64) option" where
  "readKind buf =
     (if length buf = 0 then Some (Inl ErrUnexpectedEOF)
      else
        let b = buf ! 0;
            finish = (\<lambda>k tagsize contentsize.
              if contentsize > word_of_nat (length buf) - tagsize then Inl ErrValueTooLarge
              else Inr (k, tagsize, contentsize));
            sized = (\<lambda>k tagsize.
              map_option (case_sum Inl (finish k tagsize))) in
        if b < 0x80 then Some (finish Byte 0 1)
        else if b < 0xB8 then
          (let contentsize = ucast (b - 0x80) :: uint64 in
           if contentsize = 1 then
             map_option (\<lambda>b1. if b1 < 128 then Inl ErrCanonSize else finish String 1 contentsize) (index buf 1)
           else Some (finish String 1 contentsize))
        else if b < 0xC0 then
          sized String (ucast (b - 0xB7) + 1) (readSize (drop 1 buf) (b - 0xB7))
        else if b < 0xF8 then Some (finish List 1 (ucast (b - 0xC0)))
        else sized List (ucast (b - 0xF7) + 1) (readSize (drop 1 buf) (b - 0xF7)))"

definition Split :: "bytes \<Rightarrow> (rlp_error + Kind \<times> bytes \<times> bytes) option" where
  "Split b =
     do { r \<leftarrow> readKind b;
          case r of
            Inl err \<Rightarrow> Some (Inl err)
          | Inr (k, ts, cs) \<Rightarrow>
              do { content \<leftarrow> slice b (unat ts) (unat (ts + cs));
                   rest \<leftarrow> slice b (unat (ts + cs)) (length b);
                   Some (Inr (k, content, rest)) } }"

definition SplitString :: "bytes \<Rightarrow> (rlp_error + bytes \<times> bytes) option" where
  "SplitString b =
     map_option (\<lambda>r. case r of Inl err \<Rightarrow> Inl err
        | Inr (k, content, rest) \<Rightarrow> if k = List then Inl ErrExpectedString else Inr (content, rest)) (Split b)"

definition SplitList :: "bytes \<Rightarrow> (rlp_error + bytes \<times> bytes) option" where
  "SplitList b =
     map_option (\<lambda>r. case r of Inl err \<Rightarrow> Inl err
        | Inr (k, content, rest) \<Rightarrow> if k \<noteq> List then Inl ErrExpectedList else Inr (content, rest)) (Split b)"

text \<open>The loop of \<open>CountValues\<close>, which need not end on a buffer that \<open>readKind\<close> makes no progress on.\<close>

partial_function (option) CountValues_from :: "nat \<Rightarrow> bytes \<Rightarrow> (rlp_error + nat) option" where
  "CountValues_from i b =
     (if length b > 0 then
        Option.bind (readKind b) (\<lambda>r.
          case r of
            Inl err \<Rightarrow> Some (Inl err)
          | Inr (k, tagsize, sz) \<Rightarrow>
              Option.bind (slice b (unat (tagsize + sz)) (length b)) (\<lambda>b. CountValues_from (i + 1) b))
      else Some (Inr i))"

definition CountValues :: "bytes \<Rightarrow> (rlp_error + nat) option" where
  "CountValues b = CountValues_from 0 b"

end
