(* ===== verification/Crypto.thy ===== *)
theory Crypto
  imports Common Rlp
begin

text \<open>
  The functions of \<^verbatim>\<open>src/crypto/crypto.go\<close> that the state and the virtual machine call. The digest
  algorithms and the curve arithmetic are parameters, the fields of \<open>crypto\<close>; \<open>crypto_ok\<close> collects
  the lengths of their results, which the callers rely on.
\<close>

record crypto =
  keccak256 :: "bytes \<Rightarrow> bytes"
  cr_sha256 :: "bytes \<Rightarrow> bytes"
  cr_ripemd160 :: "bytes \<Rightarrow> bytes"
  RecoverPubkey :: "bytes \<Rightarrow> bytes \<Rightarrow> bytes option"

definition crypto_ok :: "crypto \<Rightarrow> bool" where
  "crypto_ok cr \<longleftrightarrow>
     (\<forall>x. length (keccak256 cr x) = 32) \<and>
     (\<forall>x. length (cr_sha256 cr x) = 32) \<and>
     (\<forall>x. length (cr_ripemd160 cr x) = 20) \<and>
     (\<forall>h s p. RecoverPubkey cr h s = Some p \<longrightarrow> length p = 65)"

definition Sha3 :: "crypto \<Rightarrow> bytes \<Rightarrow> bytes" where
  "Sha3 cr dat = keccak256 cr dat"

definition Sha3Hash :: "crypto \<Rightarrow> bytes \<Rightarrow> hash" where
  "Sha3Hash cr dat = BytesToHash (keccak256 cr dat)"

text \<open>The encoding of a list of an array and an unsigned integer cannot fail.\<close>

definition CreateAddress :: "crypto \<Rightarrow> address \<Rightarrow> uint64 \<Rightarrow> address" where
  "CreateAddress cr b nonce =
     (case EncodeToBytes (VList [VByteArray (Address_Bytes b), VUint nonce]) of
        Inr dat \<Rightarrow> BytesToAddress (drop 12 (Sha3 cr dat))
      | Inl err \<Rightarrow> BytesToAddress (drop 12 (Sha3 cr [])))"

definition secp256k1n :: int where
  "secp256k1n = 0xfffffffffffffffffffffffffffffffebaaedce6af48a03bbfd25e8cd0364141"

definition ValidateSignatureValues :: "byte \<Rightarrow> int \<Rightarrow> int \<Rightarrow> bool" where
  "ValidateSignatureValues v r s =
     (if r < 1 \<or> s < 1 then False
      else r < secp256k1n \<and> s < secp256k1n \<and> (v = 27 \<or> v = 28))"

definition Ecrecover :: "crypto \<Rightarrow> bytes \<Rightarrow> bytes \<Rightarrow> bytes option" where
  "Ecrecover cr h sig = RecoverPubkey cr h sig"

end
