(* ===== verification/Precompiled.thy ===== *)
theory Precompiled
  imports Crypto Params
begin

text \<open>The contracts implemented natively, \<^verbatim>\<open>src/core/vm/contracts.go\<close>.\<close>

record PrecompiledAccount =
  pc_Gas :: "nat \<Rightarrow> int"
  pc_fn :: "crypto \<Rightarrow> bytes \<Rightarrow> bytes option"

definition word_gas :: "int \<Rightarrow> int \<Rightarrow> nat \<Rightarrow> int" where
  "word_gas wordGas baseGas l = int ((l + 31) div 32) * wordGas + baseGas"

definition sha256Func :: "crypto \<Rightarrow> bytes \<Rightarrow> bytes option" where
  "sha256Func cr inp = Some (cr_sha256 cr inp)"

definition ripemd160Func :: "crypto \<Rightarrow> bytes \<Rightarrow> bytes option" where
  "ripemd160Func cr inp = Some (LeftPadBytes (cr_ripemd160 cr inp) 32)"

definition ecrecoverFunc :: "crypto \<Rightarrow> bytes \<Rightarrow> bytes option" where
  "ecrecoverFunc cr inp =
     (let inp = RightPadBytes inp 128 in
      do { r \<leftarrow> map_option BytesToBig (slice inp 64 96);
           s \<leftarrow> map_option BytesToBig (slice inp 96 128);
           vbig \<leftarrow> map_option BytesToBig (slice inp 32 64);
           let v = (ucast (Uint64 vbig) :: byte);
           if \<not> ValidateSignatureValues v r s then Some []
           else
             do { let vnormal = (ucast (Uint64 (vbig - 27)) :: byte);
                  rs \<leftarrow> slice inp 64 128;
                  h \<leftarrow> slice inp 0 32;
                  case Ecrecover cr h (rs @ [vnormal]) of
                    None \<Rightarrow> Some []
                  | Some pubKey \<Rightarrow>
                      do { key \<leftarrow> slice pubKey 1 (length pubKey);
                           digest \<leftarrow> slice (Sha3 cr key) 12 (length (Sha3 cr key));
                           Some (LeftPadBytes digest 32) } } })"

definition memCpy :: "crypto \<Rightarrow> bytes \<Rightarrow> bytes option" where
  "memCpy cr inp = Some inp"

text \<open>The map of \<open>PrecompiledContracts\<close>, with the address bytes as keys.\<close>

definition PrecompiledContracts :: "(bytes \<times> PrecompiledAccount) list" where
  "PrecompiledContracts =
     [(LeftPadBytes [1] 20, \<lparr>pc_Gas = \<lambda>l. EcrecoverGas, pc_fn = ecrecoverFunc\<rparr>),
      (LeftPadBytes [2] 20, \<lparr>pc_Gas = word_gas Sha256WordGas Sha256Gas, pc_fn = sha256Func\<rparr>),
      (LeftPadBytes [3] 20, \<lparr>pc_Gas = word_gas Ripemd160WordGas Ripemd160Gas, pc_fn = ripemd160Func\<rparr>),
      (LeftPadBytes [4] 20, \<lparr>pc_Gas = word_gas IdentityWordGas IdentityGas, pc_fn = memCpy\<rparr>)]"

definition Precompiled_at :: "address \<Rightarrow> PrecompiledAccount option" where
  "Precompiled_at a = map_of PrecompiledContracts (Address_Bytes a)"

section \<open>Facts\<close>

lemma slice_defined: "lo \<le> hi \<Longrightarrow> hi \<le> length xs \<Longrightarrow> slice xs lo hi = Some (take (hi - lo) (drop lo xs))"
  by (simp add: slice_def)

lemma ecrecoverFunc_defined:
  assumes "crypto_ok cr"
  shows "\<exists>out. ecrecoverFunc cr inp = Some out \<and> (out = [] \<or> length out = 32)"
proof -
  have len: "128 \<le> length (RightPadBytes inp 128)" by (simp add: length_RightPadBytes)
  have k: "length (Sha3 cr x) = 32" for x using assms by (simp add: crypto_ok_def Sha3_def)
  have p: "length pk = 65" if "Ecrecover cr h s = Some pk" for h s pk
    using assms that by (auto simp: crypto_ok_def Ecrecover_def)
  show ?thesis
    unfolding ecrecoverFunc_def Let_def
    using len k
    by (auto simp: slice_defined length_LeftPadBytes dest: p split: option.split)
qed

lemma Precompiled_entries:
  assumes "Precompiled_at a = Some p"
  shows "p \<in> snd ` set PrecompiledContracts"
  using assms by (auto simp: Precompiled_at_def image_iff dest!: map_of_SomeD intro: bexI [rotated])

lemma word_gas_pos: "0 \<le> w \<Longrightarrow> 0 < b \<Longrightarrow> 0 < word_gas w b l"
  by (simp add: word_gas_def add_nonneg_pos)

lemma Precompiled_gas_pos:
  assumes "Precompiled_at a = Some p"
  shows "0 < pc_Gas p l"
  using Precompiled_entries [OF assms] by (auto simp: PrecompiledContracts_def word_gas_pos)

lemma Precompiled_call_defined:
  assumes "crypto_ok cr" and "Precompiled_at a = Some p"
  shows "\<exists>out. pc_fn p cr inp = Some out \<and> int (length out) \<le> max 32 (int (length inp))"
  using Precompiled_entries [OF assms(2)] ecrecoverFunc_defined [OF assms(1), of inp] assms(1)
  by (auto simp: PrecompiledContracts_def sha256Func_def ripemd160Func_def memCpy_def crypto_ok_def
      length_LeftPadBytes)

section \<open>Properties\<close>

lemma be_nat_last: "bs \<noteq> [] \<Longrightarrow> be_nat bs mod 256 = unat (last bs)"
  by (cases bs rule: rev_cases) (simp_all add: be_nat_append)

lemma low_byte: "(ucast (word_of_nat n :: uint64) :: byte) = word_of_nat (n mod 256)"
  by (simp add: word_unat_eq_iff unsigned_ucast_eq unat_of_nat take_bit_eq_mod mod_mod_cancel)

lemma low_byte_SetBytes:
  assumes "bs \<noteq> []"
  shows "(ucast (Uint64 (big_SetBytes bs)) :: byte) = last bs"
  using low_byte [of "be_nat bs"] be_nat_last [OF assms] by (simp add: Uint64_def big_SetBytes_def)

lemma low_byte_minus_27:
  assumes "bs \<noteq> []" "27 \<le> last bs"
  shows "(ucast (Uint64 (big_SetBytes bs - 27)) :: byte) = last bs - 27"
proof -
  let ?n = "be_nat bs"
  have "27 \<le> unat (last bs)" using assms(2) by (simp add: word_le_nat_alt)
  then have n: "27 \<le> ?n mod 256" using be_nat_last [OF assms(1)] by simp
  then have "27 \<le> ?n" using mod_less_eq_dividend by (rule order_trans)
  then have "Uint64 (big_SetBytes bs - 27) = word_of_nat (?n - 27)"
    by (simp add: Uint64_def big_SetBytes_def of_nat_diff)
  moreover have "(?n - 27) mod 256 = ?n mod 256 - 27"
  proof -
    have "?n - 27 = 256 * (?n div 256) + (?n mod 256 - 27)" using n by simp
    then show ?thesis by (metis less_imp_diff_less mod_less mod_less_divisor mod_mult_self4 zero_less_numeral)
  qed
  moreover have "word_of_nat (?n mod 256 - 27) = last bs - 27"
    using n be_nat_last [OF assms(1)] by simp
  ultimately show ?thesis by (simp add: low_byte)
qed

text \<open>
  C35. The signature recovery contract on a full input of four words: it validates and uses only the
  low byte of the word \<open>V\<close>, which must be 27 or 28, and returns the address of the recovered key
  padded to a word, or nothing where the values or the signature are invalid.
\<close>

theorem ecrecover_result:
  assumes "crypto_ok cr" "length h = 32" "length v = 32" "length r = 32" "length s = 32"
  shows "ecrecoverFunc cr (h @ v @ r @ s) =
     Some (if \<not> ValidateSignatureValues (last v) (BytesToBig r) (BytesToBig s) then []
           else case Ecrecover cr h (r @ s @ [last v - 27]) of
                  None \<Rightarrow> [] | Some key \<Rightarrow> replicate 12 0 @ drop 12 (Sha3 cr (drop 1 key)))"
proof -
  let ?in = "h @ v @ r @ s"
  have pad: "RightPadBytes ?in 128 = ?in" using assms by (simp add: RightPadBytes_def copy_into_def)
  have sl: "slice ?in 64 96 = Some r" "slice ?in 96 128 = Some s" "slice ?in 32 64 = Some v"
    "slice ?in 64 128 = Some (r @ s)" "slice ?in 0 32 = Some h"
    using assms(2-5) by (simp_all add: slice_def)
  have v: "v \<noteq> []" using assms(3) by auto
  note low = low_byte_SetBytes [OF v, folded BytesToBig_def] low_byte_minus_27 [OF v, folded BytesToBig_def]
  have valid: "27 \<le> last v" if "ValidateSignatureValues (last v) a b" for a b
    using that by (auto simp: ValidateSignatureValues_def split: if_splits)
  have key: "slice pk 1 (length pk) = Some (drop 1 pk)" if "Ecrecover cr m t = Some pk" for m t pk
    using assms(1) that by (auto simp: crypto_ok_def Ecrecover_def slice_def)
  have dig: "slice (Sha3 cr x) 12 (length (Sha3 cr x)) = Some (drop 12 (Sha3 cr x))"
    "LeftPadBytes (drop 12 (Sha3 cr x)) 32 = replicate 12 0 @ drop 12 (Sha3 cr x)" for x
    using assms(1) by (simp_all add: crypto_ok_def Sha3_def slice_def LeftPadBytes_eq)
  show ?thesis
    unfolding ecrecoverFunc_def Let_def pad sl option.map bind.bind_lunit low(1)
    using low(2) [OF valid] by (auto simp: key [simplified] dig split: option.split)
qed

end
