(* ===== verification/Instructions.thy ===== *)
theory Instructions
  imports StateDB Vm_Gas Contract Precompiled
begin

text \<open>
  The instructions of the virtual machine, \<^verbatim>\<open>src/core/vm/instructions.go\<close>, and the table that
  dispatches to them, \<^verbatim>\<open>src/core/vm/jump_table.go\<close>.

  The pointers that an instruction function receives (program counter, contract, memory, stack)
  and the database behind its environment are the components of a \<open>frame\<close>, which it returns
  updated; \<open>None\<close> is a run-time panic. The interface \<open>vm.Environment\<close> is the record \<open>vm_env\<close>,
  with a field per method that the instructions call. The three call methods take and return the
  state, and return the gas that the callee hands back to the calling contract.
\<close>

section \<open>The environment and the frame\<close>

record world =
  w_db :: statedb
  w_dests :: destinations

record call_result =
  res_ret :: bytes
  res_addr :: address
  res_err :: "vm_error option"
  res_gas :: int
  res_world :: world

text \<open>Arguments: depth, state, calling account, callee (or init code), input, gas, price, value.\<close>

type_synonym call_fn =
  "int \<Rightarrow> world \<Rightarrow> address \<Rightarrow> address \<Rightarrow> bytes \<Rightarrow> int \<Rightarrow> int \<Rightarrow> int \<Rightarrow> call_result option"

type_synonym create_fn =
  "int \<Rightarrow> world \<Rightarrow> address \<Rightarrow> bytes \<Rightarrow> int \<Rightarrow> int \<Rightarrow> int \<Rightarrow> call_result option"

record vm_env =
  env_crypto :: crypto
  env_Origin :: address
  env_BlockNumber :: int
  env_GetHash :: "uint64 \<Rightarrow> hash"
  env_Coinbase :: address
  env_Time :: int
  env_Difficulty :: int
  env_GasLimit :: int
  env_Depth :: int
  env_Call :: call_fn
  env_CallCode :: call_fn
  env_Create :: create_fn

record frame =
  fr_pc :: uint64
  fr_contract :: Contract
  fr_mem :: Memory
  fr_stack :: stack
  fr_world :: world

type_synonym instrFn = "vm_env \<Rightarrow> frame \<Rightarrow> frame option"

abbreviation fr_db :: "frame \<Rightarrow> statedb" where
  "fr_db fr \<equiv> w_db (fr_world fr)"

abbreviation fr_self :: "frame \<Rightarrow> address" where
  "fr_self fr \<equiv> ct_self (fr_contract fr)"

definition set_db :: "statedb \<Rightarrow> frame \<Rightarrow> frame" where
  "set_db db fr = fr\<lparr>fr_world := (fr_world fr)\<lparr>w_db := db\<rparr>\<rparr>"

definition set_mem :: "Memory \<Rightarrow> frame \<Rightarrow> frame" where
  "set_mem m fr = fr\<lparr>fr_mem := m\<rparr>"

definition push :: "int \<Rightarrow> frame \<Rightarrow> frame" where
  "push d fr = fr\<lparr>fr_stack := st_push (fr_stack fr) d\<rparr>"

definition pop :: "frame \<Rightarrow> (int \<times> frame) option" where
  "pop fr = map_option (\<lambda>(x, st). (x, fr\<lparr>fr_stack := st\<rparr>)) (st_pop (fr_stack fr))"

section \<open>Arithmetic\<close>

definition opAdd :: instrFn where
  "opAdd env fr = do { (x, fr) \<leftarrow> pop fr; (y, fr) \<leftarrow> pop fr; Some (push (U256 (x + y)) fr) }"

definition opSub :: instrFn where
  "opSub env fr = do { (x, fr) \<leftarrow> pop fr; (y, fr) \<leftarrow> pop fr; Some (push (U256 (x - y)) fr) }"

definition opMul :: instrFn where
  "opMul env fr = do { (x, fr) \<leftarrow> pop fr; (y, fr) \<leftarrow> pop fr; Some (push (U256 (x * y)) fr) }"

definition opDiv :: instrFn where
  "opDiv env fr =
     do { (x, fr) \<leftarrow> pop fr; (y, fr) \<leftarrow> pop fr;
          Some (push (if y \<noteq> 0 then U256 (x div y) else 0) fr) }"

definition opSdiv :: instrFn where
  "opSdiv env fr =
     do { (x, fr) \<leftarrow> pop fr; (y, fr) \<leftarrow> pop fr;
          let x = S256 x; y = S256 y in
          if y = 0 then Some (push 0 fr)
          else
            let n = (if x * y < 0 then - 1 else 1);
                res = \<bar>x\<bar> div \<bar>y\<bar> in
            Some (push (U256 (res * n)) fr) }"

definition opMod :: instrFn where
  "opMod env fr =
     do { (x, fr) \<leftarrow> pop fr; (y, fr) \<leftarrow> pop fr;
          Some (push (if y = 0 then 0 else U256 (x mod y)) fr) }"

definition opSmod :: instrFn where
  "opSmod env fr =
     do { (x, fr) \<leftarrow> pop fr; (y, fr) \<leftarrow> pop fr;
          let x = S256 x; y = S256 y in
          if y = 0 then Some (push 0 fr)
          else
            let n = (if x < 0 then - 1 else 1);
                res = \<bar>x\<bar> mod \<bar>y\<bar> in
            Some (push (U256 (res * n)) fr) }"

definition opExp :: instrFn where
  "opExp env fr =
     do { (x, fr) \<leftarrow> pop fr; (y, fr) \<leftarrow> pop fr; Some (push (U256 (big_Exp x y (2 ^ 256))) fr) }"

definition opSignExtend :: instrFn where
  "opSignExtend env fr =
     do { (back, fr) \<leftarrow> pop fr;
          if back < 31 then
            do { (num, fr) \<leftarrow> pop fr;
                 let bit = unat (Uint64 back * 8 + 7);
                     mask = big_Lsh 1 bit - 1;
                     num = (if BitTest num bit then big_Or num (big_Not mask) else big_And num mask) in
                 Some (push (U256 num) fr) }
          else Some fr }"

section \<open>Comparison and bits\<close>

definition opNot :: instrFn where
  "opNot env fr = do { (x, fr) \<leftarrow> pop fr; Some (push (U256 (big_Not x)) fr) }"

definition opLt :: instrFn where
  "opLt env fr =
     do { (x, fr) \<leftarrow> pop fr; (y, fr) \<leftarrow> pop fr; Some (push (if x < y then 1 else 0) fr) }"

definition opGt :: instrFn where
  "opGt env fr =
     do { (x, fr) \<leftarrow> pop fr; (y, fr) \<leftarrow> pop fr; Some (push (if x > y then 1 else 0) fr) }"

definition opSlt :: instrFn where
  "opSlt env fr =
     do { (x, fr) \<leftarrow> pop fr; (y, fr) \<leftarrow> pop fr;
          let x = S256 x; y = S256 y in
          Some (push (if x < S256 y then 1 else 0) fr) }"

definition opSgt :: instrFn where
  "opSgt env fr =
     do { (x, fr) \<leftarrow> pop fr; (y, fr) \<leftarrow> pop fr;
          let x = S256 x; y = S256 y in
          Some (push (if x > y then 1 else 0) fr) }"

definition opEq :: instrFn where
  "opEq env fr =
     do { (x, fr) \<leftarrow> pop fr; (y, fr) \<leftarrow> pop fr; Some (push (if x = y then 1 else 0) fr) }"

definition opIszero :: instrFn where
  "opIszero env fr = do { (x, fr) \<leftarrow> pop fr; Some (push (if x > 0 then 0 else 1) fr) }"

definition opAnd :: instrFn where
  "opAnd env fr = do { (x, fr) \<leftarrow> pop fr; (y, fr) \<leftarrow> pop fr; Some (push (big_And x y) fr) }"

definition opOr :: instrFn where
  "opOr env fr = do { (x, fr) \<leftarrow> pop fr; (y, fr) \<leftarrow> pop fr; Some (push (big_Or x y) fr) }"

definition opXor :: instrFn where
  "opXor env fr = do { (x, fr) \<leftarrow> pop fr; (y, fr) \<leftarrow> pop fr; Some (push (big_Xor x y) fr) }"

text \<open>The index of the byte is an \<open>int64\<close>; a negative one is out of range.\<close>

definition opByte :: instrFn where
  "opByte env fr =
     do { (th, fr) \<leftarrow> pop fr; (val, fr) \<leftarrow> pop fr;
          if th < 32 then
            if Int64 th < 0 then None
            else
              do { b \<leftarrow> index (LeftPadBytes (big_Bytes val) 32) (nat (Int64 th));
                   Some (push (uint b) fr) }
          else Some (push 0 fr) }"

definition opAddmod :: instrFn where
  "opAddmod env fr =
     do { (x, fr) \<leftarrow> pop fr; (y, fr) \<leftarrow> pop fr; (z, fr) \<leftarrow> pop fr;
          Some (push (if z > 0 then U256 ((x + y) mod z) else 0) fr) }"

definition opMulmod :: instrFn where
  "opMulmod env fr =
     do { (x, fr) \<leftarrow> pop fr; (y, fr) \<leftarrow> pop fr; (z, fr) \<leftarrow> pop fr;
          Some (push (if z > 0 then U256 ((x * y) mod z) else 0) fr) }"

section \<open>Hashing and the environment of the frame\<close>

definition opSha3 :: instrFn where
  "opSha3 env fr =
     do { (offset, fr) \<leftarrow> pop fr; (sz, fr) \<leftarrow> pop fr;
          bs \<leftarrow> Memory_Get (fr_mem fr) (Int64 offset) (Int64 sz);
          Some (push (BytesToBig (Sha3 (env_crypto env) bs)) fr) }"

definition opAddress :: instrFn where
  "opAddress env fr = Some (push (BytesToBig (Address_Bytes (fr_self fr))) fr)"

definition opBalance :: instrFn where
  "opBalance env fr =
     do { (a, fr) \<leftarrow> pop fr;
          let (balance, db) = GetBalance (fr_db fr) (BigToAddress a) in
          Some (push balance (set_db db fr)) }"

definition opOrigin :: instrFn where
  "opOrigin env fr = Some (push (Address_Big (env_Origin env)) fr)"

definition opCaller :: instrFn where
  "opCaller env fr = Some (push (BytesToBig (Address_Bytes (ct_caller (fr_contract fr)))) fr)"

definition opCallValue :: instrFn where
  "opCallValue env fr = Some (push (ct_value (fr_contract fr)) fr)"

definition opCalldataLoad :: instrFn where
  "opCalldataLoad env fr =
     do { (start, fr) \<leftarrow> pop fr;
          bs \<leftarrow> getData (ct_Input (fr_contract fr)) start 32;
          Some (push (BytesToBig bs) fr) }"

definition opCalldataSize :: instrFn where
  "opCalldataSize env fr = Some (push (int (length (ct_Input (fr_contract fr)))) fr)"

definition opCalldataCopy :: instrFn where
  "opCalldataCopy env fr =
     do { (mOff, fr) \<leftarrow> pop fr; (cOff, fr) \<leftarrow> pop fr; (l, fr) \<leftarrow> pop fr;
          bs \<leftarrow> getData (ct_Input (fr_contract fr)) cOff l;
          m \<leftarrow> Memory_Set (fr_mem fr) (Uint64 mOff) (Uint64 l) bs;
          Some (set_mem m fr) }"

definition opExtCodeSize :: instrFn where
  "opExtCodeSize env fr =
     do { (a, fr) \<leftarrow> pop fr;
          let (code, db) = GetCode (fr_db fr) (BigToAddress a) in
          Some (push (int (length code)) (set_db db fr)) }"

definition opCodeSize :: instrFn where
  "opCodeSize env fr = Some (push (int (length (ct_Code (fr_contract fr)))) fr)"

definition opCodeCopy :: instrFn where
  "opCodeCopy env fr =
     do { (mOff, fr) \<leftarrow> pop fr; (cOff, fr) \<leftarrow> pop fr; (l, fr) \<leftarrow> pop fr;
          bs \<leftarrow> getData (ct_Code (fr_contract fr)) cOff l;
          m \<leftarrow> Memory_Set (fr_mem fr) (Uint64 mOff) (Uint64 l) bs;
          Some (set_mem m fr) }"

definition opExtCodeCopy :: instrFn where
  "opExtCodeCopy env fr =
     do { (a, fr) \<leftarrow> pop fr; (mOff, fr) \<leftarrow> pop fr; (cOff, fr) \<leftarrow> pop fr; (l, fr) \<leftarrow> pop fr;
          let (code, db) = GetCode (fr_db fr) (BigToAddress a) in
          do { bs \<leftarrow> getData code cOff l;
               m \<leftarrow> Memory_Set (fr_mem fr) (Uint64 mOff) (Uint64 l) bs;
               Some (set_mem m (set_db db fr)) } }"

definition opGasprice :: instrFn where
  "opGasprice env fr = Some (push (ct_Price (fr_contract fr)) fr)"

section \<open>The block\<close>

definition opBlockhash :: instrFn where
  "opBlockhash env fr =
     do { (num, fr) \<leftarrow> pop fr;
          let n = env_BlockNumber env - 257 in
          Some (push (if num > n \<and> num < env_BlockNumber env
                      then Hash_Big (env_GetHash env (Uint64 num)) else 0) fr) }"

definition opCoinbase :: instrFn where
  "opCoinbase env fr = Some (push (Address_Big (env_Coinbase env)) fr)"

definition opTimestamp :: instrFn where
  "opTimestamp env fr = Some (push (U256 (env_Time env)) fr)"

definition opNumber :: instrFn where
  "opNumber env fr = Some (push (U256 (env_BlockNumber env)) fr)"

definition opDifficulty :: instrFn where
  "opDifficulty env fr = Some (push (U256 (env_Difficulty env)) fr)"

definition opGasLimit :: instrFn where
  "opGasLimit env fr = Some (push (U256 (env_GasLimit env)) fr)"

section \<open>Stack, memory, storage and flow\<close>

definition opPop :: instrFn where
  "opPop env fr = do { (x, fr) \<leftarrow> pop fr; Some fr }"

definition opMload :: instrFn where
  "opMload env fr =
     do { (offset, fr) \<leftarrow> pop fr;
          bs \<leftarrow> Memory_Get (fr_mem fr) (Int64 offset) 32;
          Some (push (BytesToBig bs) fr) }"

definition opMstore :: instrFn where
  "opMstore env fr =
     do { (mStart, fr) \<leftarrow> pop fr; (val, fr) \<leftarrow> pop fr;
          m \<leftarrow> Memory_Set (fr_mem fr) (Uint64 mStart) 32 (BigToBytes val 256);
          Some (set_mem m fr) }"

definition opMstore8 :: instrFn where
  "opMstore8 env fr =
     do { (off, fr) \<leftarrow> pop fr; (val, fr) \<leftarrow> pop fr;
          let off = Int64 off in
          if 0 \<le> off \<and> nat off < Memory_Len (fr_mem fr)
          then Some (set_mem ((fr_mem fr)\<lparr>store := (store (fr_mem fr))[nat off := word_of_int (Int64 val)]\<rparr>) fr)
          else None }"

definition opSload :: instrFn where
  "opSload env fr =
     do { (loc, fr) \<leftarrow> pop fr;
          let (val, db) = GetState (fr_db fr) (fr_self fr) (BigToHash loc) in
          Some (push (Hash_Big val) (set_db db fr)) }"

definition opSstore :: instrFn where
  "opSstore env fr =
     do { (loc, fr) \<leftarrow> pop fr; (val, fr) \<leftarrow> pop fr;
          Some (set_db (SetState (fr_db fr) (fr_self fr) (BigToHash loc) (BigToHash val)) fr) }"

definition opJumpdest :: instrFn where
  "opJumpdest env fr = Some fr"

text \<open>The argument is \<open>instr.data\<close>, the program counter.\<close>

definition opPc :: "int \<Rightarrow> instrFn" where
  "opPc d env fr = Some (push d fr)"

definition opMsize :: instrFn where
  "opMsize env fr = Some (push (int (Memory_Len (fr_mem fr))) fr)"

definition opGas :: instrFn where
  "opGas env fr = Some (push (ct_Gas (fr_contract fr)) fr)"

section \<open>Calls\<close>

definition opCreate :: instrFn where
  "opCreate env fr =
     do { (value, fr) \<leftarrow> pop fr; (offset, fr) \<leftarrow> pop fr; (sz, fr) \<leftarrow> pop fr;
          input \<leftarrow> Memory_Get (fr_mem fr) (Int64 offset) (Int64 sz);
          let gas = ct_Gas (fr_contract fr);
              contract = UseGas_all (fr_contract fr) in
          do { r \<leftarrow> env_Create env (env_Depth env) (fr_world fr) (ct_self contract) input gas
                      (ct_Price contract) value;
               let fr = fr\<lparr>fr_contract := ReturnGas contract (res_gas r), fr_world := res_world r\<rparr> in
               if res_err r \<noteq> None then Some (push 0 fr)
               else
                 let dataGas = int (length (res_ret r)) * CreateDataGas;
                     fr = (case UseGas (fr_contract fr) dataGas of
                             Some contract \<Rightarrow>
                               set_db (SetCode (fr_db fr) (res_addr r) (res_ret r)) (fr\<lparr>fr_contract := contract\<rparr>)
                           | None \<Rightarrow> fr) in
                 Some (push (Address_Big (res_addr r)) fr) } }"

definition opCall :: instrFn where
  "opCall env fr =
     do { (gas, fr) \<leftarrow> pop fr; (addr, fr) \<leftarrow> pop fr; (value, fr) \<leftarrow> pop fr;
          let value = U256 value in
          do { (inOffset, fr) \<leftarrow> pop fr; (inSize, fr) \<leftarrow> pop fr;
               (retOffset, fr) \<leftarrow> pop fr; (retSize, fr) \<leftarrow> pop fr;
               args \<leftarrow> Memory_Get (fr_mem fr) (Int64 inOffset) (Int64 inSize);
               let gas = (if length (big_Bytes value) > 0 then gas + CallStipend else gas) in
               do { r \<leftarrow> env_Call env (env_Depth env) (fr_world fr) (fr_self fr) (BigToAddress addr) args
                           gas (ct_Price (fr_contract fr)) value;
                    let fr = fr\<lparr>fr_contract := ReturnGas (fr_contract fr) (res_gas r), fr_world := res_world r\<rparr> in
                    if res_err r \<noteq> None then Some (push 0 fr)
                    else
                      do { m \<leftarrow> Memory_Set (fr_mem fr) (Uint64 retOffset) (Uint64 retSize) (res_ret r);
                           Some (set_mem m (push 1 fr)) } } } }"

definition opCallCode :: instrFn where
  "opCallCode env fr =
     do { (gas, fr) \<leftarrow> pop fr; (addr, fr) \<leftarrow> pop fr; (value, fr) \<leftarrow> pop fr;
          let value = U256 value in
          do { (inOffset, fr) \<leftarrow> pop fr; (inSize, fr) \<leftarrow> pop fr;
               (retOffset, fr) \<leftarrow> pop fr; (retSize, fr) \<leftarrow> pop fr;
               args \<leftarrow> Memory_Get (fr_mem fr) (Int64 inOffset) (Int64 inSize);
               let gas = (if length (big_Bytes value) > 0 then gas + CallStipend else gas) in
               do { r \<leftarrow> env_CallCode env (env_Depth env) (fr_world fr) (fr_self fr) (BigToAddress addr) args
                           gas (ct_Price (fr_contract fr)) value;
                    let fr = fr\<lparr>fr_contract := ReturnGas (fr_contract fr) (res_gas r), fr_world := res_world r\<rparr> in
                    if res_err r \<noteq> None then Some (push 0 fr)
                    else
                      do { m \<leftarrow> Memory_Set (fr_mem fr) (Uint64 retOffset) (Uint64 retSize) (res_ret r);
                           Some (set_mem m (push 1 fr)) } } } }"

definition opSuicide :: instrFn where
  "opSuicide env fr =
     (let (balance, db) = GetBalance (fr_db fr) (fr_self fr) in
      do { (a, fr) \<leftarrow> pop (set_db db fr);
           let db = AddBalance (fr_db fr) (BigToAddress a) balance in
           Some (set_db (snd (Delete db (fr_self fr))) fr) })"

section \<open>Families of instructions\<close>

fun pop_topics :: "nat \<Rightarrow> frame \<Rightarrow> (hash list \<times> frame) option" where
  "pop_topics 0 fr = Some ([], fr)"
| "pop_topics (Suc n) fr =
     do { (x, fr) \<leftarrow> pop fr; (ts, fr) \<leftarrow> pop_topics n fr; Some (BigToHash x # ts, fr) }"

definition makeLog :: "nat \<Rightarrow> instrFn" where
  "makeLog sz env fr =
     do { (mStart, fr) \<leftarrow> pop fr; (mSize, fr) \<leftarrow> pop fr;
          (topics, fr) \<leftarrow> pop_topics sz fr;
          d \<leftarrow> Memory_Get (fr_mem fr) (Int64 mStart) (Int64 mSize);
          let log = NewLog (fr_self fr) topics d (Uint64 (env_BlockNumber env)) in
          Some (set_db (AddLog (fr_db fr) log) fr) }"

definition makePush :: "nat \<Rightarrow> instrFn" where
  "makePush sz env fr =
     do { byts \<leftarrow> getData (ct_Code (fr_contract fr)) (uint (fr_pc fr + 1)) (int sz);
          let fr = push (BytesToBig byts) fr in
          Some (fr\<lparr>fr_pc := fr_pc fr + word_of_nat sz\<rparr>) }"

definition makeDup :: "nat \<Rightarrow> instrFn" where
  "makeDup sz env fr = map_option (\<lambda>st. fr\<lparr>fr_stack := st\<rparr>) (st_dup (fr_stack fr) sz)"

definition makeSwap :: "nat \<Rightarrow> instrFn" where
  "makeSwap sz env fr = map_option (\<lambda>st. fr\<lparr>fr_stack := st\<rparr>) (st_swap (fr_stack fr) (sz + 1))"

section \<open>The jump table\<close>

text \<open>
  The entries that \<open>init\<close> assigns, in the order of the source; the other entries of the array
  are zero, and so not valid. A valid entry without a function is handled by the interpreter.
\<close>

definition jumpTable_entries :: "(OpCode \<times> instrFn option) list" where
  "jumpTable_entries = [
      (ADD, Some opAdd),
      (SUB, Some opSub),
      (MUL, Some opMul),
      (DIV, Some opDiv),
      (SDIV, Some opSdiv),
      (MOD, Some opMod),
      (SMOD, Some opSmod),
      (EXP, Some opExp),
      (SIGNEXTEND, Some opSignExtend),
      (NOT, Some opNot),
      (LT, Some opLt),
      (GT, Some opGt),
      (SLT, Some opSlt),
      (SGT, Some opSgt),
      (EQ, Some opEq),
      (ISZERO, Some opIszero),
      (AND, Some opAnd),
      (OR, Some opOr),
      (XOR, Some opXor),
      (BYTE, Some opByte),
      (ADDMOD, Some opAddmod),
      (MULMOD, Some opMulmod),
      (SHA3, Some opSha3),
      (ADDRESS, Some opAddress),
      (BALANCE, Some opBalance),
      (ORIGIN, Some opOrigin),
      (CALLER, Some opCaller),
      (CALLVALUE, Some opCallValue),
      (CALLDATALOAD, Some opCalldataLoad),
      (CALLDATASIZE, Some opCalldataSize),
      (CALLDATACOPY, Some opCalldataCopy),
      (CODESIZE, Some opCodeSize),
      (EXTCODESIZE, Some opExtCodeSize),
      (CODECOPY, Some opCodeCopy),
      (EXTCODECOPY, Some opExtCodeCopy),
      (GASPRICE, Some opGasprice),
      (BLOCKHASH, Some opBlockhash),
      (COINBASE, Some opCoinbase),
      (TIMESTAMP, Some opTimestamp),
      (NUMBER, Some opNumber),
      (DIFFICULTY, Some opDifficulty),
      (GASLIMIT, Some opGasLimit),
      (POP, Some opPop),
      (MLOAD, Some opMload),
      (MSTORE, Some opMstore),
      (MSTORE8, Some opMstore8),
      (SLOAD, Some opSload),
      (SSTORE, Some opSstore),
      (JUMPDEST, Some opJumpdest),
      (PC, None),
      (MSIZE, Some opMsize),
      (GAS, Some opGas),
      (CREATE, Some opCreate),
      (CALL, Some opCall),
      (CALLCODE, Some opCallCode),
      (LOG0, Some (makeLog 0)),
      (LOG1, Some (makeLog 1)),
      (LOG2, Some (makeLog 2)),
      (LOG3, Some (makeLog 3)),
      (LOG4, Some (makeLog 4)),
      (SWAP1, Some (makeSwap 1)),
      (SWAP2, Some (makeSwap 2)),
      (SWAP3, Some (makeSwap 3)),
      (SWAP4, Some (makeSwap 4)),
      (SWAP5, Some (makeSwap 5)),
      (SWAP6, Some (makeSwap 6)),
      (SWAP7, Some (makeSwap 7)),
      (SWAP8, Some (makeSwap 8)),
      (SWAP9, Some (makeSwap 9)),
      (SWAP10, Some (makeSwap 10)),
      (SWAP11, Some (makeSwap 11)),
      (SWAP12, Some (makeSwap 12)),
      (SWAP13, Some (makeSwap 13)),
      (SWAP14, Some (makeSwap 14)),
      (SWAP15, Some (makeSwap 15)),
      (SWAP16, Some (makeSwap 16)),
      (PUSH1, Some (makePush 1)),
      (PUSH2, Some (makePush 2)),
      (PUSH3, Some (makePush 3)),
      (PUSH4, Some (makePush 4)),
      (PUSH5, Some (makePush 5)),
      (PUSH6, Some (makePush 6)),
      (PUSH7, Some (makePush 7)),
      (PUSH8, Some (makePush 8)),
      (PUSH9, Some (makePush 9)),
      (PUSH10, Some (makePush 10)),
      (PUSH11, Some (makePush 11)),
      (PUSH12, Some (makePush 12)),
      (PUSH13, Some (makePush 13)),
      (PUSH14, Some (makePush 14)),
      (PUSH15, Some (makePush 15)),
      (PUSH16, Some (makePush 16)),
      (PUSH17, Some (makePush 17)),
      (PUSH18, Some (makePush 18)),
      (PUSH19, Some (makePush 19)),
      (PUSH20, Some (makePush 20)),
      (PUSH21, Some (makePush 21)),
      (PUSH22, Some (makePush 22)),
      (PUSH23, Some (makePush 23)),
      (PUSH24, Some (makePush 24)),
      (PUSH25, Some (makePush 25)),
      (PUSH26, Some (makePush 26)),
      (PUSH27, Some (makePush 27)),
      (PUSH28, Some (makePush 28)),
      (PUSH29, Some (makePush 29)),
      (PUSH30, Some (makePush 30)),
      (PUSH31, Some (makePush 31)),
      (PUSH32, Some (makePush 32)),
      (DUP1, Some (makeDup 1)),
      (DUP2, Some (makeDup 2)),
      (DUP3, Some (makeDup 3)),
      (DUP4, Some (makeDup 4)),
      (DUP5, Some (makeDup 5)),
      (DUP6, Some (makeDup 6)),
      (DUP7, Some (makeDup 7)),
      (DUP8, Some (makeDup 8)),
      (DUP9, Some (makeDup 9)),
      (DUP10, Some (makeDup 10)),
      (DUP11, Some (makeDup 11)),
      (DUP12, Some (makeDup 12)),
      (DUP13, Some (makeDup 13)),
      (DUP14, Some (makeDup 14)),
      (DUP15, Some (makeDup 15)),
      (DUP16, Some (makeDup 16)),
      (RETURN, None),
      (SUICIDE, None),
      (JUMP, None),
      (JUMPI, None),
      (STOP, None)]"

definition jumpTable :: "OpCode \<Rightarrow> instrFn option option" where
  "jumpTable op = map_of jumpTable_entries op"

end
