(* ===== verification/Interp.thy ===== *)
theory Interp
  imports Instructions
begin

text \<open>
  The interpreter of the byte code, \<^verbatim>\<open>src/core/vm/vm.go\<close>: the gas and memory requirements of an
  instruction, one iteration of the loop of \<open>Run\<close>, and \<open>Run\<close> with the precompiled contracts and
  the deferred handling of errors. The just-in-time compiler is disabled (\<open>EnableJit\<close> is false by
  default) and the debugging log is left out.
\<close>

section \<open>Gas and memory of an instruction\<close>

type_synonym gas_result = "(vm_error + int \<times> int) \<times> statedb"

definition gas_require :: "stack \<Rightarrow> nat \<Rightarrow> statedb \<Rightarrow> (int \<times> int) \<Rightarrow> gas_result" where
  "gas_require st n db r =
     (case st_require st n of Some err \<Rightarrow> (Inl err, db) | None \<Rightarrow> (Inr r, db))"

text \<open>The switch of \<open>calculateGasAndSize\<close>: the new memory size, the gas and the database.\<close>

definition dynamicGas :: "Contract \<Rightarrow> OpCode \<Rightarrow> statedb \<Rightarrow> stack \<Rightarrow> int \<Rightarrow> gas_result option" where
  "dynamicGas contract op db st gas =
     (if SWAP1 \<le> op \<and> op \<le> SWAP16 then
        Some (gas_require st (unat (op - SWAP1 + 2)) db (0, GasFastestStep))
      else if DUP1 \<le> op \<and> op \<le> DUP16 then
        Some (gas_require st (unat (op - DUP1 + 1)) db (0, GasFastestStep))
      else if LOG0 \<le> op \<and> op \<le> LOG4 then
        let n = unat (op - LOG0) in
        (case st_require st (n + 2) of
           Some err \<Rightarrow> Some (Inl err, db)
         | None \<Rightarrow>
             do { mSize \<leftarrow> st_back st 2; mStart \<leftarrow> st_back st 1;
                  Some (Inr (calcMemSize mStart mSize,
                             gas + LogGas + int n * LogTopicGas + mSize * LogDataGas), db) })
      else if op = EXP then
        do { y \<leftarrow> st_back st 2; Some (Inr (0, gas + int (length (big_Bytes y)) * ExpByteGas), db) }
      else if op = SSTORE then
        (case st_require st 2 of
           Some err \<Rightarrow> Some (Inl err, db)
         | None \<Rightarrow>
             do { y \<leftarrow> st_back st 2; x \<leftarrow> st_back st 1;
                  let (val, db) = GetState db (ct_self contract) (BigToHash x) in
                  Some (if EmptyHash val \<and> \<not> EmptyHash (BigToHash y) then (Inr (0, SstoreSetGas), db)
                        else if \<not> EmptyHash val \<and> EmptyHash (BigToHash y)
                        then (Inr (0, SstoreClearGas), AddRefund db SstoreRefundGas)
                        else (Inr (0, SstoreClearGas), db)) })
      else if op = SUICIDE then
        (let (deleted, db) = IsDeleted db (ct_self contract) in
         Some (Inr (0, gas), if \<not> deleted then AddRefund db SuicideRefundGas else db))
      else if op = MLOAD then
        do { off \<leftarrow> st_peek st; Some (Inr (calcMemSize off 32, gas), db) }
      else if op = MSTORE8 then
        do { off \<leftarrow> st_peek st; Some (Inr (calcMemSize off 1, gas), db) }
      else if op = MSTORE then
        do { off \<leftarrow> st_peek st; Some (Inr (calcMemSize off 32, gas), db) }
      else if op = RETURN then
        do { off \<leftarrow> st_peek st; l \<leftarrow> st_back st 2; Some (Inr (calcMemSize off l, gas), db) }
      else if op = SHA3 then
        do { off \<leftarrow> st_peek st; l \<leftarrow> st_back st 2;
             Some (Inr (calcMemSize off l, gas + toWordSize l * Sha3WordGas), db) }
      else if op = CALLDATACOPY then
        do { off \<leftarrow> st_peek st; l \<leftarrow> st_back st 3;
             Some (Inr (calcMemSize off l, gas + toWordSize l * CopyGas), db) }
      else if op = CODECOPY then
        do { off \<leftarrow> st_peek st; l \<leftarrow> st_back st 3;
             Some (Inr (calcMemSize off l, gas + toWordSize l * CopyGas), db) }
      else if op = EXTCODECOPY then
        do { off \<leftarrow> st_back st 2; l \<leftarrow> st_back st 4;
             Some (Inr (calcMemSize off l, gas + toWordSize l * CopyGas), db) }
      else if op = CREATE then
        do { off \<leftarrow> st_back st 2; l \<leftarrow> st_back st 3; Some (Inr (calcMemSize off l, gas), db) }
      else if op = CALL \<or> op = CALLCODE then
        do { g \<leftarrow> st_back st 1; addr \<leftarrow> st_back st 2; value \<leftarrow> st_back st 3;
             inOff \<leftarrow> st_back st 4; inSize \<leftarrow> st_back st 5;
             retOff \<leftarrow> st_back st 6; retSize \<leftarrow> st_back st 7;
             let gas = gas + g;
                 (ex, db) = (if op = CALL then Exist db (BigToAddress addr) else (True, db));
                 gas = (if \<not> ex then gas + CallNewAccountGas else gas);
                 gas = (if length (big_Bytes value) > 0 then gas + CallValueTransferGas else gas);
                 x = calcMemSize retOff retSize;
                 y = calcMemSize inOff inSize in
             Some (Inr (BigMax x y, gas), db) }
      else Some (Inr (0, gas), db))"

definition calculateGasAndSize :: "Contract \<Rightarrow> OpCode \<Rightarrow> statedb \<Rightarrow> Memory \<Rightarrow> stack \<Rightarrow> gas_result option" where
  "calculateGasAndSize contract op db mem st =
     (case baseCheck op st 0 of
        Inl err \<Rightarrow> Some (Inl err, db)
      | Inr gas \<Rightarrow>
          do { r \<leftarrow> dynamicGas contract op db st gas;
               case r of
                 (Inl err, db) \<Rightarrow> Some (Inl err, db)
               | (Inr (newMemSize, gas), db) \<Rightarrow> Some (Inr (quadMemGas mem newMemSize gas), db) })"

section \<open>One iteration of the loop\<close>

datatype outcome =
    Next frame
  | Halt bytes frame
  | Fail vm_error frame

definition jump :: "vm_env \<Rightarrow> int \<Rightarrow> frame \<Rightarrow> outcome" where
  "jump env dest fr =
     (let contract = fr_contract fr;
          codehash = Sha3Hash (env_crypto env) (ct_Code contract);
          (ok, d) = dests_has (w_dests (fr_world fr)) codehash (ct_Code contract) dest;
          fr = fr\<lparr>fr_world := (fr_world fr)\<lparr>w_dests := d\<rparr>\<rparr> in
      if \<not> ok then Fail (InvalidJumpDest (GetOp contract (Uint64 dest)) dest) fr
      else Next (fr\<lparr>fr_pc := Uint64 dest\<rparr>))"

definition next_pc :: "frame \<Rightarrow> frame" where
  "next_pc fr = fr\<lparr>fr_pc := fr_pc fr + 1\<rparr>"

text \<open>The instructions that the interpreter handles itself.\<close>

definition exec_builtin :: "vm_env \<Rightarrow> OpCode \<Rightarrow> frame \<Rightarrow> outcome option" where
  "exec_builtin env op fr =
     (if op = PC then map_option (\<lambda>fr. Next (next_pc fr)) (opPc (uint (fr_pc fr)) env fr)
      else if op = JUMP then do { (dest, fr) \<leftarrow> pop fr; Some (jump env dest fr) }
      else if op = JUMPI then
        do { (pos, fr) \<leftarrow> pop fr; (cond, fr) \<leftarrow> pop fr;
             Some (if cond \<ge> 1 then jump env pos fr else Next (next_pc fr)) }
      else if op = RETURN then
        do { (offset, fr) \<leftarrow> pop fr; (sz, fr) \<leftarrow> pop fr;
             ret \<leftarrow> Memory_GetPtr (fr_mem fr) (Int64 offset) (Int64 sz);
             Some (Halt ret fr) }
      else if op = SUICIDE then map_option (Halt []) (opSuicide env fr)
      else if op = STOP then Some (Halt [] fr)
      else Some (Next (next_pc fr)))"

definition exec_op :: "vm_env \<Rightarrow> OpCode \<Rightarrow> frame \<Rightarrow> outcome option" where
  "exec_op env op fr =
     (case jumpTable op of
        None \<Rightarrow> Some (Fail (InvalidOpcode op) fr)
      | Some (Some fn) \<Rightarrow> map_option (\<lambda>fr. Next (next_pc fr)) (fn env fr)
      | Some None \<Rightarrow> exec_builtin env op fr)"

definition step :: "vm_env \<Rightarrow> frame \<Rightarrow> outcome option" where
  "step env fr =
     (let op = GetOp (fr_contract fr) (fr_pc fr) in
      do { (r, db) \<leftarrow> calculateGasAndSize (fr_contract fr) op (fr_db fr) (fr_mem fr) (fr_stack fr);
           let fr = set_db db fr in
           case r of
             Inl err \<Rightarrow> Some (Fail err fr)
           | Inr (newMemSize, cost) \<Rightarrow>
               (case UseGas (fr_contract fr) cost of
                  None \<Rightarrow> Some (Fail OutOfGasError fr)
                | Some contract \<Rightarrow>
                    exec_op env op
                      (fr\<lparr>fr_contract := contract, fr_mem := Memory_Resize (fr_mem fr) (Uint64 newMemSize)\<rparr>)) })"

text \<open>
  The loop, with fuel: every iteration that continues uses gas, so a fuel above the gas of the
  contract is enough (\<open>run_loop_total\<close>).
\<close>

primrec run_loop :: "nat \<Rightarrow> vm_env \<Rightarrow> frame \<Rightarrow> (bytes \<times> vm_error option \<times> frame) option" where
  "run_loop 0 env fr = None"
| "run_loop (Suc n) env fr =
     (case step env fr of
        None \<Rightarrow> None
      | Some (Next fr) \<Rightarrow> run_loop n env fr
      | Some (Halt ret fr) \<Rightarrow> Some (ret, None, fr)
      | Some (Fail err fr) \<Rightarrow> Some ([], Some err, fr))"

section \<open>Run\<close>

text \<open>
  The result, the error, the gas handed back to the caller and the state. An error uses up the
  gas of the contract.
\<close>

type_synonym run_result = "bytes \<times> vm_error option \<times> int \<times> world"

definition RunPrecompiled :: "vm_env \<Rightarrow> PrecompiledAccount \<Rightarrow> bytes \<Rightarrow> Contract \<Rightarrow> world \<Rightarrow> run_result option" where
  "RunPrecompiled env p input contract w =
     (case UseGas contract (pc_Gas p (length input)) of
        Some contract \<Rightarrow>
          map_option (\<lambda>ret. (ret, None, ct_Gas contract, w)) (pc_fn p (env_crypto env) input)
      | None \<Rightarrow> Some ([], Some OutOfGasError, ct_Gas (UseGas_all contract), w))"

definition new_frame :: "Contract \<Rightarrow> bytes \<Rightarrow> world \<Rightarrow> frame" where
  "new_frame contract input w =
     \<lparr>fr_pc = 0, fr_contract = contract\<lparr>ct_Input := input\<rparr>, fr_mem = NewMemory,
      fr_stack = newstack, fr_world = w\<rparr>"

definition Run :: "nat \<Rightarrow> vm_env \<Rightarrow> Contract \<Rightarrow> bytes \<Rightarrow> world \<Rightarrow> run_result option" where
  "Run fuel env contract input w =
     (let env = env\<lparr>env_Depth := env_Depth env + 1\<rparr> in
      case Option.bind (ct_CodeAddr contract) Precompiled_at of
        Some p \<Rightarrow> RunPrecompiled env p input contract w
      | None \<Rightarrow>
          if length (ct_Code contract) = 0 then Some ([], None, ct_Gas contract, w)
          else
            map_option
              (\<lambda>(ret, err, fr).
                 (ret, err,
                  ct_Gas (if err = None then fr_contract fr else UseGas_all (fr_contract fr)),
                  fr_world fr))
              (run_loop fuel env (new_frame contract input w)))"

end
