(* ===== verification/Exec.thy ===== *)
theory Exec
  imports Interp
begin

text \<open>
  Message calls and contract creation, \<^verbatim>\<open>src/core/execution.go\<close>, and the methods of the
  environment that lead to them, \<^verbatim>\<open>src/core/vm_env.go\<close>.

  \<open>exec\<close> of the source returns the gas through the pointers of the contracts; here the result
  carries what is left for the caller. The database that \<open>MakeSnapshot\<close> copies is restored when
  the run ends with an error.
\<close>

section \<open>exec\<close>

definition CanTransfer :: "statedb \<Rightarrow> address \<Rightarrow> int \<Rightarrow> bool \<times> statedb" where
  "CanTransfer db from amount = (case GetBalance db from of (b, db) \<Rightarrow> (b \<ge> amount, db))"

text \<open>
  \<open>Transfer\<close>. The account \<open>from\<close> is a pointer into the object map; where the creation of the
  account \<open>to\<close> has replaced the object of the same address, the pointer is stale and the debit is
  lost.
\<close>

definition Transfer :: "statedb \<Rightarrow> bool \<Rightarrow> address \<Rightarrow> address \<Rightarrow> int \<Rightarrow> statedb option" where
  "Transfer db stale from to amount =
     (if stale then Account_AddBalance db to amount
      else do { db \<leftarrow> Account_SubBalance db from amount; Account_AddBalance db to amount })"

definition new_address :: "crypto \<Rightarrow> statedb \<Rightarrow> address \<Rightarrow> address \<times> statedb" where
  "new_address cr db caller =
     (let (nonce, db) = GetNonce db caller;
          db = SetNonce db caller (nonce + 1) in
      (CreateAddress cr caller nonce, db))"

text \<open>The account that runs: a new one, or the one at the address, created where there is none.\<close>

definition to_account :: "statedb \<Rightarrow> bool \<Rightarrow> address \<Rightarrow> statedb" where
  "to_account db createAccount a =
     (if createAccount then CreateAccount db a
      else case Exist db a of (ex, db) \<Rightarrow> if \<not> ex then CreateAccount db a else snd (GetStateObject db a))"

definition exec :: "nat \<Rightarrow> vm_env \<Rightarrow> world \<Rightarrow> address \<Rightarrow> address option \<Rightarrow> address option \<Rightarrow> bytes \<Rightarrow> bytes \<Rightarrow>
    int \<Rightarrow> int \<Rightarrow> int \<Rightarrow> call_result option" where
  "exec fuel env w caller addr codeAddr input code gas gasPrice val =
     (if env_Depth env > CallCreateDepth then
        Some \<lparr>res_ret = [], res_addr = 0, res_err = Some DepthError, res_gas = gas, res_world = w\<rparr>
      else
        let (ok, db) = CanTransfer (w_db w) caller val in
        if \<not> ok then
          let (has, db) = GetBalance db caller in
          Some \<lparr>res_ret = [], res_addr = 0, res_err = Some (ValueTransferErr val has), res_gas = gas,
                res_world = w\<lparr>w_db := db\<rparr>\<rparr>
        else
          let createAccount = (addr = None);
              (a, db) = (case addr of None \<Rightarrow> new_address (env_crypto env) db caller | Some a \<Rightarrow> (a, db));
              snapshot = db_Copy db;
              (from, db) = GetStateObject db caller;
              db = to_account db createAccount a in
          do { so \<leftarrow> from;
               db \<leftarrow> Transfer db (createAccount \<and> a = caller) caller a val;
               let contract = SetCallCode (NewContract caller a val gas gasPrice) codeAddr code in
               do { (ret, err, g, w) \<leftarrow> Run fuel env contract input (w\<lparr>w_db := db\<rparr>);
                    let db = (if err \<noteq> None then db_Set (w_db w) snapshot else w_db w) in
                    Some \<lparr>res_ret = ret, res_addr = (if createAccount then a else 0), res_err = err,
                          res_gas = g, res_world = w\<lparr>w_db := db\<rparr>\<rparr> } })"

definition Call :: "nat \<Rightarrow> vm_env \<Rightarrow> world \<Rightarrow> address \<Rightarrow> address \<Rightarrow> bytes \<Rightarrow> int \<Rightarrow> int \<Rightarrow> int \<Rightarrow> call_result option" where
  "Call fuel env w caller addr input gas gasPrice val =
     (let (code, db) = GetCode (w_db w) addr in
      exec fuel env (w\<lparr>w_db := db\<rparr>) caller (Some addr) (Some addr) input code gas gasPrice val)"

definition CallCode :: "nat \<Rightarrow> vm_env \<Rightarrow> world \<Rightarrow> address \<Rightarrow> address \<Rightarrow> bytes \<Rightarrow> int \<Rightarrow> int \<Rightarrow> int \<Rightarrow> call_result option" where
  "CallCode fuel env w caller addr input gas gasPrice val =
     (let prev = caller; (code, db) = GetCode (w_db w) addr in
      exec fuel env (w\<lparr>w_db := db\<rparr>) caller (Some prev) (Some addr) input code gas gasPrice val)"

definition Create :: "nat \<Rightarrow> vm_env \<Rightarrow> world \<Rightarrow> address \<Rightarrow> bytes \<Rightarrow> int \<Rightarrow> int \<Rightarrow> int \<Rightarrow> call_result option" where
  "Create fuel env w caller code gas gasPrice val =
     do { r \<leftarrow> exec fuel env w caller None None [] code gas gasPrice val;
          Some (if res_err r \<noteq> None then r\<lparr>res_ret := []\<rparr> else r) }"

section \<open>The environment\<close>

text \<open>
  The environment whose call methods run nested calls up to \<open>d\<close> levels. \<open>exec\<close> refuses to go
  deeper than \<open>CallCreateDepth\<close>, so 1026 levels are enough (\<open>Exec_Facts\<close>).
\<close>

primrec VMEnv :: "nat \<Rightarrow> nat \<Rightarrow> vm_env \<Rightarrow> vm_env" where
  "VMEnv 0 fuel env =
     env\<lparr>env_Call := \<lambda>depth w caller addr input gas price val. None,
         env_CallCode := \<lambda>depth w caller addr input gas price val. None,
         env_Create := \<lambda>depth w caller code gas price val. None\<rparr>"
| "VMEnv (Suc d) fuel env =
     env\<lparr>env_Call := \<lambda>depth. Call fuel ((VMEnv d fuel env)\<lparr>env_Depth := depth\<rparr>),
         env_CallCode := \<lambda>depth. CallCode fuel ((VMEnv d fuel env)\<lparr>env_Depth := depth\<rparr>),
         env_Create := \<lambda>depth. Create fuel ((VMEnv d fuel env)\<lparr>env_Depth := depth\<rparr>)\<rparr>"

end
