(* ===== verification/World.thy ===== *)
theory World
  imports StateDB
begin

text \<open>
  The invariant of the state database that the virtual machine relies on and keeps, and the
  relation between the states before and after a computation: no account disappears, the total
  supply does not grow, and what belongs to the transaction and not to the accounts is unchanged.
\<close>

definition code_of :: "statedb \<Rightarrow> address \<Rightarrow> bytes" where
  "code_of db a = (case live db a of Some so \<Rightarrow> so_code so | None \<Rightarrow> [])"

text \<open>
  Balances are not negative and their sum is a 256-bit number; the length of a code is an
  \<open>int\<close>, as that of every slice; the refund counter is not negative.
\<close>

definition db_ok :: "statedb \<Rightarrow> bool" where
  "db_ok db \<longleftrightarrow>
     (\<forall>a. 0 \<le> bal db a) \<and> total_supply db < 2 ^ 256 \<and> (\<forall>a. int (length (code_of db a)) < 2 ^ 63) \<and>
     0 \<le> refund db"

definition db_step :: "statedb \<Rightarrow> statedb \<Rightarrow> bool" where
  "db_step db db' \<longleftrightarrow>
     db_ok db' \<and> total_supply db' \<le> total_supply db \<and>
     (\<forall>a. exists_acct db a \<longrightarrow> exists_acct db' a) \<and> same_frame db db'"

lemma db_step_refl [intro]: "db_ok db \<Longrightarrow> db_step db db"
  by (simp add: db_step_def)

lemma db_step_trans: "db_step a b \<Longrightarrow> db_step b c \<Longrightarrow> db_step a c"
  by (auto simp: db_step_def intro: same_frame_trans)

lemma db_step_ok: "db_step db db' \<Longrightarrow> db_ok db'"
  by (simp add: db_step_def)

lemma db_step_exists: "db_step db db' \<Longrightarrow> exists_acct db a \<Longrightarrow> exists_acct db' a"
  by (simp add: db_step_def)

lemma bal_le_total:
  assumes "db_ok db"
  shows "bal db a \<le> total_supply db"
proof -
  have "bal db a \<le> (\<Sum>x\<in>UNIV. bal db x)"
    by (rule member_le_sum) (use assms in \<open>simp_all add: db_ok_def\<close>)
  then show ?thesis by (simp add: total_supply_def)
qed

lemma bal_range: "db_ok db \<Longrightarrow> 0 \<le> bal db a" "db_ok db \<Longrightarrow> bal db a < 2 ^ 256"
  using bal_le_total [of db a] by (auto simp: db_ok_def)

lemma created_code: "so_code (created db a) = []"
  by (simp add: created_def fresh_def so_SetNonce_def NewStateObject_def split: option.split)

lemma obtained_code: "so_code (obtained db a) = code_of db a"
  by (simp add: obtained_def code_of_def fresh_def so_SetNonce_def NewStateObject_def split: option.split)

lemma so_GetState_code [simp]: "so_code (snd (so_GetState so k)) = so_code so"
  by (simp add: so_GetState_def Let_def split: option.split)

lemma code_ops [bal_simps]:
  "code_of (snd (Exist db a)) = code_of db" "code_of (snd (GetBalance db a)) = code_of db"
  "code_of (snd (GetNonce db a)) = code_of db" "code_of (snd (GetCode db a)) = code_of db"
  "code_of (snd (IsDeleted db a)) = code_of db" "code_of (snd (GetState db a k)) = code_of db"
  "code_of (AddBalance db a v) = code_of db"
  "code_of (SetNonce db a n) = code_of db" "code_of (SetCode db a c) = (code_of db)(a := c)"
  "code_of (SetState db a k h) = code_of db" "code_of (CreateAccount db a) = (code_of db)(a := [])"
  "code_of (snd (Delete db a)) = code_of db"
  "code_of (AddRefund db g) = code_of db" "code_of (AddLog db l) = code_of db"
  using obtained_code [of db a] created_code [of db a]
  by (auto simp: code_of_def fun_eq_iff live_simps so_defs split: option.split)

lemma query_results [bal_simps]:
  "fst (GetBalance db a) = bal db a" "fst (GetCode db a) = code_of db a"
  "fst (Exist db a) = exists_acct db a"
  by (simp_all add: live_simps bal_def code_of_def exists_acct_def split: option.split)

lemma refund_GetStateObject [bal_simps]:
  "refund (snd (GetStateObject db a)) = refund db" "refund (snd (CreateStateObject db a)) = refund db"
  "refund (snd (GetOrNewStateObject db a)) = refund db" "refund (put_object db a so) = refund db"
proof -
  show 1: "refund (snd (GetStateObject db a)) = refund db" for db
    by (simp add: GetStateObject_def SetStateObject_def put_object_def Let_def split: option.split)
  show 2: "refund (put_object db a so) = refund db" for db so by (simp add: put_object_def)
  show 3: "refund (snd (CreateStateObject db a)) = refund db" for db
    by (simp add: CreateStateObject_def newStateObject_def Let_def case_prod_beta 1 2 split: option.split)
  show "refund (snd (GetOrNewStateObject db a)) = refund db"
    using 1 [of db]
    by (auto simp: GetOrNewStateObject_def Let_def case_prod_beta 3 split: option.split prod.split)
qed

lemma refund_ops [bal_simps]:
  "refund (snd (Exist db a)) = refund db" "refund (snd (GetBalance db a)) = refund db"
  "refund (snd (GetNonce db a)) = refund db" "refund (snd (GetCode db a)) = refund db"
  "refund (snd (IsDeleted db a)) = refund db" "refund (snd (GetState db a k)) = refund db"
  "refund (AddBalance db a v) = refund db" "refund (SetNonce db a n) = refund db"
  "refund (SetCode db a c) = refund db" "refund (SetState db a k h) = refund db"
  "refund (CreateAccount db a) = refund db" "refund (snd (Delete db a)) = refund db"
  "refund (AddRefund db g) = refund db + g" "refund (AddLog db l) = refund db"
  unfolding Exist_def GetBalance_def GetNonce_def GetCode_def IsDeleted_def GetState_def
    AddBalance_def SetNonce_def SetCode_def SetState_def CreateAccount_def Delete_def
    case_prod_beta live_GetStateObject live_GetOrNewStateObject
  by (simp_all add: refund_GetStateObject AddRefund_def AddLog_def Let_def split: option.split)

lemma refund_Account:
  "Account_SubBalance db a v = Some db' \<Longrightarrow> refund db' = refund db"
  "Account_AddBalance db a v = Some db' \<Longrightarrow> refund db' = refund db"
  unfolding Account_balance_eq by (auto simp: refund_GetStateObject)

lemma total_supply_cong: "bal db' = bal db \<Longrightarrow> total_supply db' = total_supply db"
  by (simp add: total_supply_def)

lemma db_step_same_balances:
  assumes "db_ok db" and "bal db' = bal db"
    and "\<And>a. code_of db' a = code_of db a \<or> int (length (code_of db' a)) < 2 ^ 63"
    and "\<And>a. exists_acct db a \<Longrightarrow> exists_acct db' a" and "same_frame db db'"
    and "refund db \<le> refund db'"
  shows "db_step db db'"
proof -
  have "int (length (code_of db' a)) < 2 ^ 63" for a
    using assms(1) assms(3) [of a] unfolding db_ok_def by (elim disjE) simp_all
  then show ?thesis
    using assms total_supply_cong [OF assms(2)] by (simp add: db_step_def db_ok_def)
qed

lemma db_step_queries:
  assumes "db_ok db"
  shows "db_step db (snd (Exist db a))" "db_step db (snd (GetBalance db a))"
    "db_step db (snd (GetNonce db a))" "db_step db (snd (GetCode db a))"
    "db_step db (snd (IsDeleted db a))" "db_step db (snd (GetState db a k))"
  by (rule db_step_same_balances; simp add: assms bal_simps)+

lemma db_step_setters:
  assumes "db_ok db"
  shows "db_step db (SetNonce db a n)" "db_step db (SetState db a k h)"
    "db_step db (CreateAccount db a)" "0 \<le> g \<Longrightarrow> db_step db (AddRefund db g)" "db_step db (AddLog db l)"
    "int (length c) < 2 ^ 63 \<Longrightarrow> db_step db (SetCode db a c)"
  by (rule db_step_same_balances; simp add: assms bal_simps)+

text \<open>A suicide moves the balance to the beneficiary; it is lost where the beneficiary is the account itself.\<close>

lemma total_supply_suicide:
  fixes db :: statedb and a b :: address
  defines "db' \<equiv> snd (Delete (AddBalance db b (bal db a)) a)"
  shows "total_supply db' = total_supply db - (if a = b then bal db a else 0)"
proof -
  have "bal db' = (bal (AddBalance db b (bal db a)))(a := 0)"
    by (simp add: db'_def bal_simps)
  then have "total_supply db' =
      total_supply (AddBalance db b (bal db a)) - bal (AddBalance db b (bal db a)) a + 0"
    by (rule total_supply_upd)
  moreover have "total_supply (AddBalance db b (bal db a)) = total_supply db - bal db b + (bal db b + bal db a)"
    by (rule total_supply_upd) (simp add: bal_simps)
  ultimately show ?thesis by (simp add: bal_simps)
qed

lemma db_step_suicide:
  assumes "db_ok db"
  shows "db_step db (snd (Delete (AddBalance db b (bal db a)) a))"
proof -
  have "total_supply (snd (Delete (AddBalance db b (bal db a)) a)) \<le> total_supply db"
    using total_supply_suicide [of db b a] bal_range(1) [OF assms, of a] by auto
  then show ?thesis using assms by (auto simp: db_step_def db_ok_def bal_simps)
qed

text \<open>A transfer between existing accounts.\<close>

lemma code_Account:
  "Account_SubBalance db a v = Some db' \<Longrightarrow> code_of db' = code_of db"
  "Account_AddBalance db a v = Some db' \<Longrightarrow> code_of db' = code_of db"
  by (auto dest!: live_Account(3,4) simp: code_of_def fun_eq_iff so_defs split: option.splits if_splits)

lemma db_step_transfer:
  assumes "db_ok db" and "Option.bind (Account_SubBalance db a v) (\<lambda>db. Account_AddBalance db b v) = Some db'"
    and "0 \<le> v" "v \<le> bal db a"
  shows "db_step db db'"
proof -
  from assms(2) obtain db1 where
    1: "Account_SubBalance db a v = Some db1" "Account_AddBalance db1 b v = Some db'"
    by (auto simp: bind_eq_Some_conv)
  have "total_supply db' = total_supply db"
    using sdb.transfer_total [OF assms(2)] by (simp add: total_supply_def)
  moreover have "\<forall>x. 0 \<le> bal db' x"
    using sdb.transfer_nonneg [OF assms(2)] assms by (simp add: db_ok_def)
  moreover have "exists_acct db' = exists_acct db"
    using sdb.transfer_present [OF assms(2)] .
  moreover have "code_of db' = code_of db" "refund db' = refund db"
    using code_Account refund_Account 1 by simp_all
  moreover have "same_frame db db'"
    using live_Account(5) [OF 1(1), of db] live_Account(6) [OF 1(2), of db] by simp
  ultimately show ?thesis using assms(1) by (simp add: db_step_def db_ok_def)
qed

end
