(* ===== verification/Instr_Facts.thy ===== *)
theory Instr_Facts
  imports Instructions World
begin

text \<open>
  Every instruction function is defined on a well-formed frame that has the operands and the
  memory it needs, keeps the frame well-formed, and pops and pushes as many items as the gas table
  says. The requirements on the operands are those that the gas calculation establishes.
\<close>

section \<open>Well-formed frames\<close>

definition contract_ok :: "Contract \<Rightarrow> bool" where
  "contract_ok c \<longleftrightarrow>
     is_u256 (ct_value c) \<and> is_u256 (ct_Price c) \<and> 0 \<le> ct_Gas c \<and> ct_Gas c < 2 ^ 63 \<and>
     int (length (ct_Code c)) < 2 ^ 63 \<and> int (length (ct_Input c)) < 2 ^ 63"

definition frame_ok :: "frame \<Rightarrow> bool" where
  "frame_ok fr \<longleftrightarrow>
     wf_stack (fr_stack fr) \<and> st_len (fr_stack fr) \<le> 1024 \<and>
     wf_mem (fr_mem fr) \<and> int (Memory_Len (fr_mem fr)) < 2 ^ 63 \<and>
     contract_ok (fr_contract fr) \<and> db_ok (fr_db fr) \<and> exists_acct (fr_db fr) (fr_self fr)"

text \<open>What an instruction that calls no contract does to a frame.\<close>

definition pure_step :: "nat \<Rightarrow> nat \<Rightarrow> frame \<Rightarrow> frame \<Rightarrow> bool" where
  "pure_step p q fr fr' \<longleftrightarrow>
     fr_contract fr' = fr_contract fr \<and> Memory_Len (fr_mem fr') = Memory_Len (fr_mem fr) \<and>
     wf_stack (fr_stack fr') \<and> st_len (fr_stack fr') + p = st_len (fr_stack fr) + q \<and>
     db_step (fr_db fr) (fr_db fr')"

definition op_total :: "nat \<Rightarrow> nat \<Rightarrow> (stack \<Rightarrow> int \<Rightarrow> bool) \<Rightarrow> instrFn \<Rightarrow> bool" where
  "op_total p q R f \<longleftrightarrow>
     (\<forall>env fr. crypto_ok (env_crypto env) \<longrightarrow> frame_ok fr \<longrightarrow> p \<le> st_len (fr_stack fr) \<longrightarrow>
        R (fr_stack fr) (int (Memory_Len (fr_mem fr))) \<longrightarrow>
        (\<exists>fr'. f env fr = Some fr' \<and> pure_step p q fr fr'))"

lemma op_totalI:
  assumes "\<And>env fr. crypto_ok (env_crypto env) \<Longrightarrow> frame_ok fr \<Longrightarrow> p \<le> st_len (fr_stack fr) \<Longrightarrow>
      R (fr_stack fr) (int (Memory_Len (fr_mem fr))) \<Longrightarrow> \<exists>fr'. f env fr = Some fr' \<and> pure_step p q fr fr'"
  shows "op_total p q R f"
  using assms by (simp add: op_total_def)

lemma op_totalD:
  assumes "op_total p q R f" "crypto_ok (env_crypto env)" "frame_ok fr" "p \<le> st_len (fr_stack fr)"
    "R (fr_stack fr) (int (Memory_Len (fr_mem fr)))"
  obtains fr' where "f env fr = Some fr'" "pure_step p q fr fr'"
  using assms by (auto simp: op_total_def)

text \<open>Instructions without requirements on their operands.\<close>

definition no_req :: "stack \<Rightarrow> int \<Rightarrow> bool" where
  "no_req st m \<longleftrightarrow> True"

text \<open>The memory from offset \<open>stack[i]\<close> of length \<open>stack[j]\<close> has been allocated.\<close>

definition mem_req :: "nat \<Rightarrow> nat \<Rightarrow> stack \<Rightarrow> int \<Rightarrow> bool" where
  "mem_req i j st m \<longleftrightarrow> (\<forall>off l. st_back st i = Some off \<longrightarrow> st_back st j = Some l \<longrightarrow> calcMemSize off l \<le> m)"

definition mem_req_const :: "nat \<Rightarrow> int \<Rightarrow> stack \<Rightarrow> int \<Rightarrow> bool" where
  "mem_req_const i l st m \<longleftrightarrow> (\<forall>off. st_back st i = Some off \<longrightarrow> calcMemSize off l \<le> m)"

section \<open>Popping operands\<close>

named_theorems frame_simps \<open>components of updated frames\<close>

lemma frame_upd [frame_simps]:
  "fr_stack (push x fr) = st_push (fr_stack fr) x" "fr_mem (push x fr) = fr_mem fr"
  "fr_contract (push x fr) = fr_contract fr" "fr_world (push x fr) = fr_world fr"
  "fr_pc (push x fr) = fr_pc fr"
  "fr_stack (set_db db fr) = fr_stack fr" "fr_mem (set_db db fr) = fr_mem fr"
  "fr_contract (set_db db fr) = fr_contract fr" "fr_world (set_db db fr) = (fr_world fr)\<lparr>w_db := db\<rparr>"
  "fr_pc (set_db db fr) = fr_pc fr"
  "fr_stack (set_mem m fr) = fr_stack fr" "fr_mem (set_mem m fr) = m"
  "fr_contract (set_mem m fr) = fr_contract fr" "fr_world (set_mem m fr) = fr_world fr"
  "fr_pc (set_mem m fr) = fr_pc fr"
  by (simp_all add: push_def set_db_def set_mem_def)

lemma pop1:
  assumes "wf_stack (fr_stack fr)" "1 \<le> st_len (fr_stack fr)"
  obtains x st where "pop fr = Some (x, fr\<lparr>fr_stack := st\<rparr>)" "is_u256 x" "wf_stack st"
    "st_len (fr_stack fr) = st_len st + 1" "st_back (fr_stack fr) 1 = Some x"
    "\<And>n. 0 < n \<Longrightarrow> st_back (fr_stack fr) (Suc n) = st_back st n"
proof -
  obtain x st where p: "st_pop (fr_stack fr) = Some (x, st)" and l: "st_len (fr_stack fr) = Suc (st_len st)"
    using assms(2) st_pop_defined [of "fr_stack fr"] by auto
  show thesis
  proof (rule that)
    show "pop fr = Some (x, fr\<lparr>fr_stack := st\<rparr>)" by (simp add: pop_def p)
  qed (use p l assms(1) st_pop_wf [OF p] st_back_pop [OF p] in auto)
qed

lemma pop2:
  assumes "wf_stack (fr_stack fr)" "2 \<le> st_len (fr_stack fr)"
  obtains x y st1 st where "pop fr = Some (x, fr\<lparr>fr_stack := st1\<rparr>)"
    "pop (fr\<lparr>fr_stack := st1\<rparr>) = Some (y, fr\<lparr>fr_stack := st\<rparr>)" "is_u256 x" "is_u256 y" "wf_stack st"
    "st_len (fr_stack fr) = st_len st + 2"
    "st_back (fr_stack fr) 1 = Some x" "st_back (fr_stack fr) 2 = Some y"
    "\<And>n. 0 < n \<Longrightarrow> st_back (fr_stack fr) (Suc (Suc n)) = st_back st n"
proof -
  obtain x st1 where 1: "pop fr = Some (x, fr\<lparr>fr_stack := st1\<rparr>)" "is_u256 x" "wf_stack st1"
    "st_len (fr_stack fr) = st_len st1 + 1" "st_back (fr_stack fr) 1 = Some x"
    "\<And>n. 0 < n \<Longrightarrow> st_back (fr_stack fr) (Suc n) = st_back st1 n"
    using assms by (elim pop1 [of fr]) auto
  obtain y st where 2: "pop (fr\<lparr>fr_stack := st1\<rparr>) = Some (y, fr\<lparr>fr_stack := st\<rparr>)" "is_u256 y" "wf_stack st"
    "st_len st1 = st_len st + 1" "st_back st1 1 = Some y"
    "\<And>n. 0 < n \<Longrightarrow> st_back st1 (Suc n) = st_back st n"
    by (rule pop1 [of "fr\<lparr>fr_stack := st1\<rparr>"]) (use 1 assms in auto)
  show thesis
    by (rule that [OF 1(1) 2(1) 1(2) 2(2,3)])
       (use 1 2 1(6) [of 1] in \<open>simp_all add: numeral_2_eq_2\<close>)
qed

lemma pop3:
  assumes "wf_stack (fr_stack fr)" "3 \<le> st_len (fr_stack fr)"
  obtains x y z st1 st2 st where "pop fr = Some (x, fr\<lparr>fr_stack := st1\<rparr>)"
    "pop (fr\<lparr>fr_stack := st1\<rparr>) = Some (y, fr\<lparr>fr_stack := st2\<rparr>)"
    "pop (fr\<lparr>fr_stack := st2\<rparr>) = Some (z, fr\<lparr>fr_stack := st\<rparr>)" "is_u256 x" "is_u256 y" "is_u256 z"
    "wf_stack st" "st_len (fr_stack fr) = st_len st + 3"
    "st_back (fr_stack fr) 1 = Some x" "st_back (fr_stack fr) 2 = Some y" "st_back (fr_stack fr) 3 = Some z"
    "\<And>n. 0 < n \<Longrightarrow> st_back (fr_stack fr) (Suc (Suc (Suc n))) = st_back st n"
proof -
  obtain x y st1 st2 where 1: "pop fr = Some (x, fr\<lparr>fr_stack := st1\<rparr>)"
    "pop (fr\<lparr>fr_stack := st1\<rparr>) = Some (y, fr\<lparr>fr_stack := st2\<rparr>)" "is_u256 x" "is_u256 y" "wf_stack st2"
    "st_len (fr_stack fr) = st_len st2 + 2"
    "st_back (fr_stack fr) 1 = Some x" "st_back (fr_stack fr) 2 = Some y"
    "\<And>n. 0 < n \<Longrightarrow> st_back (fr_stack fr) (Suc (Suc n)) = st_back st2 n"
    using assms by (elim pop2 [of fr]) auto
  obtain z st where 2: "pop (fr\<lparr>fr_stack := st2\<rparr>) = Some (z, fr\<lparr>fr_stack := st\<rparr>)" "is_u256 z" "wf_stack st"
    "st_len st2 = st_len st + 1" "st_back st2 1 = Some z"
    "\<And>n. 0 < n \<Longrightarrow> st_back st2 (Suc n) = st_back st n"
    by (rule pop1 [of "fr\<lparr>fr_stack := st2\<rparr>"]) (use 1 assms in auto)
  show thesis
    by (rule that [OF 1(1,2) 2(1) 1(3,4) 2(2,3)])
       (use 1 2 1(9) [of 1] in \<open>simp_all add: numeral_eq_Suc\<close>)
qed

section \<open>Instructions that only compute\<close>

lemma frame_okD:
  assumes "frame_ok fr"
  shows "wf_stack (fr_stack fr)" "db_ok (fr_db fr)" "contract_ok (fr_contract fr)"
    "int (Memory_Len (fr_mem fr)) < 2 ^ 63" "exists_acct (fr_db fr) (fr_self fr)"
  using assms by (simp_all add: frame_ok_def)

lemma op_total_0_1:
  assumes "\<And>env fr. f env fr = Some (push (g env fr) fr)"
    and "\<And>env fr. crypto_ok (env_crypto env) \<Longrightarrow> frame_ok fr \<Longrightarrow> is_u256 (g env fr)"
  shows "op_total 0 1 no_req f"
  by (rule op_totalI)
     (use assms in \<open>auto simp: pure_step_def frame_simps intro: frame_okD\<close>)

lemma op_total_1_1:
  assumes "\<And>env fr. f env fr = do { (x, fr) \<leftarrow> pop fr; Some (push (g env x) fr) }"
    and "\<And>env x. is_u256 x \<Longrightarrow> is_u256 (g env x)"
  shows "op_total 1 1 no_req f"
proof (rule op_totalI)
  fix env fr
  assume ok: "frame_ok fr" and "1 \<le> st_len (fr_stack fr)"
  then obtain x st where "pop fr = Some (x, fr\<lparr>fr_stack := st\<rparr>)" "is_u256 x" "wf_stack st"
    "st_len (fr_stack fr) = st_len st + 1"
    by (elim pop1 [of fr, OF frame_okD(1)]) auto
  then show "\<exists>fr'. f env fr = Some fr' \<and> pure_step 1 1 fr fr'"
    using ok assms by (auto simp: pure_step_def frame_simps intro: frame_okD)
qed

lemma op_total_2_1:
  assumes "\<And>env fr. f env fr = do { (x, fr) \<leftarrow> pop fr; (y, fr) \<leftarrow> pop fr; Some (push (g x y) fr) }"
    and "\<And>x y. is_u256 x \<Longrightarrow> is_u256 y \<Longrightarrow> is_u256 (g x y)"
  shows "op_total 2 1 no_req f"
proof (rule op_totalI)
  fix env fr
  assume ok: "frame_ok fr" and "2 \<le> st_len (fr_stack fr)"
  then obtain x y st1 st where "pop fr = Some (x, fr\<lparr>fr_stack := st1\<rparr>)"
    "pop (fr\<lparr>fr_stack := st1\<rparr>) = Some (y, fr\<lparr>fr_stack := st\<rparr>)"
    "is_u256 x" "is_u256 y" "wf_stack st" "st_len (fr_stack fr) = st_len st + 2"
    by (elim pop2 [of fr, OF frame_okD(1)]) auto
  then show "\<exists>fr'. f env fr = Some fr' \<and> pure_step 2 1 fr fr'"
    using ok assms by (auto simp: pure_step_def frame_simps intro: frame_okD)
qed

lemma op_total_3_1:
  assumes "\<And>env fr. f env fr =
      do { (x, fr) \<leftarrow> pop fr; (y, fr) \<leftarrow> pop fr; (z, fr) \<leftarrow> pop fr; Some (push (g x y z) fr) }"
    and "\<And>x y z. is_u256 x \<Longrightarrow> is_u256 y \<Longrightarrow> is_u256 z \<Longrightarrow> is_u256 (g x y z)"
  shows "op_total 3 1 no_req f"
proof (rule op_totalI)
  fix env fr
  assume ok: "frame_ok fr" and "3 \<le> st_len (fr_stack fr)"
  then obtain x y z st1 st2 st where "pop fr = Some (x, fr\<lparr>fr_stack := st1\<rparr>)"
    "pop (fr\<lparr>fr_stack := st1\<rparr>) = Some (y, fr\<lparr>fr_stack := st2\<rparr>)"
    "pop (fr\<lparr>fr_stack := st2\<rparr>) = Some (z, fr\<lparr>fr_stack := st\<rparr>)"
    "is_u256 x" "is_u256 y" "is_u256 z" "wf_stack st" "st_len (fr_stack fr) = st_len st + 3"
    by (elim pop3 [of fr, OF frame_okD(1)]) auto
  then show "\<exists>fr'. f env fr = Some fr' \<and> pure_step 3 1 fr fr'"
    using ok assms by (auto simp: pure_step_def frame_simps intro: frame_okD)
qed

lemma is_u256_simps [simp]:
  "is_u256 (U256 x)" "is_u256 0" "is_u256 1" "is_u256 (Hash_Big h)" "is_u256 (Address_Big a)"
  unfolding is_u256_def using U256_range Hash_Big_range Address_Big_range by simp_all

lemma big_bits_u256:
  assumes "is_u256 x" "is_u256 y"
  shows "is_u256 (big_And x y)" "is_u256 (big_Or x y)" "is_u256 (big_Xor x y)"
proof -
  have "x = take_bit 256 x" "y = take_bit 256 y"
    using assms by (simp_all add: is_u256_def take_bit_int_eq_self)
  then have "take_bit 256 (big_And x y) = big_And x y" "take_bit 256 (big_Or x y) = big_Or x y"
    "take_bit 256 (big_Xor x y) = big_Xor x y"
    unfolding big_And_def big_Or_def big_Xor_def
    by (metis take_bit_and take_bit_or take_bit_xor)+
  then show "is_u256 (big_And x y)" "is_u256 (big_Or x y)" "is_u256 (big_Xor x y)"
    unfolding is_u256_def by (metis take_bit_nonnegative take_bit_int_less_exp)+
qed

lemma op_total_arith:
  "op_total 2 1 no_req opAdd" "op_total 2 1 no_req opSub" "op_total 2 1 no_req opMul"
  "op_total 2 1 no_req opDiv" "op_total 2 1 no_req opMod" "op_total 2 1 no_req opExp"
  by (rule op_total_2_1, (rule opAdd_def opSub_def opMul_def opDiv_def opMod_def opExp_def), simp)+

lemma op_total_signed:
  "op_total 2 1 no_req opSdiv" "op_total 2 1 no_req opSmod"
  "op_total 2 1 no_req opSlt" "op_total 2 1 no_req opSgt"
proof -
  show "op_total 2 1 no_req opSdiv"
    by (rule op_total_2_1 [where g = "\<lambda>x y. if S256 y = 0 then 0
          else U256 (\<bar>S256 x\<bar> div \<bar>S256 y\<bar> * (if S256 x * S256 y < 0 then - 1 else 1))"])
       (simp_all add: opSdiv_def Let_def if_distrib [of Some] if_distrib [of "\<lambda>v. push v fr" for fr] cong: if_cong)
  show "op_total 2 1 no_req opSmod"
    by (rule op_total_2_1 [where g = "\<lambda>x y. if S256 y = 0 then 0
          else U256 (\<bar>S256 x\<bar> mod \<bar>S256 y\<bar> * (if S256 x < 0 then - 1 else 1))"])
       (simp_all add: opSmod_def Let_def if_distrib [of Some] if_distrib [of "\<lambda>v. push v fr" for fr] cong: if_cong)
  show "op_total 2 1 no_req opSlt" "op_total 2 1 no_req opSgt"
    by (rule op_total_2_1, (simp only: opSlt_def opSgt_def Let_def), simp)+
qed

lemma op_total_logic:
  "op_total 2 1 no_req opLt" "op_total 2 1 no_req opGt" "op_total 2 1 no_req opEq"
  "op_total 2 1 no_req opAnd" "op_total 2 1 no_req opOr" "op_total 2 1 no_req opXor"
  by (rule op_total_2_1, (rule opLt_def opGt_def opEq_def opAnd_def opOr_def opXor_def),
      simp add: big_bits_u256)+

lemma op_total_unary: "op_total 1 1 no_req opNot" "op_total 1 1 no_req opIszero"
  by (rule op_total_1_1, (rule opNot_def opIszero_def), simp)+

lemma op_total_modular: "op_total 3 1 no_req opAddmod" "op_total 3 1 no_req opMulmod"
  by (rule op_total_3_1, (rule opAddmod_def opMulmod_def), simp)+

lemma BytesToBig_u256: "length bs \<le> 32 \<Longrightarrow> is_u256 (BytesToBig bs)"
proof -
  assume "length bs \<le> 32"
  then have "(256::int) ^ length bs \<le> 256 ^ 32" by (intro power_increasing) simp_all
  then show ?thesis
    using SetBytes_bound [of bs] by (simp add: is_u256_def BytesToBig_def)
qed

lemma BytesToBig_Address [simp]: "BytesToBig (Address_Bytes a) = Address_Big a"
  by (simp add: BytesToBig_def Address_Bytes_def Address_Big_def big_SetBytes_def)

lemma is_u256_small: "0 \<le> x \<Longrightarrow> x < 2 ^ 63 \<Longrightarrow> is_u256 x"
  by (simp add: is_u256_def)

lemma op_total_nullary:
  "op_total 0 1 no_req opAddress" "op_total 0 1 no_req opOrigin" "op_total 0 1 no_req opCaller"
  "op_total 0 1 no_req opCoinbase" "op_total 0 1 no_req opTimestamp" "op_total 0 1 no_req opNumber"
  "op_total 0 1 no_req opDifficulty" "op_total 0 1 no_req opGasLimit"
  by (rule op_total_0_1, (rule opAddress_def opOrigin_def opCaller_def opCoinbase_def
      opTimestamp_def opNumber_def opDifficulty_def opGasLimit_def), simp)+

lemma op_total_context:
  "op_total 0 1 no_req opCallValue" "op_total 0 1 no_req opGasprice" "op_total 0 1 no_req opCalldataSize"
  "op_total 0 1 no_req opCodeSize" "op_total 0 1 no_req opMsize" "op_total 0 1 no_req opGas"
  by (rule op_total_0_1, (rule opCallValue_def opGasprice_def opCalldataSize_def opCodeSize_def
      opMsize_def opGas_def), simp add: frame_ok_def contract_ok_def is_u256_small)+

lemma op_total_opPc: "op_total 0 1 no_req (opPc (uint (pc :: uint64)))"
proof (rule op_total_0_1, rule opPc_def)
  have "uint pc < 2 ^ 64" using uint_lt2p [of pc] by simp
  then show "is_u256 (uint pc)" by (simp add: is_u256_def)
qed

lemma frame_stack_inject: "fr\<lparr>fr_stack := a\<rparr> = fr\<lparr>fr_stack := b\<rparr> \<longleftrightarrow> a = b"
  by (cases fr) simp

lemma op_total_opSignExtend: "op_total 2 1 no_req opSignExtend"
proof (rule op_totalI)
  fix env fr
  assume ok: "frame_ok fr" and "2 \<le> st_len (fr_stack fr)"
  then obtain x y st1 st where p: "pop fr = Some (x, fr\<lparr>fr_stack := st1\<rparr>)"
    "pop (fr\<lparr>fr_stack := st1\<rparr>) = Some (y, fr\<lparr>fr_stack := st\<rparr>)"
    "is_u256 x" "is_u256 y" "wf_stack st" "st_len (fr_stack fr) = st_len st + 2"
    by (elim pop2 [of fr, OF frame_okD(1)]) auto
  have "wf_stack st1 \<and> st_len st1 = st_len st + 1"
    using p by (auto simp: pop_def frame_stack_inject dest: st_pop_wf st_pop_len)
  then show "\<exists>fr'. opSignExtend env fr = Some fr' \<and> pure_step 2 1 fr fr'"
    using ok p
    by (cases "x < 31") (auto simp: opSignExtend_def Let_def pure_step_def frame_simps intro: frame_okD)
qed

lemma op_total_opByte: "op_total 2 1 no_req opByte"
proof (rule op_totalI)
  fix env fr
  assume ok: "frame_ok fr" and "2 \<le> st_len (fr_stack fr)"
  then obtain x y st1 st where p: "pop fr = Some (x, fr\<lparr>fr_stack := st1\<rparr>)"
    "pop (fr\<lparr>fr_stack := st1\<rparr>) = Some (y, fr\<lparr>fr_stack := st\<rparr>)"
    "is_u256 x" "is_u256 y" "wf_stack st" "st_len (fr_stack fr) = st_len st + 2"
    by (elim pop2 [of fr, OF frame_okD(1)]) auto
  show "\<exists>fr'. opByte env fr = Some fr' \<and> pure_step 2 1 fr fr'"
  proof (cases "x < 32")
    case True
    then have i: "Int64 x = x" "0 \<le> x" using p(3) by (simp_all add: is_u256_def Int64_small)
    have "nat x < length (LeftPadBytes (big_Bytes y) 32)"
      using True i by (simp add: length_LeftPadBytes nat_less_iff)
    moreover have "is_u256 (uint b)" for b :: byte
      using uint_lt2p [of b] by (simp add: is_u256_def)
    ultimately show ?thesis
      using ok p True i
      by (auto simp: opByte_def index_def pure_step_def frame_simps intro: frame_okD)
  next
    case False
    then show ?thesis
      using ok p by (auto simp: opByte_def pure_step_def frame_simps intro: frame_okD)
  qed
qed

section \<open>Instructions that read the database\<close>

lemma is_u256_bal: "db_ok db \<Longrightarrow> is_u256 (bal db a)"
  using bal_range [of db a] by (simp add: is_u256_def)

lemma is_u256_code: "db_ok db \<Longrightarrow> is_u256 (int (length (code_of db a)))"
  by (rule is_u256_small) (simp_all add: db_ok_def)

lemma query_op_total:
  assumes "\<And>env fr. f env fr =
      do { (x, fr) \<leftarrow> pop fr; let (r, db) = q fr x in Some (push (g r) (set_db db fr)) }"
    and "\<And>fr st x. frame_ok fr \<Longrightarrow> is_u256 (g (fst (q (fr\<lparr>fr_stack := st\<rparr>) x)))"
    and "\<And>fr st x. frame_ok fr \<Longrightarrow> db_step (fr_db fr) (snd (q (fr\<lparr>fr_stack := st\<rparr>) x))"
  shows "op_total 1 1 no_req f"
proof (rule op_totalI)
  fix env fr
  assume ok: "frame_ok fr" and "1 \<le> st_len (fr_stack fr)"
  then obtain x st where p: "pop fr = Some (x, fr\<lparr>fr_stack := st\<rparr>)" "is_u256 x" "wf_stack st"
    "st_len (fr_stack fr) = st_len st + 1"
    by (elim pop1 [of fr, OF frame_okD(1)]) auto
  let ?q = "q (fr\<lparr>fr_stack := st\<rparr>) x"
  have "f env fr = Some (push (g (fst ?q)) (set_db (snd ?q) (fr\<lparr>fr_stack := st\<rparr>)))"
    by (simp add: assms(1) p(1) case_prod_beta)
  then show "\<exists>fr'. f env fr = Some fr' \<and> pure_step 1 1 fr fr'"
    using ok p assms(2,3) by (auto simp: pure_step_def frame_simps)
qed

lemma op_total_queries:
  "op_total 1 1 no_req opBalance" "op_total 1 1 no_req opExtCodeSize" "op_total 1 1 no_req opSload"
  by (rule query_op_total, (rule opBalance_def opExtCodeSize_def opSload_def),
      simp add: bal_simps is_u256_bal is_u256_code frame_okD, simp add: db_step_queries frame_okD)+

section \<open>Instructions on memory\<close>

lemma mem_size_small:
  assumes "is_u256 off" "is_u256 l" "calcMemSize off l \<le> int n" "int n < 2 ^ 63"
  shows "l < 2 ^ 63" "Int64 l = l" "l \<noteq> 0 \<Longrightarrow> Int64 off = off" "0 \<le> off" "0 \<le> l"
proof -
  show 0: "0 \<le> off" "0 \<le> l" using assms(1,2) by (simp_all add: is_u256_def)
  have l: "l \<noteq> 0 \<Longrightarrow> off + l < 2 ^ 63" using assms(3,4) by (simp add: calcMemSize_def)
  then show 1: "l < 2 ^ 63" using 0 by (cases "l = 0") simp_all
  show "Int64 l = l" using Int64_small [OF 0(2) 1] .
  show "l \<noteq> 0 \<Longrightarrow> Int64 off = off" using 0 l by (intro Int64_small) simp_all
qed

lemma Memory_Get_op:
  assumes "is_u256 off" "is_u256 l" "calcMemSize off l \<le> int (Memory_Len m)" "int (Memory_Len m) < 2 ^ 63"
  shows "\<exists>bs. Memory_Get m (Int64 off) (Int64 l) = Some bs \<and> int (length bs) = l"
proof (cases "l = 0")
  case True
  then show ?thesis using mem_size_small [OF assms] by (simp add: Memory_Get_def)
next
  case False
  then show ?thesis
    using mem_size_small [OF assms] Memory_Get_defined [of off l m] assms(3) by simp
qed

lemma Memory_GetPtr_op:
  assumes "is_u256 off" "is_u256 l" "calcMemSize off l \<le> int (Memory_Len m)" "int (Memory_Len m) < 2 ^ 63"
  shows "\<exists>bs. Memory_GetPtr m (Int64 off) (Int64 l) = Some bs \<and> int (length bs) = l"
proof (cases "l = 0")
  case True
  then show ?thesis using mem_size_small [OF assms] by (simp add: Memory_GetPtr_def)
next
  case False
  then show ?thesis
    using mem_size_small [OF assms] Memory_Get_defined [of off l m] Memory_GetPtr_Get [of off l m] assms(3)
    by simp
qed

lemma mem_reqD:
  "mem_req i j st m \<Longrightarrow> st_back st i = Some off \<Longrightarrow> st_back st j = Some l \<Longrightarrow> calcMemSize off l \<le> m"
  "mem_req_const i l st m \<Longrightarrow> st_back st i = Some off \<Longrightarrow> calcMemSize off l \<le> m"
  by (simp_all add: mem_req_def mem_req_const_def)

lemma op_total_opSha3: "op_total 2 1 (mem_req 1 2) opSha3"
proof (rule op_totalI)
  fix env :: vm_env and fr
  assume ok: "frame_ok fr" and cr: "crypto_ok (env_crypto env)" and "2 \<le> st_len (fr_stack fr)"
    and r: "mem_req 1 2 (fr_stack fr) (int (Memory_Len (fr_mem fr)))"
  then obtain x y st1 st where p: "pop fr = Some (x, fr\<lparr>fr_stack := st1\<rparr>)"
    "pop (fr\<lparr>fr_stack := st1\<rparr>) = Some (y, fr\<lparr>fr_stack := st\<rparr>)"
    "is_u256 x" "is_u256 y" "wf_stack st" "st_len (fr_stack fr) = st_len st + 2"
    "st_back (fr_stack fr) 1 = Some x" "st_back (fr_stack fr) 2 = Some y"
    by (elim pop2 [of fr, OF frame_okD(1)]) auto
  then obtain bs where "Memory_Get (fr_mem fr) (Int64 x) (Int64 y) = Some bs"
    using Memory_Get_op [of x y "fr_mem fr"] mem_reqD(1) [OF r] frame_okD(4) [OF ok] by auto
  moreover have "is_u256 (BytesToBig (Sha3 (env_crypto env) bs))"
    using cr by (intro BytesToBig_u256) (simp add: Sha3_def crypto_ok_def)
  ultimately show "\<exists>fr'. opSha3 env fr = Some fr' \<and> pure_step 2 1 fr fr'"
    using ok p by (auto simp: opSha3_def pure_step_def frame_simps intro: frame_okD)
qed

lemma op_total_opMload: "op_total 1 1 (mem_req_const 1 32) opMload"
proof (rule op_totalI)
  fix env fr
  assume ok: "frame_ok fr" and "1 \<le> st_len (fr_stack fr)"
    and r: "mem_req_const 1 32 (fr_stack fr) (int (Memory_Len (fr_mem fr)))"
  then obtain x st where p: "pop fr = Some (x, fr\<lparr>fr_stack := st\<rparr>)" "is_u256 x" "wf_stack st"
    "st_len (fr_stack fr) = st_len st + 1" "st_back (fr_stack fr) 1 = Some x"
    by (elim pop1 [of fr, OF frame_okD(1)]) auto
  have "is_u256 32" "Int64 32 = 32" by (simp_all add: is_u256_def Int64_small)
  then obtain bs where "Memory_Get (fr_mem fr) (Int64 x) 32 = Some bs" and "int (length bs) = 32"
    using Memory_Get_op [of x 32 "fr_mem fr"] p mem_reqD(2) [OF r] frame_okD(4) [OF ok] by auto
  moreover from this(2) have "is_u256 (BytesToBig bs)" by (intro BytesToBig_u256) simp
  ultimately show "\<exists>fr'. opMload env fr = Some fr' \<and> pure_step 1 1 fr fr'"
    using ok p by (auto simp: opMload_def pure_step_def frame_simps intro: frame_okD)
qed

text \<open>Copying \<open>l\<close> bytes from some data to memory.\<close>

lemma copy_op:
  assumes "frame_ok fr" "is_u256 mOff" "is_u256 cOff" "is_u256 l"
    and "calcMemSize mOff l \<le> int (Memory_Len (fr_mem fr))" "int (length dat) < 2 ^ 63"
  shows "\<exists>bs m. getData dat cOff l = Some bs \<and> Memory_Set (fr_mem fr) (Uint64 mOff) (Uint64 l) bs = Some m \<and>
           Memory_Len m = Memory_Len (fr_mem fr)"
proof -
  have c: "0 \<le> cOff" "0 \<le> mOff" "0 \<le> l" "l < 2 ^ 63"
    using mem_size_small [OF assms(2,4,5) frame_okD(4) [OF assms(1)]] assms(3) by (simp_all add: is_u256_def)
  obtain bs where "getData dat cOff l = Some bs"
    using getData_defined [OF c(1,3,4) assms(6)] by blast
  then show ?thesis
    using Memory_Set_defined [OF c(2,3) assms(5) frame_okD(4) [OF assms(1)], of bs] by auto
qed

lemma op_total_copy:
  assumes "\<And>env fr. f env fr =
      do { (mOff, fr) \<leftarrow> pop fr; (cOff, fr) \<leftarrow> pop fr; (l, fr) \<leftarrow> pop fr;
           bs \<leftarrow> getData (g (fr_contract fr)) cOff l;
           m \<leftarrow> Memory_Set (fr_mem fr) (Uint64 mOff) (Uint64 l) bs;
           Some (set_mem m fr) }"
    and "\<And>c. contract_ok c \<Longrightarrow> int (length (g c)) < 2 ^ 63"
  shows "op_total 3 0 (mem_req 1 3) f"
proof (rule op_totalI)
  fix env fr
  assume ok: "frame_ok fr" and "3 \<le> st_len (fr_stack fr)"
    and r: "mem_req 1 3 (fr_stack fr) (int (Memory_Len (fr_mem fr)))"
  then obtain x y z st1 st2 st where p: "pop fr = Some (x, fr\<lparr>fr_stack := st1\<rparr>)"
    "pop (fr\<lparr>fr_stack := st1\<rparr>) = Some (y, fr\<lparr>fr_stack := st2\<rparr>)"
    "pop (fr\<lparr>fr_stack := st2\<rparr>) = Some (z, fr\<lparr>fr_stack := st\<rparr>)"
    "is_u256 x" "is_u256 y" "is_u256 z" "wf_stack st" "st_len (fr_stack fr) = st_len st + 3"
    "st_back (fr_stack fr) 1 = Some x" "st_back (fr_stack fr) 3 = Some z"
    by (elim pop3 [of fr, OF frame_okD(1)]) auto
  then show "\<exists>fr'. f env fr = Some fr' \<and> pure_step 3 0 fr fr'"
    using copy_op [OF ok p(4-6) mem_reqD(1) [OF r p(9,10)] assms(2) [OF frame_okD(3) [OF ok]]]
      db_step_refl [OF frame_okD(2) [OF ok]]
    by (auto simp: assms(1) pure_step_def frame_simps)
qed

lemma op_total_copies:
  "op_total 3 0 (mem_req 1 3) opCalldataCopy" "op_total 3 0 (mem_req 1 3) opCodeCopy"
  by (rule op_total_copy, (rule opCalldataCopy_def opCodeCopy_def), simp add: contract_ok_def)+

lemma op_total_opCalldataLoad: "op_total 1 1 no_req opCalldataLoad"
proof (rule op_totalI)
  fix env fr
  assume ok: "frame_ok fr" and "1 \<le> st_len (fr_stack fr)"
  then obtain x st where p: "pop fr = Some (x, fr\<lparr>fr_stack := st\<rparr>)" "is_u256 x" "wf_stack st"
    "st_len (fr_stack fr) = st_len st + 1"
    by (elim pop1 [of fr, OF frame_okD(1)]) auto
  have "0 \<le> x" "int (length (ct_Input (fr_contract fr))) < 2 ^ 63"
    using p(2) ok unfolding is_u256_def frame_ok_def contract_ok_def by blast+
  then obtain bs where "getData (ct_Input (fr_contract fr)) x 32 = Some bs" "int (length bs) = 32"
    using getData_defined [of x 32] by auto
  moreover from this(2) have "is_u256 (BytesToBig bs)" by (intro BytesToBig_u256) simp
  ultimately show "\<exists>fr'. opCalldataLoad env fr = Some fr' \<and> pure_step 1 1 fr fr'"
    using ok p by (auto simp: opCalldataLoad_def pure_step_def frame_simps intro: frame_okD)
qed

lemma op_total_opExtCodeCopy: "op_total 4 0 (mem_req 2 4) opExtCodeCopy"
proof (rule op_totalI)
  fix env fr
  assume ok: "frame_ok fr" and "4 \<le> st_len (fr_stack fr)"
    and r: "mem_req 2 4 (fr_stack fr) (int (Memory_Len (fr_mem fr)))"
  then obtain a x y st1 st2 st3 where p: "pop fr = Some (a, fr\<lparr>fr_stack := st1\<rparr>)"
    "pop (fr\<lparr>fr_stack := st1\<rparr>) = Some (x, fr\<lparr>fr_stack := st2\<rparr>)"
    "pop (fr\<lparr>fr_stack := st2\<rparr>) = Some (y, fr\<lparr>fr_stack := st3\<rparr>)"
    "is_u256 a" "is_u256 x" "is_u256 y" "wf_stack st3" "st_len (fr_stack fr) = st_len st3 + 3"
    "st_back (fr_stack fr) 2 = Some x" "\<And>n. 0 < n \<Longrightarrow> st_back (fr_stack fr) (Suc (Suc (Suc n))) = st_back st3 n"
    by (elim pop3 [of fr, OF frame_okD(1)]) auto
  obtain z st where q: "pop (fr\<lparr>fr_stack := st3\<rparr>) = Some (z, fr\<lparr>fr_stack := st\<rparr>)" "is_u256 z" "wf_stack st"
    "st_len st3 = st_len st + 1" "st_back st3 1 = Some z"
    by (rule pop1 [of "fr\<lparr>fr_stack := st3\<rparr>"]) (use p \<open>4 \<le> _\<close> in auto)
  have "st_back (fr_stack fr) 4 = Some z" using p(10) [of 1] q(5) by (simp add: numeral_eq_Suc)
  note req = mem_reqD(1) [OF r p(9) this]
  let ?db = "snd (GetCode (fr_db fr) (BigToAddress a))"
  have db: "db_step (fr_db fr) ?db" by (rule db_step_queries) (rule frame_okD(2) [OF ok])
  have "int (length (code_of (fr_db fr) (BigToAddress a))) < 2 ^ 63"
    using frame_okD(2) [OF ok] unfolding db_ok_def by blast
  from copy_op [OF ok p(5,6) q(2) req this] show "\<exists>fr'. opExtCodeCopy env fr = Some fr' \<and> pure_step 4 0 fr fr'"
    using p q db by (auto simp: opExtCodeCopy_def pure_step_def frame_simps case_prod_beta query_results)
qed

lemma op_total_opMstore: "op_total 2 0 (mem_req_const 1 32) opMstore"
proof (rule op_totalI)
  fix env fr
  assume ok: "frame_ok fr" and "2 \<le> st_len (fr_stack fr)"
    and r: "mem_req_const 1 32 (fr_stack fr) (int (Memory_Len (fr_mem fr)))"
  then obtain x y st1 st where p: "pop fr = Some (x, fr\<lparr>fr_stack := st1\<rparr>)"
    "pop (fr\<lparr>fr_stack := st1\<rparr>) = Some (y, fr\<lparr>fr_stack := st\<rparr>)"
    "is_u256 x" "is_u256 y" "wf_stack st" "st_len (fr_stack fr) = st_len st + 2"
    "st_back (fr_stack fr) 1 = Some x"
    by (elim pop2 [of fr, OF frame_okD(1)]) auto
  have "0 \<le> x" using p(3) by (simp add: is_u256_def)
  moreover have "Uint64 32 = 32" by (simp add: Uint64_def)
  ultimately obtain m where "Memory_Set (fr_mem fr) (Uint64 x) 32 (BigToBytes y 256) = Some m"
    "Memory_Len m = Memory_Len (fr_mem fr)"
    using Memory_Set_defined [of x 32 "fr_mem fr"] mem_reqD(2) [OF r p(7)] frame_okD(4) [OF ok] by auto
  then show "\<exists>fr'. opMstore env fr = Some fr' \<and> pure_step 2 0 fr fr'"
    using p db_step_refl [OF frame_okD(2) [OF ok]] by (auto simp: opMstore_def pure_step_def frame_simps)
qed

lemma op_total_opMstore8: "op_total 2 0 (mem_req_const 1 1) opMstore8"
proof (rule op_totalI)
  fix env fr
  assume ok: "frame_ok fr" and "2 \<le> st_len (fr_stack fr)"
    and r: "mem_req_const 1 1 (fr_stack fr) (int (Memory_Len (fr_mem fr)))"
  then obtain x y st1 st where p: "pop fr = Some (x, fr\<lparr>fr_stack := st1\<rparr>)"
    "pop (fr\<lparr>fr_stack := st1\<rparr>) = Some (y, fr\<lparr>fr_stack := st\<rparr>)"
    "is_u256 x" "is_u256 y" "wf_stack st" "st_len (fr_stack fr) = st_len st + 2"
    "st_back (fr_stack fr) 1 = Some x"
    by (elim pop2 [of fr, OF frame_okD(1)]) auto
  have "0 \<le> x" "x < int (Memory_Len (fr_mem fr))"
    using p(3) mem_reqD(2) [OF r p(7)] by (simp_all add: is_u256_def calcMemSize_def)
  moreover from this have "Int64 x = x" using frame_okD(4) [OF ok] by (intro Int64_small) simp_all
  ultimately show "\<exists>fr'. opMstore8 env fr = Some fr' \<and> pure_step 2 0 fr fr'"
    using p db_step_refl [OF frame_okD(2) [OF ok]]
    by (auto simp: opMstore8_def Let_def pure_step_def frame_simps Memory_Len_def nat_less_iff)
qed

lemma op_total_opSstore: "op_total 2 0 no_req opSstore"
proof (rule op_totalI)
  fix env fr
  assume ok: "frame_ok fr" and "2 \<le> st_len (fr_stack fr)"
  then obtain x y st1 st where p: "pop fr = Some (x, fr\<lparr>fr_stack := st1\<rparr>)"
    "pop (fr\<lparr>fr_stack := st1\<rparr>) = Some (y, fr\<lparr>fr_stack := st\<rparr>)" "wf_stack st"
    "st_len (fr_stack fr) = st_len st + 2"
    by (elim pop2 [of fr, OF frame_okD(1)]) auto
  then show "\<exists>fr'. opSstore env fr = Some fr' \<and> pure_step 2 0 fr fr'"
    using db_step_setters(2) [OF frame_okD(2) [OF ok]]
    by (auto simp: opSstore_def pure_step_def frame_simps)
qed

lemma op_total_opPop: "op_total 1 0 no_req opPop"
proof (rule op_totalI)
  fix env fr
  assume ok: "frame_ok fr" and "1 \<le> st_len (fr_stack fr)"
  then obtain x st where "pop fr = Some (x, fr\<lparr>fr_stack := st\<rparr>)" "wf_stack st"
    "st_len (fr_stack fr) = st_len st + 1"
    by (elim pop1 [of fr, OF frame_okD(1)]) auto
  then show "\<exists>fr'. opPop env fr = Some fr' \<and> pure_step 1 0 fr fr'"
    using db_step_refl [OF frame_okD(2) [OF ok]] by (auto simp: opPop_def pure_step_def frame_simps)
qed

lemma op_total_opJumpdest: "op_total 0 0 no_req opJumpdest"
  by (rule op_totalI) (auto simp: opJumpdest_def pure_step_def intro: frame_okD)

lemma op_total_opBlockhash: "op_total 1 1 no_req opBlockhash"
  by (rule op_total_1_1, unfold opBlockhash_def Let_def, rule refl, simp)

section \<open>Families of instructions\<close>

lemma op_total_makePush: "sz \<le> 32 \<Longrightarrow> op_total 0 1 no_req (makePush sz)"
proof (rule op_totalI)
  fix env fr
  assume sz: "sz \<le> 32" and ok: "frame_ok fr"
  have "int (length (ct_Code (fr_contract fr))) < 2 ^ 63"
    using ok unfolding frame_ok_def contract_ok_def by blast
  then obtain bs where "getData (ct_Code (fr_contract fr)) (uint (fr_pc fr + 1)) (int sz) = Some bs"
    and "int (length bs) = int sz"
    using getData_defined [of "uint (fr_pc fr + 1)" "int sz"] sz by auto
  moreover from this(2) sz have "is_u256 (BytesToBig bs)" by (intro BytesToBig_u256) simp
  ultimately show "\<exists>fr'. makePush sz env fr = Some fr' \<and> pure_step 0 1 fr fr'"
    using ok by (auto simp: makePush_def Let_def pure_step_def frame_simps intro: frame_okD)
qed

lemma op_total_makeDup: "0 < sz \<Longrightarrow> op_total sz (sz + 1) no_req (makeDup sz)"
proof (rule op_totalI)
  fix env fr
  assume "0 < sz" and ok: "frame_ok fr" and "sz \<le> st_len (fr_stack fr)"
  then obtain st where "st_dup (fr_stack fr) sz = Some st" "st_len st = Suc (st_len (fr_stack fr))"
    using st_dup_defined by blast
  then show "\<exists>fr'. makeDup sz env fr = Some fr' \<and> pure_step sz (sz + 1) fr fr'"
    using ok st_dup_wf by (auto simp: makeDup_def pure_step_def intro: frame_okD)
qed

lemma op_total_makeSwap: "op_total (sz + 1) (sz + 1) no_req (makeSwap sz)"
proof (rule op_totalI)
  fix env fr
  assume ok: "frame_ok fr" and "sz + 1 \<le> st_len (fr_stack fr)"
  then obtain st where "st_swap (fr_stack fr) (sz + 1) = Some st" "st_len st = st_len (fr_stack fr)"
    using st_swap_defined [of "sz + 1"] by auto
  then show "\<exists>fr'. makeSwap sz env fr = Some fr' \<and> pure_step (sz + 1) (sz + 1) fr fr'"
    using ok st_swap_wf by (auto simp: makeSwap_def pure_step_def intro: frame_okD)
qed

lemma pop_topics_defined:
  assumes "wf_stack (fr_stack fr)" "n \<le> st_len (fr_stack fr)"
  shows "\<exists>ts st. pop_topics n fr = Some (ts, fr\<lparr>fr_stack := st\<rparr>) \<and> wf_stack st \<and>
           st_len (fr_stack fr) = st_len st + n"
  using assms
proof (induction n arbitrary: fr)
  case (Suc n)
  then obtain x st where p: "pop fr = Some (x, fr\<lparr>fr_stack := st\<rparr>)" "wf_stack st"
    "st_len (fr_stack fr) = st_len st + 1"
    by (elim pop1 [of fr]) auto
  with Suc.IH [of "fr\<lparr>fr_stack := st\<rparr>"] Suc.prems(2) obtain ts st' where
    "pop_topics n (fr\<lparr>fr_stack := st\<rparr>) = Some (ts, fr\<lparr>fr_stack := st'\<rparr>)" "wf_stack st'"
    "st_len st = st_len st' + n"
    by auto
  then show ?case using p by auto
qed (auto intro!: exI [of _ "fr_stack fr" for fr])

lemma op_total_makeLog: "op_total (sz + 2) 0 (mem_req 1 2) (makeLog sz)"
proof (rule op_totalI)
  fix env fr
  assume ok: "frame_ok fr" and len: "sz + 2 \<le> st_len (fr_stack fr)"
    and r: "mem_req 1 2 (fr_stack fr) (int (Memory_Len (fr_mem fr)))"
  obtain x y st1 st where p: "pop fr = Some (x, fr\<lparr>fr_stack := st1\<rparr>)"
    "pop (fr\<lparr>fr_stack := st1\<rparr>) = Some (y, fr\<lparr>fr_stack := st\<rparr>)"
    "is_u256 x" "is_u256 y" "wf_stack st" "st_len (fr_stack fr) = st_len st + 2"
    "st_back (fr_stack fr) 1 = Some x" "st_back (fr_stack fr) 2 = Some y"
    by (rule pop2 [of fr]) (use len frame_okD(1) [OF ok] in auto)
  then obtain ts st' where "pop_topics sz (fr\<lparr>fr_stack := st\<rparr>) = Some (ts, fr\<lparr>fr_stack := st'\<rparr>)"
    "wf_stack st'" "st_len st = st_len st' + sz"
    using pop_topics_defined [of "fr\<lparr>fr_stack := st\<rparr>" sz] len by auto
  moreover obtain bs where "Memory_Get (fr_mem fr) (Int64 x) (Int64 y) = Some bs"
    using Memory_Get_op [of x y "fr_mem fr"] p mem_reqD(1) [OF r] frame_okD(4) [OF ok] by auto
  ultimately show "\<exists>fr'. makeLog sz env fr = Some fr' \<and> pure_step (sz + 2) 0 fr fr'"
    using p db_step_setters(5) [OF frame_okD(2) [OF ok]]
    by (auto simp: makeLog_def Let_def pure_step_def frame_simps)
qed

lemma op_total_opSuicide: "op_total 1 0 no_req opSuicide"
proof (rule op_totalI)
  fix env fr
  assume ok: "frame_ok fr" and len: "1 \<le> st_len (fr_stack fr)"
  let ?db = "snd (GetBalance (fr_db fr) (fr_self fr))"
  let ?fr = "set_db ?db fr"
  have db: "db_step (fr_db fr) ?db" by (rule db_step_queries) (rule frame_okD(2) [OF ok])
  obtain x st where p: "pop ?fr = Some (x, ?fr\<lparr>fr_stack := st\<rparr>)" "wf_stack st"
    "st_len (fr_stack fr) = st_len st + 1"
    by (rule pop1 [of ?fr]) (use len frame_okD(1) [OF ok] in \<open>auto simp: frame_upd\<close>)
  have "db_step (fr_db fr)
      (snd (Delete (AddBalance ?db (BigToAddress x) (bal ?db (fr_self fr))) (fr_self fr)))"
    by (rule db_step_trans [OF db]) (rule db_step_suicide [OF db_step_ok [OF db]])
  then show "\<exists>fr'. opSuicide env fr = Some fr' \<and> pure_step 1 0 fr fr'"
    using p
    by (auto simp: opSuicide_def Let_def case_prod_beta pure_step_def frame_upd query_results bal_ops)
qed

end
