(* ===== verification/Call_Facts.thy ===== *)
theory Call_Facts
  imports Instr_Facts
begin

text \<open>
  The instructions that call other contracts, relative to what the call methods of the
  environment promise: they are defined on the arguments that the instructions pass, hand back no
  more gas than they are given, and leave a well-formed database.
\<close>

section \<open>The contract of the call methods\<close>

definition call_post :: "statedb \<Rightarrow> int \<Rightarrow> call_result \<Rightarrow> bool" where
  "call_post db gas r \<longleftrightarrow>
     0 \<le> res_gas r \<and> res_gas r \<le> gas \<and> int (length (res_ret r)) < 2 ^ 63 \<and>
     db_step db (w_db (res_world r))"

definition call_pre :: "int \<Rightarrow> statedb \<Rightarrow> address \<Rightarrow> bytes \<Rightarrow> int \<Rightarrow> int \<Rightarrow> int \<Rightarrow> bool" where
  "call_pre N db caller input gas price value \<longleftrightarrow>
     db_ok db \<and> exists_acct db caller \<and> int (length input) < 2 ^ 63 \<and>
     0 \<le> gas \<and> gas < N \<and> is_u256 price \<and> is_u256 value"

definition calls_ok :: "int \<Rightarrow> vm_env \<Rightarrow> bool" where
  "calls_ok N env \<longleftrightarrow>
     crypto_ok (env_crypto env) \<and>
     (\<forall>w caller addr input gas price value. call_pre N (w_db w) caller input gas price value \<longrightarrow>
        (\<exists>r. env_Call env (env_Depth env) w caller addr input gas price value = Some r \<and>
             call_post (w_db w) gas r)) \<and>
     (\<forall>w caller addr input gas price value. call_pre N (w_db w) caller input gas price value \<longrightarrow>
        (\<exists>r. env_CallCode env (env_Depth env) w caller addr input gas price value = Some r \<and>
             call_post (w_db w) gas r)) \<and>
     (\<forall>w caller code gas price value. call_pre N (w_db w) caller code gas price value \<longrightarrow>
        (\<exists>r. env_Create env (env_Depth env) w caller code gas price value = Some r \<and>
             call_post (w_db w) gas r))"

text \<open>What an instruction that calls does to a frame, where the callee may hand back up to \<open>g\<close>.\<close>

definition call_step :: "nat \<Rightarrow> nat \<Rightarrow> int \<Rightarrow> frame \<Rightarrow> frame \<Rightarrow> bool" where
  "call_step p q g fr fr' \<longleftrightarrow>
     (\<exists>gas used. fr_contract fr' = (fr_contract fr)\<lparr>ct_Gas := gas, ct_UsedGas := used\<rparr> \<and>
        0 \<le> gas \<and> gas \<le> ct_Gas (fr_contract fr) + g) \<and>
     Memory_Len (fr_mem fr') = Memory_Len (fr_mem fr) \<and>
     wf_stack (fr_stack fr') \<and> st_len (fr_stack fr') + p = st_len (fr_stack fr) + q \<and>
     db_step (fr_db fr) (fr_db fr')"

section \<open>Calls\<close>

lemma pop7:
  assumes "wf_stack (fr_stack fr)" "7 \<le> st_len (fr_stack fr)"
  obtains a b c d e f g s1 s2 s3 s4 s5 s6 st where
    "pop fr = Some (a, fr\<lparr>fr_stack := s1\<rparr>)" "pop (fr\<lparr>fr_stack := s1\<rparr>) = Some (b, fr\<lparr>fr_stack := s2\<rparr>)"
    "pop (fr\<lparr>fr_stack := s2\<rparr>) = Some (c, fr\<lparr>fr_stack := s3\<rparr>)"
    "pop (fr\<lparr>fr_stack := s3\<rparr>) = Some (d, fr\<lparr>fr_stack := s4\<rparr>)"
    "pop (fr\<lparr>fr_stack := s4\<rparr>) = Some (e, fr\<lparr>fr_stack := s5\<rparr>)"
    "pop (fr\<lparr>fr_stack := s5\<rparr>) = Some (f, fr\<lparr>fr_stack := s6\<rparr>)"
    "pop (fr\<lparr>fr_stack := s6\<rparr>) = Some (g, fr\<lparr>fr_stack := st\<rparr>)"
    "is_u256 a" "is_u256 b" "is_u256 c" "is_u256 d" "is_u256 e" "is_u256 f" "is_u256 g"
    "wf_stack st" "st_len (fr_stack fr) = st_len st + 7"
    "st_back (fr_stack fr) 1 = Some a" "st_back (fr_stack fr) 3 = Some c"
    "st_back (fr_stack fr) 4 = Some d" "st_back (fr_stack fr) 5 = Some e"
    "st_back (fr_stack fr) 6 = Some f" "st_back (fr_stack fr) 7 = Some g"
proof -
  obtain a b c s1 s2 s3 where 1: "pop fr = Some (a, fr\<lparr>fr_stack := s1\<rparr>)"
    "pop (fr\<lparr>fr_stack := s1\<rparr>) = Some (b, fr\<lparr>fr_stack := s2\<rparr>)"
    "pop (fr\<lparr>fr_stack := s2\<rparr>) = Some (c, fr\<lparr>fr_stack := s3\<rparr>)" "is_u256 a" "is_u256 b" "is_u256 c"
    "wf_stack s3" "st_len (fr_stack fr) = st_len s3 + 3"
    "st_back (fr_stack fr) 1 = Some a" "st_back (fr_stack fr) 3 = Some c"
    "\<And>n. 0 < n \<Longrightarrow> st_back (fr_stack fr) (Suc (Suc (Suc n))) = st_back s3 n"
    by (rule pop3 [of fr]) (use assms in auto)
  obtain d e f s4 s5 s6 where 2: "pop (fr\<lparr>fr_stack := s3\<rparr>) = Some (d, fr\<lparr>fr_stack := s4\<rparr>)"
    "pop (fr\<lparr>fr_stack := s4\<rparr>) = Some (e, fr\<lparr>fr_stack := s5\<rparr>)"
    "pop (fr\<lparr>fr_stack := s5\<rparr>) = Some (f, fr\<lparr>fr_stack := s6\<rparr>)" "is_u256 d" "is_u256 e" "is_u256 f"
    "wf_stack s6" "st_len s3 = st_len s6 + 3"
    "st_back s3 1 = Some d" "st_back s3 2 = Some e" "st_back s3 3 = Some f"
    "\<And>n. 0 < n \<Longrightarrow> st_back s3 (Suc (Suc (Suc n))) = st_back s6 n"
    by (rule pop3 [of "fr\<lparr>fr_stack := s3\<rparr>"]) (use 1 assms in auto)
  obtain g st where 3: "pop (fr\<lparr>fr_stack := s6\<rparr>) = Some (g, fr\<lparr>fr_stack := st\<rparr>)" "is_u256 g"
    "wf_stack st" "st_len s6 = st_len st + 1" "st_back s6 1 = Some g"
    by (rule pop1 [of "fr\<lparr>fr_stack := s6\<rparr>"]) (use 1 2 assms in auto)
  have 4: "st_back (fr_stack fr) 4 = Some d" "st_back (fr_stack fr) 5 = Some e"
    "st_back (fr_stack fr) 6 = Some f" "st_back (fr_stack fr) 7 = Some g"
    using 1(11) [of 1] 1(11) [of 2] 1(11) [of 3] 1(11) [of 4] 2(9-11) 2(12) [of 1] 3(5)
    by (simp_all add: numeral_eq_Suc)
  show thesis
    by (rule that [OF 1(1-3) 2(1-3) 3(1) 1(4-6) 2(4-6) 3(2,3) _ 1(9,10) 4]) (use 1 2 3 in simp)
qed

definition call_gas :: "int \<Rightarrow> int \<Rightarrow> int" where
  "call_gas gas value = (if value \<noteq> 0 then gas + CallStipend else gas)"

text \<open>The two call instructions differ in the method that they call.\<close>

lemma call_instr:
  assumes f: "\<And>fr. f fr =
     do { (gas, fr) \<leftarrow> pop fr; (addr, fr) \<leftarrow> pop fr; (value, fr) \<leftarrow> pop fr;
          let value = U256 value in
          do { (inOffset, fr) \<leftarrow> pop fr; (inSize, fr) \<leftarrow> pop fr;
               (retOffset, fr) \<leftarrow> pop fr; (retSize, fr) \<leftarrow> pop fr;
               args \<leftarrow> Memory_Get (fr_mem fr) (Int64 inOffset) (Int64 inSize);
               let gas = (if length (big_Bytes value) > 0 then gas + CallStipend else gas) in
               do { r \<leftarrow> meth (fr_world fr) (fr_self fr) (BigToAddress addr) args
                           gas (ct_Price (fr_contract fr)) value;
                    let fr = fr\<lparr>fr_contract := ReturnGas (fr_contract fr) (res_gas r), fr_world := res_world r\<rparr> in
                    if res_err r \<noteq> None then Some (push 0 fr)
                    else
                      do { m \<leftarrow> Memory_Set (fr_mem fr) (Uint64 retOffset) (Uint64 retSize) (res_ret r);
                           Some (set_mem m (push 1 fr)) } } } }"
    and meth: "\<And>w caller addr input gas price value. call_pre N (w_db w) caller input gas price value \<Longrightarrow>
        \<exists>r. meth w caller addr input gas price value = Some r \<and> call_post (w_db w) gas r"
    and ok: "frame_ok fr" and len: "7 \<le> st_len (fr_stack fr)"
    and req: "mem_req 4 5 (fr_stack fr) (int (Memory_Len (fr_mem fr)))"
      "mem_req 6 7 (fr_stack fr) (int (Memory_Len (fr_mem fr)))"
    and g: "st_back (fr_stack fr) 1 = Some gas" "st_back (fr_stack fr) 3 = Some value" "call_gas gas value < N"
  shows "\<exists>fr'. f fr = Some fr' \<and> call_step 7 1 (call_gas gas value) fr fr'"
proof -
  obtain a b c d e h k s1 s2 s3 s4 s5 s6 st where p:
    "pop fr = Some (a, fr\<lparr>fr_stack := s1\<rparr>)" "pop (fr\<lparr>fr_stack := s1\<rparr>) = Some (b, fr\<lparr>fr_stack := s2\<rparr>)"
    "pop (fr\<lparr>fr_stack := s2\<rparr>) = Some (c, fr\<lparr>fr_stack := s3\<rparr>)"
    "pop (fr\<lparr>fr_stack := s3\<rparr>) = Some (d, fr\<lparr>fr_stack := s4\<rparr>)"
    "pop (fr\<lparr>fr_stack := s4\<rparr>) = Some (e, fr\<lparr>fr_stack := s5\<rparr>)"
    "pop (fr\<lparr>fr_stack := s5\<rparr>) = Some (h, fr\<lparr>fr_stack := s6\<rparr>)"
    "pop (fr\<lparr>fr_stack := s6\<rparr>) = Some (k, fr\<lparr>fr_stack := st\<rparr>)"
    "is_u256 a" "is_u256 c" "is_u256 d" "is_u256 e" "is_u256 h" "is_u256 k"
    "wf_stack st" "st_len (fr_stack fr) = st_len st + 7"
    "st_back (fr_stack fr) 1 = Some a" "st_back (fr_stack fr) 3 = Some c"
    "st_back (fr_stack fr) 4 = Some d" "st_back (fr_stack fr) 5 = Some e"
    "st_back (fr_stack fr) 6 = Some h" "st_back (fr_stack fr) 7 = Some k"
    using frame_okD(1) [OF ok] len by (rule pop7 [of fr])
  have eq: "a = gas" "c = value" using p g by simp_all
  have v: "U256 value = value" using p(9) eq by (simp add: is_u256_def U256_id)
  have m: "int (Memory_Len (fr_mem fr)) < 2 ^ 63" using frame_okD(4) [OF ok] .
  obtain args where args: "Memory_Get (fr_mem fr) (Int64 d) (Int64 e) = Some args" "int (length args) = e"
    using Memory_Get_op [OF p(10,11) mem_reqD(1) [OF req(1) p(18,19)] m] by blast
  have len_args: "int (length args) < 2 ^ 63"
    using args(2) mem_size_small(1) [OF p(10,11) mem_reqD(1) [OF req(1) p(18,19)] m] by simp
  have "0 \<le> call_gas gas value" using p(8) eq by (simp add: call_gas_def is_u256_def)
  then have pre: "call_pre N (fr_db fr) (fr_self fr) args (call_gas gas value) (ct_Price (fr_contract fr)) value"
    using ok g(3) len_args p(9) eq unfolding call_pre_def frame_ok_def contract_ok_def by blast
  then obtain r where r: "meth (fr_world fr) (fr_self fr) (BigToAddress b) args (call_gas gas value)
      (ct_Price (fr_contract fr)) value = Some r" "call_post (fr_db fr) (call_gas gas value) r"
    using meth by blast
  have ret: "\<exists>mm. Memory_Set (fr_mem fr) (Uint64 h) (Uint64 k) (res_ret r) = Some mm \<and>
      Memory_Len mm = Memory_Len (fr_mem fr)"
    using mem_size_small(4,5) [OF p(12,13) mem_reqD(1) [OF req(2) p(20,21)] m]
      mem_reqD(1) [OF req(2) p(20,21)] m by (intro Memory_Set_defined)
  have post: "0 \<le> ct_Gas (fr_contract fr) + res_gas r" "res_gas r \<le> call_gas gas value"
    using r(2) ok unfolding call_post_def frame_ok_def contract_ok_def by auto
  have "call_step 7 1 (call_gas gas value) fr
      (push x (fr\<lparr>fr_stack := st, fr_contract := ReturnGas (fr_contract fr) (res_gas r), fr_world := res_world r\<rparr>))"
    if "is_u256 x" for x
    using that p post r(2) unfolding call_step_def call_post_def
    by (auto simp: frame_simps ReturnGas_def)
  note step = this [of 0] this [of 1]
  have gas: "value \<noteq> 0 \<Longrightarrow> meth (fr_world fr) (fr_self fr) (BigToAddress b) args
      (gas + CallStipend) (ct_Price (fr_contract fr)) value = Some r"
    "value = 0 \<Longrightarrow> meth (fr_world fr) (fr_self fr) (BigToAddress b) args
      gas (ct_Price (fr_contract fr)) 0 = Some r"
    using r(1) by (simp_all add: call_gas_def)
  let ?fr = "fr\<lparr>fr_stack := st, fr_contract := ReturnGas (fr_contract fr) (res_gas r), fr_world := res_world r\<rparr>"
  obtain mm where mm: "Memory_Set (fr_mem fr) (Uint64 h) (Uint64 k) (res_ret r) = Some mm"
    "Memory_Len mm = Memory_Len (fr_mem fr)"
    using ret by blast
  have "f fr = Some (if res_err r \<noteq> None then push 0 ?fr else set_mem mm (push 1 ?fr))"
    using v by (cases "value = 0") (simp_all add: f p(1-7) eq Let_def args(1) gas mm)
  moreover have "call_step 7 1 (call_gas gas value) fr (set_mem mm (push 1 ?fr))"
    using step(2) mm(2) by (simp add: call_step_def frame_simps)
  ultimately show ?thesis using step(1) by simp
qed

lemma opCall_ok:
  assumes "calls_ok N env" "frame_ok fr" "7 \<le> st_len (fr_stack fr)"
    "mem_req 4 5 (fr_stack fr) (int (Memory_Len (fr_mem fr)))"
    "mem_req 6 7 (fr_stack fr) (int (Memory_Len (fr_mem fr)))"
    "st_back (fr_stack fr) 1 = Some gas" "st_back (fr_stack fr) 3 = Some value" "call_gas gas value < N"
  shows "\<exists>fr'. opCall env fr = Some fr' \<and> call_step 7 1 (call_gas gas value) fr fr'"
  by (rule call_instr [OF opCall_def _ assms(2-8)]) (use assms(1) in \<open>auto simp: calls_ok_def\<close>)

lemma opCallCode_ok:
  assumes "calls_ok N env" "frame_ok fr" "7 \<le> st_len (fr_stack fr)"
    "mem_req 4 5 (fr_stack fr) (int (Memory_Len (fr_mem fr)))"
    "mem_req 6 7 (fr_stack fr) (int (Memory_Len (fr_mem fr)))"
    "st_back (fr_stack fr) 1 = Some gas" "st_back (fr_stack fr) 3 = Some value" "call_gas gas value < N"
  shows "\<exists>fr'. opCallCode env fr = Some fr' \<and> call_step 7 1 (call_gas gas value) fr fr'"
  by (rule call_instr [OF opCallCode_def _ assms(2-8)]) (use assms(1) in \<open>auto simp: calls_ok_def\<close>)

section \<open>Creation\<close>

lemma calls_ok_Create:
  assumes "calls_ok N env" and "call_pre N (w_db w) caller code gas price value"
  obtains r where "env_Create env (env_Depth env) w caller code gas price value = Some r"
    "call_post (w_db w) gas r"
  using assms unfolding calls_ok_def by meson

lemma opCreate_ok:
  assumes env: "calls_ok N env" and ok: "frame_ok fr" and len: "3 \<le> st_len (fr_stack fr)"
    and req: "mem_req 2 3 (fr_stack fr) (int (Memory_Len (fr_mem fr)))"
    and N: "ct_Gas (fr_contract fr) < N"
  shows "\<exists>fr'. opCreate env fr = Some fr' \<and> call_step 3 1 0 fr fr'"
proof -
  obtain x y z st1 st2 st where p: "pop fr = Some (x, fr\<lparr>fr_stack := st1\<rparr>)"
    "pop (fr\<lparr>fr_stack := st1\<rparr>) = Some (y, fr\<lparr>fr_stack := st2\<rparr>)"
    "pop (fr\<lparr>fr_stack := st2\<rparr>) = Some (z, fr\<lparr>fr_stack := st\<rparr>)" "is_u256 x" "is_u256 y" "is_u256 z"
    "wf_stack st" "st_len (fr_stack fr) = st_len st + 3"
    "st_back (fr_stack fr) 2 = Some y" "st_back (fr_stack fr) 3 = Some z"
    by (rule pop3 [OF frame_okD(1) [OF ok] len])
  note mem = mem_reqD(1) [OF req p(9,10)] frame_okD(4) [OF ok]
  obtain input where i: "Memory_Get (fr_mem fr) (Int64 y) (Int64 z) = Some input" "int (length input) = z"
    using Memory_Get_op [OF p(5,6) mem] by blast
  let ?c = "fr_contract fr" and ?gas = "ct_Gas (fr_contract fr)"
  have "int (length input) < 2 ^ 63" using i(2) mem_size_small(1) [OF p(5,6) mem] by simp
  then have "call_pre N (fr_db fr) (fr_self fr) input ?gas (ct_Price ?c) x"
    using ok N p(4) unfolding call_pre_def frame_ok_def contract_ok_def by blast
  then obtain r where r: "env_Create env (env_Depth env) (fr_world fr) (fr_self fr) input ?gas
      (ct_Price ?c) x = Some r" "call_post (fr_db fr) ?gas r"
    by (rule calls_ok_Create [OF env])
  let ?c' = "ReturnGas (UseGas_all ?c) (res_gas r)"
  let ?fr = "fr\<lparr>fr_stack := st, fr_contract := ?c', fr_world := res_world r\<rparr>"
  have c': "?c' = ?c\<lparr>ct_Gas := res_gas r, ct_UsedGas := ct_UsedGas ?c - res_gas r\<rparr>"
    by (simp add: ReturnGas_def UseGas_all_def)
  let ?out = "if res_err r \<noteq> None then push 0 ?fr
    else push (Address_Big (res_addr r))
      (case UseGas ?c' (int (length (res_ret r)) * CreateDataGas) of
         Some contract \<Rightarrow> set_db (SetCode (w_db (res_world r)) (res_addr r) (res_ret r)) (?fr\<lparr>fr_contract := contract\<rparr>)
       | None \<Rightarrow> ?fr)"
  have "opCreate env fr = Some ?out"
    using r(1) by (simp add: opCreate_def p(1-3) i(1) Let_def UseGas_all_def split: option.split)
  moreover have "call_step 3 1 0 fr (push v ?fr)" if "is_u256 v" for v
    using that p r(2) by (auto simp: call_step_def call_post_def c' frame_simps)
  moreover have "call_step 3 1 0 fr (push v (set_db (SetCode (w_db (res_world r)) (res_addr r) (res_ret r))
      (?fr\<lparr>fr_contract := c\<rparr>)))"
    if "is_u256 v" "UseGas ?c' (int (length (res_ret r)) * CreateDataGas) = Some c" for v c
  proof -
    have "db_step (fr_db fr) (SetCode (w_db (res_world r)) (res_addr r) (res_ret r))"
      using r(2) unfolding call_post_def
      by (meson db_step_trans db_step_setters(6) db_step_ok)
    then show ?thesis
      using that p r(2) by (auto simp: call_step_def call_post_def UseGas_Some_iff c' frame_simps)
  qed
  ultimately show ?thesis by (auto split: option.split)
qed

end
