(* ===== verification/Op_Table.thy ===== *)
theory Op_Table
  imports Interp Call_Facts
begin

text \<open>
  The operands and the memory of every instruction of the jump table, and that its function is
  defined and keeps a frame well-formed where it has them.
\<close>

section \<open>Operands of an instruction\<close>

definition pops :: "OpCode \<Rightarrow> nat" where
  "pops op =
     (if SWAP1 \<le> op \<and> op \<le> SWAP16 then unat (op - SWAP1 + 2)
      else if DUP1 \<le> op \<and> op \<le> DUP16 then unat (op - DUP1 + 1)
      else if LOG0 \<le> op \<and> op \<le> LOG4 then unat (op - LOG0) + 2
      else case baseCheck_req (baseCheck_key op) of Some r \<Rightarrow> stackPop r | None \<Rightarrow> 0)"

definition pushes :: "OpCode \<Rightarrow> nat" where
  "pushes op =
     (if SWAP1 \<le> op \<and> op \<le> SWAP16 then unat (op - SWAP1 + 2)
      else if DUP1 \<le> op \<and> op \<le> DUP16 then unat (op - DUP1 + 1) + 1
      else if op = CALLDATACOPY then 0
      else case baseCheck_req (baseCheck_key op) of Some r \<Rightarrow> stackPush r | None \<Rightarrow> 0)"

text \<open>
  The memory an instruction touches: none, a constant number of bytes at an offset on the stack,
  a range given by two stack items, or the ranges of a creation and of a call.
\<close>

datatype mem_kind = MNone | MConst nat int | MRange nat nat | MCreate | MCall

fun kind_req :: "mem_kind \<Rightarrow> stack \<Rightarrow> int \<Rightarrow> bool" where
  "kind_req MNone = no_req"
| "kind_req (MConst i l) = mem_req_const i l"
| "kind_req (MRange i j) = mem_req i j"
| "kind_req MCreate = mem_req 2 3"
| "kind_req MCall = (\<lambda>st m. mem_req 4 5 st m \<and> mem_req 6 7 st m)"

definition op_kind :: "OpCode \<Rightarrow> mem_kind" where
  "op_kind op =
     (if op = MLOAD \<or> op = MSTORE then MConst 1 32
      else if op = MSTORE8 then MConst 1 1
      else if op = RETURN \<or> op = SHA3 \<or> LOG0 \<le> op \<and> op \<le> LOG4 then MRange 1 2
      else if op = CALLDATACOPY \<or> op = CODECOPY then MRange 1 3
      else if op = EXTCODECOPY then MRange 2 4
      else if op = CREATE then MCreate
      else if op = CALL \<or> op = CALLCODE then MCall
      else MNone)"

lemmas op_totals = op_total_arith op_total_signed op_total_logic op_total_unary op_total_modular
  op_total_nullary op_total_context op_total_opSignExtend op_total_opByte op_total_queries
  op_total_opSha3 op_total_opMload op_total_copies op_total_opCalldataLoad op_total_opExtCodeCopy
  op_total_opMstore op_total_opMstore8 op_total_opSstore op_total_opPop op_total_opJumpdest
  op_total_opBlockhash op_total_makePush

lemma op_total_log: "p = sz + 2 \<Longrightarrow> op_total p 0 (mem_req 1 2) (makeLog sz)"
  by (simp only: op_total_makeLog)

lemma op_total_dup: "0 < p \<Longrightarrow> q = p + 1 \<Longrightarrow> op_total p q no_req (makeDup p)"
  by (simp only: op_total_makeDup)

lemma op_total_swap: "p = sz + 1 \<Longrightarrow> op_total p p no_req (makeSwap sz)"
  by (simp only: op_total_makeSwap)

definition op_io :: "OpCode \<Rightarrow> nat \<times> nat \<times> mem_kind" where
  "op_io op = (pops op, pushes op, op_kind op)"

text \<open>The operands of the entries of the jump table, in the order of the table.\<close>

lemma op_io_entries:
  "map (op_io \<circ> fst) jumpTable_entries = [
     (2, 1, MNone), (2, 1, MNone), (2, 1, MNone), (2, 1, MNone), (2, 1, MNone), (2, 1, MNone), 
     (2, 1, MNone), (2, 1, MNone), (2, 1, MNone), (1, 1, MNone), (2, 1, MNone), (2, 1, MNone), 
     (2, 1, MNone), (2, 1, MNone), (2, 1, MNone), (1, 1, MNone), (2, 1, MNone), (2, 1, MNone), 
     (2, 1, MNone), (2, 1, MNone), (3, 1, MNone), (3, 1, MNone), (2, 1, MRange 1 2), 
     (0, 1, MNone), (1, 1, MNone), (0, 1, MNone), (0, 1, MNone), (0, 1, MNone), (1, 1, MNone), 
     (0, 1, MNone), (3, 0, MRange 1 3), (0, 1, MNone), (1, 1, MNone), (3, 0, MRange 1 3), 
     (4, 0, MRange 2 4), (0, 1, MNone), (1, 1, MNone), (0, 1, MNone), (0, 1, MNone), 
     (0, 1, MNone), (0, 1, MNone), (0, 1, MNone), (1, 0, MNone), (1, 1, MConst 1 32), 
     (2, 0, MConst 1 32), (2, 0, MConst 1 1), (1, 1, MNone), (2, 0, MNone), (0, 0, MNone), 
     (0, 1, MNone), (0, 1, MNone), (0, 1, MNone), (3, 1, MCreate), (7, 1, MCall), (7, 1, MCall), 
     (2, 0, MRange 1 2), (3, 0, MRange 1 2), (4, 0, MRange 1 2), (5, 0, MRange 1 2), 
     (6, 0, MRange 1 2), (2, 2, MNone), (3, 3, MNone), (4, 4, MNone), (5, 5, MNone), 
     (6, 6, MNone), (7, 7, MNone), (8, 8, MNone), (9, 9, MNone), (10, 10, MNone), 
     (11, 11, MNone), (12, 12, MNone), (13, 13, MNone), (14, 14, MNone), (15, 15, MNone), 
     (16, 16, MNone), (17, 17, MNone), (0, 1, MNone), (0, 1, MNone), (0, 1, MNone), 
     (0, 1, MNone), (0, 1, MNone), (0, 1, MNone), (0, 1, MNone), (0, 1, MNone), (0, 1, MNone), 
     (0, 1, MNone), (0, 1, MNone), (0, 1, MNone), (0, 1, MNone), (0, 1, MNone), (0, 1, MNone), 
     (0, 1, MNone), (0, 1, MNone), (0, 1, MNone), (0, 1, MNone), (0, 1, MNone), (0, 1, MNone), 
     (0, 1, MNone), (0, 1, MNone), (0, 1, MNone), (0, 1, MNone), (0, 1, MNone), (0, 1, MNone), 
     (0, 1, MNone), (0, 1, MNone), (0, 1, MNone), (0, 1, MNone), (0, 1, MNone), (1, 2, MNone), 
     (2, 3, MNone), (3, 4, MNone), (4, 5, MNone), (5, 6, MNone), (6, 7, MNone), (7, 8, MNone), 
     (8, 9, MNone), (9, 10, MNone), (10, 11, MNone), (11, 12, MNone), (12, 13, MNone), 
     (13, 14, MNone), (14, 15, MNone), (15, 16, MNone), (16, 17, MNone), (2, 0, MRange 1 2), 
     (1, 0, MNone), (1, 0, MNone), (2, 0, MNone), (0, 0, MNone)]"
  by code_simp

definition io_ok :: "nat \<times> nat \<times> mem_kind \<Rightarrow> instrFn option \<Rightarrow> bool" where
  "io_ok io f \<longleftrightarrow>
     (case (io, f) of
        ((p, q, k), Some fn) \<Rightarrow> k = MCreate \<or> k = MCall \<or> op_total p q (kind_req k) fn
      | (_, None) \<Rightarrow> True)"

lemma io_ok_simps:
  "io_ok io None" "io_ok (p, q, MCreate) f" "io_ok (p, q, MCall) f"
  "io_ok (p, q, MNone) (Some fn) = op_total p q no_req fn"
  "io_ok (p, q, MConst i l) (Some fn) = op_total p q (mem_req_const i l) fn"
  "io_ok (p, q, MRange i j) (Some fn) = op_total p q (mem_req i j) fn"
  by (simp_all add: io_ok_def split: option.split)

lemma entries_ok: "list_all2 io_ok (map (op_io \<circ> fst) jumpTable_entries) (map snd jumpTable_entries)"
  unfolding op_io_entries unfolding jumpTable_entries_def list.map snd_conv list_all2_Cons
  by (intro conjI list_all2_Nil2 [THEN iffD2] refl)
     (simp_all only: io_ok_simps op_totals,
      (rule op_total_log op_total_dup op_total_swap op_total_makePush; simp)+)

end
