(* ===== verification/Interp_Facts.thy ===== *)
theory Interp_Facts
  imports Op_Table
begin

text \<open>
  The interpreter never panics and always ends. The gas calculation establishes what the
  instruction functions need, every iteration keeps the frame well-formed, and every iteration
  that continues uses gas.
\<close>

section \<open>The gas calculation establishes the requirements\<close>

definition in_family :: "OpCode \<Rightarrow> bool" where
  "in_family op \<longleftrightarrow> SWAP1 \<le> op \<and> op \<le> SWAP16 \<or> DUP1 \<le> op \<and> op \<le> DUP16 \<or> LOG0 \<le> op \<and> op \<le> LOG4"

text \<open>The instructions whose price is not (only) the one of the table.\<close>

definition priced_by_table :: "OpCode \<Rightarrow> bool" where
  "priced_by_table op \<longleftrightarrow> \<not> in_family op \<and> op \<noteq> SSTORE"

lemma pops_base:
  assumes "\<not> in_family op" and "baseCheck op st g = Inr g'"
  shows "pops op \<le> st_len st"
  using assms baseCheck_ok(1) [OF assms(2)]
  by (auto simp: pops_def in_family_def split: option.split)

definition gas_ok :: "OpCode \<Rightarrow> stack \<Rightarrow> int \<Rightarrow> int \<times> int \<Rightarrow> bool" where
  "gas_ok op st g0 ng \<longleftrightarrow>
     (case ng of (n, g) \<Rightarrow>
        0 \<le> n \<and> pops op \<le> st_len st \<and> (\<forall>m. n \<le> m \<longrightarrow> kind_req (op_kind op) st m) \<and>
        0 \<le> g \<and> (3 \<le> g \<or> g0 \<le> g \<and> priced_by_table op) \<and>
        (op_kind op = MCall \<longrightarrow>
           (\<forall>gas value. st_back st 1 = Some gas \<longrightarrow> st_back st 3 = Some value \<longrightarrow>
              g0 + call_gas gas value \<le> g)))"

text \<open>The outcome of the gas calculation that the loop continues with.\<close>

definition dyn_ok :: "OpCode \<Rightarrow> stack \<Rightarrow> int \<Rightarrow> statedb \<Rightarrow> gas_result option \<Rightarrow> bool" where
  "dyn_ok op st g0 db res \<longleftrightarrow>
     (\<exists>r db'. res = Some (r, db') \<and> db_step db db' \<and> (\<forall>ng. r = Inr ng \<longrightarrow> gas_ok op st g0 ng))"

lemma dyn_okI:
  "db_step db db' \<Longrightarrow> gas_ok op st g0 ng \<Longrightarrow> dyn_ok op st g0 db (Some (Inr ng, db'))"
  by (auto simp: dyn_ok_def)

lemma op_kind_vals:
  "op_kind EXP = MNone" "op_kind SSTORE = MNone" "op_kind SUICIDE = MNone"
  "op_kind MLOAD = MConst 1 32" "op_kind MSTORE = MConst 1 32" "op_kind MSTORE8 = MConst 1 1"
  "op_kind RETURN = MRange 1 2" "op_kind SHA3 = MRange 1 2" "op_kind CALLDATACOPY = MRange 1 3"
  "op_kind CODECOPY = MRange 1 3" "op_kind EXTCODECOPY = MRange 2 4" "op_kind CREATE = MCreate"
  "op_kind CALL = MCall" "op_kind CALLCODE = MCall"
  by code_simp+

lemma priced_vals:
  "priced_by_table EXP" "priced_by_table SUICIDE" "priced_by_table MLOAD" "priced_by_table MSTORE"
  "priced_by_table MSTORE8" "priced_by_table RETURN" "priced_by_table SHA3"
  "priced_by_table CALLDATACOPY" "priced_by_table CODECOPY" "priced_by_table EXTCODECOPY"
  "priced_by_table CREATE" "priced_by_table CALL" "priced_by_table CALLCODE"
  by code_simp+

lemma pops_vals:
  "pops EXP = 2" "pops SSTORE = 2" "pops SUICIDE = 1" "pops MLOAD = 1" "pops MSTORE = 2"
  "pops MSTORE8 = 2" "pops RETURN = 2" "pops SHA3 = 2" "pops CALLDATACOPY = 3" "pops CODECOPY = 3"
  "pops EXTCODECOPY = 4" "pops CREATE = 3" "pops CALL = 7" "pops CALLCODE = 7"
  by code_simp+

lemma op_kind_family:
  assumes "in_family op"
  shows "op_kind op = (if LOG0 \<le> op \<and> op \<le> LOG4 then MRange 1 2 else MNone)"
  using assms by (auto simp: op_kind_def in_family_def)

lemma mem_req_range:
  "st_back st i = Some off \<Longrightarrow> st_back st j = Some l \<Longrightarrow> calcMemSize off l \<le> m \<Longrightarrow> mem_req i j st m"
  "st_back st i = Some off \<Longrightarrow> calcMemSize off k \<le> m \<Longrightarrow> mem_req_const i k st m"
  by (simp_all add: mem_req_def mem_req_const_def)

lemma families_disjoint:
  fixes op :: OpCode
  shows "SWAP1 \<le> op \<Longrightarrow> \<not> op \<le> DUP16" "LOG0 \<le> op \<Longrightarrow> \<not> op \<le> DUP16" "LOG0 \<le> op \<Longrightarrow> \<not> op \<le> SWAP16"
  by (simp_all add: word_le_nat_alt)

lemma dynamicGas_swap:
  assumes "SWAP1 \<le> op" "op \<le> SWAP16" "db_ok db"
  shows "dyn_ok op st g0 db (dynamicGas c op db st g0)"
proof -
  have d: "dynamicGas c op db st g0 = Some (gas_require st (unat (op - SWAP1 + 2)) db (0, GasFastestStep))"
    using assms by (simp only: dynamicGas_def simp_thms if_True)
  have "in_family op" "pops op = unat (op - SWAP1 + 2)" "\<not> (LOG0 \<le> op \<and> op \<le> LOG4)"
    using assms families_disjoint [of op] by (auto simp: in_family_def pops_def)
  then show ?thesis
    unfolding d using assms(3) op_kind_family [of op]
    by (auto simp: dyn_ok_def gas_require_def st_require_def gas_ok_def no_req_def split: option.split if_splits)
qed

lemma dynamicGas_dup:
  assumes "DUP1 \<le> op" "op \<le> DUP16" "db_ok db"
  shows "dyn_ok op st g0 db (dynamicGas c op db st g0)"
proof -
  have f: "\<not> (SWAP1 \<le> op \<and> op \<le> SWAP16)" using assms families_disjoint [of op] by auto
  have d: "dynamicGas c op db st g0 = Some (gas_require st (unat (op - DUP1 + 1)) db (0, GasFastestStep))"
    using assms f by (simp only: dynamicGas_def simp_thms if_True if_False)
  have "in_family op" "pops op = unat (op - DUP1 + 1)" "\<not> (LOG0 \<le> op \<and> op \<le> LOG4)"
    using assms f families_disjoint [of op] by (auto simp: in_family_def pops_def)
  then show ?thesis
    unfolding d using assms(3) op_kind_family [of op]
    by (auto simp: dyn_ok_def gas_require_def st_require_def gas_ok_def no_req_def split: option.split if_splits)
qed

lemma wf_back: "wf_stack st \<Longrightarrow> 0 < n \<Longrightarrow> n \<le> st_len st \<Longrightarrow> \<exists>x. st_back st n = Some x \<and> 0 \<le> x"
  using st_back_defined [of n st] st_back_wf [of st n] by (auto simp: is_u256_def)

lemma dynamicGas_log:
  assumes "LOG0 \<le> op" "op \<le> LOG4" "db_ok db" "wf_stack st" "0 \<le> g0"
  shows "dyn_ok op st g0 db (dynamicGas c op db st g0)"
proof (cases "st_require st (unat (op - LOG0) + 2)")
  case (Some err)
  have f: "\<not> (SWAP1 \<le> op \<and> op \<le> SWAP16)" "\<not> (DUP1 \<le> op \<and> op \<le> DUP16)"
    using assms families_disjoint [of op] by auto
  then have "dynamicGas c op db st g0 = Some (Inl err, db)"
    using assms Some by (simp only: dynamicGas_def simp_thms if_True if_False Let_def option.case)
  then show ?thesis using assms(3) by (auto simp: dyn_ok_def)
next
  case None
  have f: "\<not> (SWAP1 \<le> op \<and> op \<le> SWAP16)" "\<not> (DUP1 \<le> op \<and> op \<le> DUP16)"
    using assms families_disjoint [of op] by auto
  have len: "unat (op - LOG0) + 2 \<le> st_len st" using None by (simp add: st_require_def split: if_splits)
  obtain l off where b: "st_back st 2 = Some l" "st_back st 1 = Some off" and pos: "0 \<le> l" "0 \<le> off"
    using wf_back [OF assms(4), of 1] wf_back [OF assms(4), of 2] len by auto
  have d: "dynamicGas c op db st g0 = Some (Inr (calcMemSize off l,
      g0 + LogGas + int (unat (op - LOG0)) * LogTopicGas + l * LogDataGas), db)"
    using assms f None b
    by (simp only: dynamicGas_def simp_thms if_True if_False Let_def option.case bind.bind_lunit)
  have "op_kind op = MRange 1 2" "pops op = unat (op - LOG0) + 2"
    using op_kind_family [of op] assms f by (auto simp: in_family_def pops_def)
  then show ?thesis
    unfolding d using assms(3,5) len pos b
    by (intro dyn_okI db_step_refl) (auto simp: gas_ok_def calcMemSize_nonneg intro: mem_req_range)
qed

lemma dynamicGas_simps:
  "dynamicGas c EXP db st g0 =
     do { y \<leftarrow> st_back st 2; Some (Inr (0, g0 + int (length (big_Bytes y)) * ExpByteGas), db) }"
  "dynamicGas c MLOAD db st g0 = do { off \<leftarrow> st_back st 1; Some (Inr (calcMemSize off 32, g0), db) }"
  "dynamicGas c MSTORE db st g0 = do { off \<leftarrow> st_back st 1; Some (Inr (calcMemSize off 32, g0), db) }"
  "dynamicGas c MSTORE8 db st g0 = do { off \<leftarrow> st_back st 1; Some (Inr (calcMemSize off 1, g0), db) }"
  "dynamicGas c RETURN db st g0 =
     do { off \<leftarrow> st_back st 1; l \<leftarrow> st_back st 2; Some (Inr (calcMemSize off l, g0), db) }"
  "dynamicGas c SHA3 db st g0 =
     do { off \<leftarrow> st_back st 1; l \<leftarrow> st_back st 2;
          Some (Inr (calcMemSize off l, g0 + toWordSize l * Sha3WordGas), db) }"
  "dynamicGas c CALLDATACOPY db st g0 =
     do { off \<leftarrow> st_back st 1; l \<leftarrow> st_back st 3;
          Some (Inr (calcMemSize off l, g0 + toWordSize l * CopyGas), db) }"
  "dynamicGas c CODECOPY db st g0 =
     do { off \<leftarrow> st_back st 1; l \<leftarrow> st_back st 3;
          Some (Inr (calcMemSize off l, g0 + toWordSize l * CopyGas), db) }"
  "dynamicGas c EXTCODECOPY db st g0 =
     do { off \<leftarrow> st_back st 2; l \<leftarrow> st_back st 4;
          Some (Inr (calcMemSize off l, g0 + toWordSize l * CopyGas), db) }"
  "dynamicGas c CREATE db st g0 =
     do { off \<leftarrow> st_back st 2; l \<leftarrow> st_back st 3; Some (Inr (calcMemSize off l, g0), db) }"
  "dynamicGas c SUICIDE db st g0 =
     (let (deleted, db) = IsDeleted db (ct_self c) in
      Some (Inr (0, g0), if \<not> deleted then AddRefund db SuicideRefundGas else db))"
  by (simp_all add: dynamicGas_def st_peek_def)

lemma dyn_range:
  assumes "dynamicGas c op db st g0 =
      do { off \<leftarrow> st_back st i; l \<leftarrow> st_back st j; Some (Inr (calcMemSize off l, g0 + f l), db) }"
    and "op_kind op = MRange i j \<or> op_kind op = MCreate \<and> i = 2 \<and> j = 3"
    and "\<And>l. 0 \<le> l \<Longrightarrow> 0 \<le> f l" and "0 < i" "i \<le> pops op" "0 < j" "j \<le> pops op"
    and "db_ok db" "wf_stack st" "0 \<le> g0" "pops op \<le> st_len st" "priced_by_table op"
  shows "dyn_ok op st g0 db (dynamicGas c op db st g0)"
proof -
  obtain off l where b: "st_back st i = Some off" "st_back st j = Some l" and pos: "0 \<le> off" "0 \<le> l"
    using wf_back [OF assms(9), of i] wf_back [OF assms(9), of j] assms(4-7,11) by auto
  have f: "0 \<le> f l" using assms(3) pos(2) .
  have "kind_req (op_kind op) st m" if "calcMemSize off l \<le> m" for m
    using assms(2) mem_req_range(1) [OF b that] by auto
  moreover have "op_kind op \<noteq> MCall" using assms(2) by auto
  ultimately show ?thesis
    unfolding assms(1) b bind.bind_lunit
    using f assms(8,10-12) calcMemSize_nonneg [OF pos]
    by (intro dyn_okI db_step_refl) (simp_all add: gas_ok_def)
qed

lemma dyn_const:
  assumes "dynamicGas c op db st g0 = do { off \<leftarrow> st_back st 1; Some (Inr (calcMemSize off k, g0), db) }"
    and "op_kind op = MConst 1 k" and "0 \<le> k" and "1 \<le> pops op"
    and "db_ok db" "wf_stack st" "0 \<le> g0" "pops op \<le> st_len st" "priced_by_table op"
  shows "dyn_ok op st g0 db (dynamicGas c op db st g0)"
proof -
  obtain off where b: "st_back st 1 = Some off" and pos: "0 \<le> off"
    using wf_back [OF assms(6), of 1] assms(4,8) by auto
  have "kind_req (op_kind op) st m" if "calcMemSize off k \<le> m" for m
    using assms(2) mem_req_range(2) [OF b that] by simp
  then show ?thesis
    unfolding assms(1) b bind.bind_lunit
    using assms(2,5,7-9) calcMemSize_nonneg [OF pos assms(3)]
    by (intro dyn_okI db_step_refl) (simp_all add: gas_ok_def)
qed

lemma dynamicGas_constant:
  assumes "db_ok db" "wf_stack st" "0 \<le> g0"
  shows "pops MLOAD \<le> st_len st \<Longrightarrow> dyn_ok MLOAD st g0 db (dynamicGas c MLOAD db st g0)"
    "pops MSTORE \<le> st_len st \<Longrightarrow> dyn_ok MSTORE st g0 db (dynamicGas c MSTORE db st g0)"
    "pops MSTORE8 \<le> st_len st \<Longrightarrow> dyn_ok MSTORE8 st g0 db (dynamicGas c MSTORE8 db st g0)"
proof -
  show "pops MLOAD \<le> st_len st \<Longrightarrow> dyn_ok MLOAD st g0 db (dynamicGas c MLOAD db st g0)"
    by (rule dyn_const [OF dynamicGas_simps(2) _ _ _ assms]) (simp_all add: priced_vals pops_vals op_kind_vals)
  show "pops MSTORE \<le> st_len st \<Longrightarrow> dyn_ok MSTORE st g0 db (dynamicGas c MSTORE db st g0)"
    by (rule dyn_const [OF dynamicGas_simps(3) _ _ _ assms]) (simp_all add: priced_vals pops_vals op_kind_vals)
  show "pops MSTORE8 \<le> st_len st \<Longrightarrow> dyn_ok MSTORE8 st g0 db (dynamicGas c MSTORE8 db st g0)"
    by (rule dyn_const [OF dynamicGas_simps(4) _ _ _ assms]) (simp_all add: priced_vals pops_vals op_kind_vals)
qed

lemma toWordSize_fee: "0 \<le> k \<Longrightarrow> 0 \<le> l \<Longrightarrow> 0 \<le> toWordSize l * k"
  by (simp add: toWordSize_nonneg)

lemma dynamicGas_range:
  assumes "db_ok db" "wf_stack st" "0 \<le> g0"
  shows "pops RETURN \<le> st_len st \<Longrightarrow> dyn_ok RETURN st g0 db (dynamicGas c RETURN db st g0)"
    "pops SHA3 \<le> st_len st \<Longrightarrow> dyn_ok SHA3 st g0 db (dynamicGas c SHA3 db st g0)"
    "pops CALLDATACOPY \<le> st_len st \<Longrightarrow> dyn_ok CALLDATACOPY st g0 db (dynamicGas c CALLDATACOPY db st g0)"
    "pops CODECOPY \<le> st_len st \<Longrightarrow> dyn_ok CODECOPY st g0 db (dynamicGas c CODECOPY db st g0)"
    "pops EXTCODECOPY \<le> st_len st \<Longrightarrow> dyn_ok EXTCODECOPY st g0 db (dynamicGas c EXTCODECOPY db st g0)"
    "pops CREATE \<le> st_len st \<Longrightarrow> dyn_ok CREATE st g0 db (dynamicGas c CREATE db st g0)"
proof -
  show "pops SHA3 \<le> st_len st \<Longrightarrow> dyn_ok SHA3 st g0 db (dynamicGas c SHA3 db st g0)"
    by (rule dyn_range [OF dynamicGas_simps(6) _ toWordSize_fee _ _ _ _ assms])
       (simp_all add: priced_vals pops_vals op_kind_vals)
  show "pops CALLDATACOPY \<le> st_len st \<Longrightarrow> dyn_ok CALLDATACOPY st g0 db (dynamicGas c CALLDATACOPY db st g0)"
    by (rule dyn_range [OF dynamicGas_simps(7) _ toWordSize_fee _ _ _ _ assms])
       (simp_all add: priced_vals pops_vals op_kind_vals)
  show "pops CODECOPY \<le> st_len st \<Longrightarrow> dyn_ok CODECOPY st g0 db (dynamicGas c CODECOPY db st g0)"
    by (rule dyn_range [OF dynamicGas_simps(8) _ toWordSize_fee _ _ _ _ assms])
       (simp_all add: priced_vals pops_vals op_kind_vals)
  show "pops EXTCODECOPY \<le> st_len st \<Longrightarrow> dyn_ok EXTCODECOPY st g0 db (dynamicGas c EXTCODECOPY db st g0)"
    by (rule dyn_range [OF dynamicGas_simps(9) _ toWordSize_fee _ _ _ _ assms])
       (simp_all add: priced_vals pops_vals op_kind_vals)
  show "pops RETURN \<le> st_len st \<Longrightarrow> dyn_ok RETURN st g0 db (dynamicGas c RETURN db st g0)"
    by (rule dyn_range [where f = "\<lambda>_. 0" and i = 1 and j = 2, OF _ _ _ _ _ _ _ assms])
       (simp_all add: priced_vals pops_vals op_kind_vals dynamicGas_simps)
  show "pops CREATE \<le> st_len st \<Longrightarrow> dyn_ok CREATE st g0 db (dynamicGas c CREATE db st g0)"
    by (rule dyn_range [where f = "\<lambda>_. 0" and i = 2 and j = 3, OF _ _ _ _ _ _ _ assms])
       (simp_all add: priced_vals pops_vals op_kind_vals dynamicGas_simps)
qed

lemma dynamicGas_EXP:
  assumes "db_ok db" "wf_stack st" "0 \<le> g0" "pops EXP \<le> st_len st"
  shows "dyn_ok EXP st g0 db (dynamicGas c EXP db st g0)"
proof -
  obtain y where "st_back st 2 = Some y" using wf_back [of st 2] assms by (auto simp: pops_vals)
  then show ?thesis
    unfolding dynamicGas_simps using assms
    by (auto intro!: dyn_okI simp: gas_ok_def op_kind_vals priced_vals no_req_def)
qed

lemma dynamicGas_SUICIDE:
  assumes "db_ok db" "0 \<le> g0" "pops SUICIDE \<le> st_len st"
  shows "dyn_ok SUICIDE st g0 db (dynamicGas c SUICIDE db st g0)"
proof -
  have q: "db_step db (snd (IsDeleted db (ct_self c)))" by (rule db_step_queries) fact
  then have "db_step db (AddRefund (snd (IsDeleted db (ct_self c))) SuicideRefundGas)"
    by (rule db_step_trans) (rule db_step_setters(4) [OF db_step_ok [OF q]], simp)
  with q show ?thesis
    unfolding dynamicGas_simps case_prod_beta Let_def using assms
    by (auto intro!: dyn_okI simp: gas_ok_def op_kind_vals priced_vals no_req_def)
qed

lemma dynamicGas_SSTORE:
  assumes "db_ok db" "wf_stack st" "0 \<le> g0" "pops SSTORE \<le> st_len st"
  shows "dyn_ok SSTORE st g0 db (dynamicGas c SSTORE db st g0)"
proof -
  obtain x y where b: "st_back st 2 = Some y" "st_back st 1 = Some x"
    using wf_back [of st 2] wf_back [of st 1] assms by (auto simp: pops_vals)
  let ?q = "GetState db (ct_self c) (BigToHash x)"
  have "st_require st 2 = None" using assms(4) by (simp add: st_require_def pops_vals)
  then have d: "dynamicGas c SSTORE db st g0 =
      Some (if EmptyHash (fst ?q) \<and> \<not> EmptyHash (BigToHash y) then (Inr (0, SstoreSetGas), snd ?q)
            else if \<not> EmptyHash (fst ?q) \<and> EmptyHash (BigToHash y)
            then (Inr (0, SstoreClearGas), AddRefund (snd ?q) SstoreRefundGas)
            else (Inr (0, SstoreClearGas), snd ?q))"
    using b by (simp add: dynamicGas_def case_prod_beta)
  have q: "db_step db (snd ?q)" by (rule db_step_queries) fact
  then have "db_step db (AddRefund (snd ?q) SstoreRefundGas)"
    by (rule db_step_trans) (rule db_step_setters(4) [OF db_step_ok [OF q]], simp)
  with q show ?thesis
    unfolding d using assms by (auto intro!: dyn_okI simp: gas_ok_def op_kind_vals priced_vals no_req_def)
qed

lemma dynamicGas_call_eq:
  fixes db :: statedb
  assumes "op = CALL \<or> op = CALLCODE"
    and "st_back st 1 = Some g" "st_back st 2 = Some a" "st_back st 3 = Some v"
    "st_back st 4 = Some d" "st_back st 5 = Some e" "st_back st 6 = Some h" "st_back st 7 = Some k"
  defines "q \<equiv> if op = CALL then Exist db (BigToAddress a) else (True, db)"
  shows "dynamicGas c op db st g0 =
      Some (Inr (BigMax (calcMemSize h k) (calcMemSize d e),
        g0 + g + (if fst q then 0 else CallNewAccountGas) + (if v = 0 then 0 else CallValueTransferGas)), snd q)"
  using assms(1)
proof
  assume op: "op = CALL"
  show ?thesis unfolding q_def op by (simp add: dynamicGas_def assms(2) [unfolded One_nat_def] assms(3-8) case_prod_beta)
next
  assume op: "op = CALLCODE"
  show ?thesis unfolding q_def op by (simp add: dynamicGas_def assms(2) [unfolded One_nat_def] assms(3-8) case_prod_beta)
qed

lemma dynamicGas_CALL:
  assumes "op = CALL \<or> op = CALLCODE" "db_ok db" "wf_stack st" "0 \<le> g0" "pops op \<le> st_len st"
  shows "dyn_ok op st g0 db (dynamicGas c op db st g0)"
proof -
  have len: "7 \<le> st_len st" "op_kind op = MCall" "priced_by_table op"
    using assms(1,5) by (auto simp: pops_vals op_kind_vals priced_vals)
  note wf = wf_back [OF assms(3)]
  obtain g where g: "st_back st 1 = Some g" "0 \<le> g" using wf [of 1] len(1) by auto
  obtain a where a: "st_back st 2 = Some a" using wf [of 2] len(1) by auto
  obtain v where v: "st_back st 3 = Some v" using wf [of 3] len(1) by auto
  obtain d where d: "st_back st 4 = Some d" "0 \<le> d" using wf [of 4] len(1) by auto
  obtain e where e: "st_back st 5 = Some e" "0 \<le> e" using wf [of 5] len(1) by auto
  obtain h where h: "st_back st 6 = Some h" "0 \<le> h" using wf [of 6] len(1) by auto
  obtain k where k: "st_back st 7 = Some k" "0 \<le> k" using wf [of 7] len(1) by auto
  define q where "q = (if op = CALL then Exist db (BigToAddress a) else (True, db))"
  define gas where
    "gas = g0 + g + (if fst q then 0 else CallNewAccountGas) + (if v = 0 then 0 else CallValueTransferGas)"
  have eq: "dynamicGas c op db st g0 =
      Some (Inr (BigMax (calcMemSize h k) (calcMemSize d e), gas), snd q)"
    unfolding gas_def q_def by (rule dynamicGas_call_eq [OF assms(1) g(1) a v d(1) e(1) h(1) k(1)])
  have "db_step db (snd q)" using db_step_queries(1) [OF assms(2)] assms(2) by (auto simp: q_def)
  moreover have gas: "g0 + call_gas g v \<le> gas" by (simp add: gas_def call_gas_def)
  moreover have "0 \<le> call_gas g v" using g(2) by (simp add: call_gas_def)
  moreover have "mem_req 4 5 st m \<and> mem_req 6 7 st m"
    if "max (calcMemSize h k) (calcMemSize d e) \<le> m" for m
    using that mem_req_range(1) [OF d(1) e(1), of m] mem_req_range(1) [OF h(1) k(1), of m] by simp
  moreover have "0 \<le> max (calcMemSize h k) (calcMemSize d e)"
    using calcMemSize_nonneg [OF d(2) e(2)] by simp
  moreover have "\<forall>gas' value. st_back st 1 = Some gas' \<longrightarrow> st_back st 3 = Some value \<longrightarrow>
      g0 + call_gas gas' value \<le> gas"
    using g(1) v gas by (metis option.inject)
  ultimately have "gas_ok op st g0 (max (calcMemSize h k) (calcMemSize d e), gas)"
    using assms(4,5) len unfolding gas_ok_def prod.case kind_req.simps by simp
  then show ?thesis
    unfolding eq BigMax_max using \<open>db_step db (snd q)\<close> by (intro dyn_okI)
qed

lemma dynamicGas_other:
  assumes "\<not> in_family op"
    and "op \<notin> {EXP, SSTORE, SUICIDE, MLOAD, MSTORE8, MSTORE, RETURN, SHA3, CALLDATACOPY, CODECOPY,
      EXTCODECOPY, CREATE, CALL, CALLCODE}"
  shows "dynamicGas c op db st g0 = Some (Inr (0, g0), db)" "op_kind op = MNone" "priced_by_table op"
proof -
  have f: "\<not> (SWAP1 \<le> op \<and> op \<le> SWAP16)" "\<not> (DUP1 \<le> op \<and> op \<le> DUP16)" "\<not> (LOG0 \<le> op \<and> op \<le> LOG4)"
    using assms(1) unfolding in_family_def by blast+
  have n: "op \<noteq> EXP" "op \<noteq> SSTORE" "op \<noteq> SUICIDE" "op \<noteq> MLOAD" "op \<noteq> MSTORE8" "op \<noteq> MSTORE"
    "op \<noteq> RETURN" "op \<noteq> SHA3" "op \<noteq> CALLDATACOPY" "op \<noteq> CODECOPY" "op \<noteq> EXTCODECOPY" "op \<noteq> CREATE"
    "op \<noteq> CALL" "op \<noteq> CALLCODE"
    using assms(2) by blast+
  show "dynamicGas c op db st g0 = Some (Inr (0, g0), db)"
    unfolding dynamicGas_def by (simp only: f n if_False simp_thms)
  show "op_kind op = MNone" unfolding op_kind_def by (simp only: f n if_False simp_thms)
  show "priced_by_table op" unfolding priced_by_table_def using assms(1) n(2) by blast
qed

lemma dynamicGas_ok:
  assumes "db_ok db" "wf_stack st" "baseCheck op st 0 = Inr g0"
  shows "dyn_ok op st g0 db (dynamicGas c op db st g0)"
proof (cases "in_family op")
  case True
  have "0 \<le> g0" using baseCheck_gas_nonneg [OF assms(3)] .
  with True assms show ?thesis
    unfolding in_family_def by (elim disjE conjE) (simp_all add: dynamicGas_swap dynamicGas_dup dynamicGas_log)
next
  case False
  have g0: "0 \<le> g0" using baseCheck_gas_nonneg [OF assms(3)] .
  have p: "pops op \<le> st_len st" using pops_base [OF False assms(3)] .
  note special = dynamicGas_EXP [OF assms(1,2) g0] dynamicGas_SSTORE [OF assms(1,2) g0]
    dynamicGas_SUICIDE [OF assms(1) g0] dynamicGas_constant [OF assms(1,2) g0]
    dynamicGas_range [OF assms(1,2) g0] dynamicGas_CALL [OF _ assms(1,2) g0]
  show ?thesis
  proof (cases "op \<in> {EXP, SSTORE, SUICIDE, MLOAD, MSTORE8, MSTORE, RETURN, SHA3, CALLDATACOPY, CODECOPY,
      EXTCODECOPY, CREATE, CALL, CALLCODE}")
    case True
    show ?thesis
      by (insert True p, unfold insert_iff empty_iff)
         (elim disjE FalseE; hypsubst; (rule special; (assumption | simp)))
  next
    case False': False
    show ?thesis
      unfolding dynamicGas_other [OF False False']
      using assms(1) g0 p dynamicGas_other(2,3) [OF False False']
      by (intro dyn_okI db_step_refl) (simp_all add: gas_ok_def no_req_def)
  qed
qed

end
