(* ===== verification/Step_Facts.thy ===== *)
theory Step_Facts
  imports Interp_Facts
begin

text \<open>
  One iteration of the interpreter: it is defined, keeps the invariant of the frame, and where
  the loop continues it has used gas.
\<close>

section \<open>The price and the stack effect of an iteration\<close>

definition halting :: "OpCode \<Rightarrow> bool" where
  "halting op \<longleftrightarrow> op = STOP \<or> op = RETURN \<or> op = SUICIDE"

lemma table_prices:
  "list_all (\<lambda>(op, f). halting op \<or> \<not> priced_by_table op \<or>
     (case baseCheck_req (baseCheck_key op) of Some r \<Rightarrow> 1 \<le> req_gas r | None \<Rightarrow> False)) jumpTable_entries"
  by code_simp

lemma jumpTable_entry: "jumpTable op = Some f \<Longrightarrow> (op, f) \<in> set jumpTable_entries"
  by (simp add: jumpTable_def map_of_SomeD)

lemma base_price:
  assumes "jumpTable op = Some f" "\<not> halting op" "priced_by_table op" "baseCheck op st 0 = Inr g0"
  shows "1 \<le> g0"
proof -
  from table_prices jumpTable_entry [OF assms(1)] assms(2,3)
  obtain r where "baseCheck_req (baseCheck_key op) = Some r" "1 \<le> req_gas r"
    by (fastforce simp: list_all_iff split: option.splits)
  then show ?thesis using baseCheck_ok(2) [OF assms(4)] by simp
qed

lemma LOG_range:
  fixes op :: OpCode
  assumes "LOG0 \<le> op" "op \<le> LOG4"
  shows "op \<in> {LOG0, LOG1, LOG2, LOG3, LOG4}"
proof -
  have "unat op = 160 \<or> unat op = 161 \<or> unat op = 162 \<or> unat op = 163 \<or> unat op = 164"
    using assms by (simp add: word_le_nat_alt) linarith
  then show ?thesis by (auto simp: word_unat_eq_iff)
qed

lemma pushes_LOG: "pushes LOG0 = 0" "pushes LOG1 = 0" "pushes LOG2 = 0" "pushes LOG3 = 0" "pushes LOG4 = 0"
  by code_simp+

lemma DUP_req: "DUP1 \<le> op \<Longrightarrow> op \<le> DUP16 \<Longrightarrow>
    baseCheck_req (baseCheck_key op) = Some \<lparr>stackPop = 0, req_gas = 0, stackPush = 1\<rparr>"
proof -
  assume "DUP1 \<le> op" "op \<le> DUP16"
  then have "baseCheck_key op = DUP1"
    by (auto simp: baseCheck_key_def Let_def word_le_nat_alt)
  moreover have "baseCheck_req DUP1 = Some \<lparr>stackPop = 0, req_gas = 0, stackPush = 1\<rparr>"
    by code_simp
  ultimately show ?thesis by simp
qed

lemma stack_limit:
  assumes "baseCheck op st 0 = Inr g0" "pops op \<le> st_len st" "st_len st \<le> 1024"
  shows "st_len st - pops op + pushes op \<le> 1024"
proof -
  consider "SWAP1 \<le> op \<and> op \<le> SWAP16" | "DUP1 \<le> op \<and> op \<le> DUP16" | "LOG0 \<le> op \<and> op \<le> LOG4"
    | "\<not> in_family op" by (auto simp: in_family_def)
  then show ?thesis
  proof cases
    case 1
    then have "pushes op = pops op" by (simp add: pops_def pushes_def)
    then show ?thesis using assms by simp
  next
    case 2
    then have "\<not> (SWAP1 \<le> op \<and> op \<le> SWAP16)" using families_disjoint [of op] by auto
    then have "pushes op = pops op + 1" using 2 by (simp only: pops_def pushes_def if_True if_False simp_thms)
    then show ?thesis using baseCheck_ok(3) [OF assms(1) DUP_req] 2 assms(2) by simp
  next
    case 3
    then have "pushes op = 0" using LOG_range [of op] pushes_LOG by auto
    then show ?thesis using assms by simp
  next
    case 4
    then have f: "\<not> (SWAP1 \<le> op \<and> op \<le> SWAP16)" "\<not> (DUP1 \<le> op \<and> op \<le> DUP16)" "\<not> (LOG0 \<le> op \<and> op \<le> LOG4)"
      unfolding in_family_def by blast+
    show ?thesis
    proof (cases "baseCheck_req (baseCheck_key op)")
      case None
      then have "pushes op = 0" unfolding pushes_def by (simp only: f if_False simp_thms option.case split: if_split)
      then show ?thesis using assms by simp
    next
      case (Some r)
      then have "pops op = stackPop r" "pushes op = stackPush r \<or> pushes op = 0"
        unfolding pushes_def pops_def by (simp_all only: f if_False simp_thms option.case split: if_split)
      then show ?thesis using baseCheck_ok(3) [OF assms(1) Some] assms by (cases "stackPush r = 0") auto
    qed
  qed
qed

section \<open>What the gas calculation returns\<close>

text \<open>\<open>base\<close> is the price without the growth of the memory to \<open>w\<close> words.\<close>

definition charge_ok :: "OpCode \<Rightarrow> stack \<Rightarrow> int \<Rightarrow> int \<Rightarrow> bool" where
  "charge_ok op st w base \<longleftrightarrow>
     0 \<le> w \<and> 0 \<le> base \<and> pops op \<le> st_len st \<and> st_len st - pops op + pushes op \<le> 1024 \<and>
     kind_req (op_kind op) st (32 * w) \<and> (jumpTable op \<noteq> None \<and> \<not> halting op \<longrightarrow> 1 \<le> base) \<and>
     (op_kind op = MCall \<longrightarrow>
        (\<forall>gas value. st_back st 1 = Some gas \<longrightarrow> st_back st 3 = Some value \<longrightarrow> call_gas gas value < base))"

lemma op_kind_MCall: "op_kind op = MCall \<longleftrightarrow> op = CALL \<or> op = CALLCODE"
  by (auto simp: op_kind_def split: if_splits)

lemma op_kind_MCreate: "op_kind op = MCreate \<longleftrightarrow> op = CREATE"
  by (auto simp: op_kind_def split: if_splits)

lemma CALL_price:
  assumes "op = CALL \<or> op = CALLCODE" "baseCheck op st 0 = Inr g0"
  shows "g0 = CallGas"
proof -
  have "baseCheck_req (baseCheck_key CALL) = Some \<lparr>stackPop = 7, req_gas = CallGas, stackPush = 1\<rparr>"
    "baseCheck_req (baseCheck_key CALLCODE) = Some \<lparr>stackPop = 7, req_gas = CallGas, stackPush = 1\<rparr>"
    by code_simp+
  then show ?thesis using assms baseCheck_ok(2) [OF assms(2)] by auto
qed

lemma calculateGasAndSize_ok:
  assumes "db_ok db" "wf_stack st" "st_len st \<le> 1024" "wf_mem mem"
  shows "\<exists>r db'. calculateGasAndSize c op db mem st = Some (r, db') \<and> db_step db db' \<and>
    (\<forall>n cost. r = Inr (n, cost) \<longrightarrow>
       (\<exists>w base. n = 32 * w \<and> cost = base + (mem_fee (max (mem_words mem) w) - mem_fee (mem_words mem)) \<and>
          charge_ok op st w base))"
proof (cases "baseCheck op st 0")
  case (Inl err)
  then show ?thesis using assms(1) by (auto simp: calculateGasAndSize_def)
next
  case (Inr g0)
  from dynamicGas_ok [OF assms(1,2) Inr, of c] obtain r db' where
    d: "dynamicGas c op db st g0 = Some (r, db')" "db_step db db'" and g: "\<And>ng. r = Inr ng \<Longrightarrow> gas_ok op st g0 ng"
    by (auto simp: dyn_ok_def)
  show ?thesis
  proof (cases r)
    case (Inl err)
    then show ?thesis using Inr d by (simp add: calculateGasAndSize_def)
  next
    case r: (Inr ng)
    obtain n g' where ng: "ng = (n, g')" by (cases ng)
    have ok: "gas_ok op st g0 (n, g')" using g r ng by simp
    then have n: "0 \<le> n" by (simp add: gas_ok_def)
    have "charge_ok op st (toWordSize n) g'"
    proof -
      have "1 \<le> g'" if "jumpTable op \<noteq> None" "\<not> halting op"
        using that ok base_price [OF _ that(2) _ Inr] by (fastforce simp: gas_ok_def)
      moreover have "call_gas gas val < g'"
        if "op_kind op = MCall" "st_back st 1 = Some gas" "st_back st 3 = Some val" for gas val
        using that ok CALL_price [OF _ Inr] unfolding gas_ok_def op_kind_MCall prod.case by fastforce
      ultimately show ?thesis
        using ok stack_limit [OF Inr _ assms(3)] toWordSize_nonneg [OF n] toWordSize_covers [of n]
        unfolding charge_ok_def gas_ok_def prod.case by blast
    qed
    then show ?thesis
      using Inr d r ng quadMemGas_eq [OF assms(4) n]
      by (auto simp: calculateGasAndSize_def)
  qed
qed

section \<open>The instruction\<close>

text \<open>The gas of the frame and the fee of its memory: what an iteration cannot increase.\<close>

definition budget :: "frame \<Rightarrow> int" where
  "budget fr = mem_fee (mem_words (fr_mem fr)) + ct_Gas (fr_contract fr)"

text \<open>The contract of a frame changes in its gas counters only.\<close>

definition same_contract :: "frame \<Rightarrow> frame \<Rightarrow> bool" where
  "same_contract fr fr' \<longleftrightarrow>
     (\<exists>gas used. fr_contract fr' = (fr_contract fr)\<lparr>ct_Gas := gas, ct_UsedGas := used\<rparr>)"

definition outcome_ok :: "int \<Rightarrow> frame \<Rightarrow> outcome \<Rightarrow> bool" where
  "outcome_ok g fr out \<longleftrightarrow>
     (case out of
        Next fr' \<Rightarrow> frame_ok fr' \<and> same_contract fr fr' \<and> db_step (fr_db fr) (fr_db fr') \<and>
          mem_words (fr_mem fr') = mem_words (fr_mem fr) \<and> ct_Gas (fr_contract fr') \<le> g
      | Halt ret fr' \<Rightarrow> same_contract fr fr' \<and> db_step (fr_db fr) (fr_db fr') \<and>
          ct_Gas (fr_contract fr') = ct_Gas (fr_contract fr) \<and> int (length ret) < 2 ^ 63
      | Fail err fr' \<Rightarrow> db_step (fr_db fr) (fr_db fr'))"

lemma same_contract_refl: "fr_contract fr' = fr_contract fr \<Longrightarrow> same_contract fr fr'"
  unfolding same_contract_def
  by (rule exI [of _ "ct_Gas (fr_contract fr)"], rule exI [of _ "ct_UsedGas (fr_contract fr)"]) simp

lemma mem_words_len: "Memory_Len m' = Memory_Len m \<Longrightarrow> mem_words m' = mem_words m"
  by (simp add: mem_words_def)

lemma next_pc_simps [simp]:
  "fr_contract (next_pc fr) = fr_contract fr" "fr_mem (next_pc fr) = fr_mem fr"
  "fr_stack (next_pc fr) = fr_stack fr" "fr_world (next_pc fr) = fr_world fr"
  by (simp_all add: next_pc_def)

lemma frame_ok_next_pc [simp]: "frame_ok (next_pc fr) = frame_ok fr"
  by (simp add: frame_ok_def)

lemma pure_step_frame_ok:
  assumes "frame_ok fr" "pure_step p q fr fr'" "st_len (fr_stack fr) - p + q \<le> 1024" "p \<le> st_len (fr_stack fr)"
  shows "frame_ok fr'"
  using assms db_step_ok [of "fr_db fr" "fr_db fr'"] db_step_exists [of "fr_db fr" "fr_db fr'"]
  by (auto simp: frame_ok_def pure_step_def wf_mem_def)

lemma pure_step_outcome:
  assumes "frame_ok fr" "pure_step p q fr fr'" "st_len (fr_stack fr) - p + q \<le> 1024" "p \<le> st_len (fr_stack fr)"
  shows "outcome_ok (ct_Gas (fr_contract fr)) fr (Next (next_pc fr'))"
  using assms pure_step_frame_ok [OF assms]
  by (auto simp: outcome_ok_def pure_step_def intro!: mem_words_len same_contract_refl)

lemma call_step_outcome:
  assumes ok: "frame_ok fr" and c: "call_step p q g fr fr'" and len: "st_len (fr_stack fr) - p + q \<le> 1024"
    "p \<le> st_len (fr_stack fr)" and g: "ct_Gas (fr_contract fr) + g < 2 ^ 63"
  shows "outcome_ok (ct_Gas (fr_contract fr) + g) fr (Next (next_pc fr'))"
proof -
  from c obtain gas used where c': "fr_contract fr' = (fr_contract fr)\<lparr>ct_Gas := gas, ct_UsedGas := used\<rparr>"
    "0 \<le> gas" "gas \<le> ct_Gas (fr_contract fr) + g"
    and m: "Memory_Len (fr_mem fr') = Memory_Len (fr_mem fr)" and db: "db_step (fr_db fr) (fr_db fr')"
    and st: "wf_stack (fr_stack fr')" "st_len (fr_stack fr') + p = st_len (fr_stack fr) + q"
    by (auto simp: call_step_def)
  have "contract_ok (fr_contract fr')"
    using frame_okD(3) [OF ok] c' g unfolding contract_ok_def by simp
  moreover have "exists_acct (fr_db fr') (fr_self fr')"
    using db_step_exists [OF db frame_okD(5) [OF ok]] c'(1) by simp
  ultimately have "frame_ok fr'"
    using ok st len m db_step_ok [OF db] by (auto simp: frame_ok_def wf_mem_def)
  then show ?thesis
    using c' m db by (auto simp: outcome_ok_def same_contract_def intro!: mem_words_len)
qed

lemma entry_io_ok:
  assumes "jumpTable op = Some f"
  shows "io_ok (op_io op) f"
  using entries_ok jumpTable_entry [OF assms]
  by (auto simp: list.rel_map list_all2_same)

lemma jumpTable_calls:
  "jumpTable CREATE = Some (Some opCreate)" "jumpTable CALL = Some (Some opCall)"
  "jumpTable CALLCODE = Some (Some opCallCode)"
  by (simp_all add: jumpTable_def jumpTable_entries_def)

lemma outcome_ok_mono: "outcome_ok g fr out \<Longrightarrow> g \<le> g' \<Longrightarrow> outcome_ok g' fr out"
  by (auto simp: outcome_ok_def split: outcome.splits)

text \<open>
  \<open>e\<close> bounds the gas that a call instruction passes to its callee, and so what it can get back.
\<close>

definition exec_pre :: "int \<Rightarrow> int \<Rightarrow> OpCode \<Rightarrow> frame \<Rightarrow> bool" where
  "exec_pre N e op fr \<longleftrightarrow>
     frame_ok fr \<and> pops op \<le> st_len (fr_stack fr) \<and> st_len (fr_stack fr) - pops op + pushes op \<le> 1024 \<and>
     kind_req (op_kind op) (fr_stack fr) (int (Memory_Len (fr_mem fr))) \<and>
     0 \<le> e \<and> ct_Gas (fr_contract fr) + e < N \<and>
     (op_kind op = MCall \<longrightarrow>
        (\<forall>gas value. st_back (fr_stack fr) 1 = Some gas \<longrightarrow> st_back (fr_stack fr) 3 = Some value \<longrightarrow>
           call_gas gas value \<le> e))"

lemma exec_CREATE:
  assumes "calls_ok N env" "N \<le> 2 ^ 63" "exec_pre N e CREATE fr"
  shows "\<exists>fr'. opCreate env fr = Some fr' \<and> outcome_ok (ct_Gas (fr_contract fr) + e) fr (Next (next_pc fr'))"
proof -
  have p: "pops CREATE = 3" "pushes CREATE = 1" "op_kind CREATE = MCreate" by code_simp+
  have pre: "frame_ok fr" "3 \<le> st_len (fr_stack fr)" "st_len (fr_stack fr) - 3 + 1 \<le> 1024"
    "mem_req 2 3 (fr_stack fr) (int (Memory_Len (fr_mem fr)))" "0 \<le> e" "ct_Gas (fr_contract fr) + e < N"
    using assms(3) unfolding exec_pre_def p kind_req.simps by blast+
  then have N: "ct_Gas (fr_contract fr) < N" by simp
  obtain fr' where "opCreate env fr = Some fr'" "call_step 3 1 0 fr fr'"
    using opCreate_ok [OF assms(1) pre(1,2,4) N] by blast
  then show ?thesis
    using call_step_outcome [OF pre(1) _ pre(3,2), of 0 fr'] N assms(2) pre(5)
    by (auto intro: outcome_ok_mono)
qed

lemma exec_CALL:
  assumes "calls_ok N env" "N \<le> 2 ^ 63" "exec_pre N e op fr"
    and "op = CALL \<and> fn = opCall \<or> op = CALLCODE \<and> fn = opCallCode"
  shows "\<exists>fr'. fn env fr = Some fr' \<and> outcome_ok (ct_Gas (fr_contract fr) + e) fr (Next (next_pc fr'))"
proof -
  have "pops CALL = 7" "pushes CALL = 1" "pops CALLCODE = 7" "pushes CALLCODE = 1" by code_simp+
  then have p: "pops op = 7" "pushes op = 1" "op_kind op = MCall"
    using assms(4) op_kind_MCall by auto
  have pre: "frame_ok fr" "7 \<le> st_len (fr_stack fr)" "st_len (fr_stack fr) - 7 + 1 \<le> 1024"
    "mem_req 4 5 (fr_stack fr) (int (Memory_Len (fr_mem fr)))"
    "mem_req 6 7 (fr_stack fr) (int (Memory_Len (fr_mem fr)))" "ct_Gas (fr_contract fr) + e < N"
    and call: "\<And>gas value. st_back (fr_stack fr) 1 = Some gas \<Longrightarrow> st_back (fr_stack fr) 3 = Some value \<Longrightarrow>
           call_gas gas value \<le> e"
    using assms(3) unfolding exec_pre_def p kind_req.simps by blast+
  obtain gas val where b: "st_back (fr_stack fr) 1 = Some gas" "st_back (fr_stack fr) 3 = Some val"
    using st_back_defined [of 1 "fr_stack fr"] st_back_defined [of 3 "fr_stack fr"] pre(2) by auto
  have c: "call_gas gas val \<le> e" using call b by blast
  moreover have "0 \<le> ct_Gas (fr_contract fr)"
    using frame_okD(3) [OF pre(1)] by (simp add: contract_ok_def)
  ultimately have N: "call_gas gas val < N" using pre(6) by simp
  obtain fr' where "fn env fr = Some fr'" "call_step 7 1 (call_gas gas val) fr fr'"
    using opCall_ok [OF assms(1) pre(1,2,4,5) b N] opCallCode_ok [OF assms(1) pre(1,2,4,5) b N] assms(4)
    by blast
  then show ?thesis
    using call_step_outcome [OF pre(1) _ pre(3,2), of "call_gas gas val" fr'] c pre(6) assms(2)
    by (auto intro: outcome_ok_mono)
qed

lemma exec_fn_ok:
  assumes "calls_ok N env" "N \<le> 2 ^ 63" "exec_pre N e op fr" "jumpTable op = Some (Some fn)"
  shows "\<exists>fr'. fn env fr = Some fr' \<and> outcome_ok (ct_Gas (fr_contract fr) + e) fr (Next (next_pc fr'))"
proof -
  consider "op_kind op = MCreate" | "op_kind op = MCall"
    | "op_kind op \<noteq> MCreate \<and> op_kind op \<noteq> MCall" by blast
  then show ?thesis
  proof cases
    case 1
    then have "op = CREATE" by (simp add: op_kind_MCreate)
    then show ?thesis using exec_CREATE [OF assms(1,2)] assms(3,4) jumpTable_calls by simp
  next
    case 2
    then have "op = CALL \<or> op = CALLCODE" by (simp only: op_kind_MCall)
    then show ?thesis using exec_CALL [OF assms(1-3), of fn] assms(4) jumpTable_calls by auto
  next
    case 3
    then have t: "op_total (pops op) (pushes op) (kind_req (op_kind op)) fn"
      using entry_io_ok [OF assms(4)] by (simp add: io_ok_def op_io_def)
    have cr: "crypto_ok (env_crypto env)" using assms(1) by (simp add: calls_ok_def)
    have pre: "frame_ok fr" "pops op \<le> st_len (fr_stack fr)"
      "st_len (fr_stack fr) - pops op + pushes op \<le> 1024"
      "kind_req (op_kind op) (fr_stack fr) (int (Memory_Len (fr_mem fr)))" "0 \<le> e"
      using assms(3) unfolding exec_pre_def by blast+
    obtain fr' where r: "fn env fr = Some fr'" "pure_step (pops op) (pushes op) fr fr'"
      using op_totalD [OF t cr pre(1,2,4)] .
    then show ?thesis
      using outcome_ok_mono [OF pure_step_outcome [OF pre(1) r(2) pre(3,2)]] pre(5) by auto
  qed
qed

section \<open>The instructions that the interpreter handles\<close>

lemma frame_ok_stack:
  assumes "frame_ok fr" "wf_stack st" "st_len st \<le> 1024"
  shows "frame_ok (fr\<lparr>fr_stack := st\<rparr>)"
  using assms by (simp add: frame_ok_def)

lemma outcome_ok_self:
  assumes "frame_ok fr" "wf_stack st" "st_len st \<le> 1024" "ct_Gas (fr_contract fr) \<le> g"
  shows "outcome_ok g fr (Next (next_pc (fr\<lparr>fr_stack := st\<rparr>)))"
  using assms frame_ok_stack [OF assms(1-3)]
  by (auto simp: outcome_ok_def frame_ok_def intro!: same_contract_refl)

lemma jump_ok:
  assumes "frame_ok fr" "wf_stack st" "st_len st \<le> 1024" "ct_Gas (fr_contract fr) \<le> g"
  shows "outcome_ok g fr (jump env dest (fr\<lparr>fr_stack := st\<rparr>))"
  using assms frame_ok_stack [OF assms(1-3)]
  by (auto simp: outcome_ok_def jump_def Let_def case_prod_beta frame_ok_def intro!: same_contract_refl)

lemma builtin_vals:
  "pops JUMP = 1" "pops JUMPI = 2" "pops RETURN = 2" "pops SUICIDE = 1" "pops PC = 0" "pushes PC = 1"
  "op_kind RETURN = MRange 1 2"
  by code_simp+

lemma exec_builtin_ok:
  assumes "calls_ok N env" "exec_pre N e op fr"
  shows "\<exists>out. exec_builtin env op fr = Some out \<and> outcome_ok (ct_Gas (fr_contract fr) + e) fr out"
proof -
  let ?g = "ct_Gas (fr_contract fr) + e"
  have pre: "frame_ok fr" "pops op \<le> st_len (fr_stack fr)"
    "st_len (fr_stack fr) - pops op + pushes op \<le> 1024"
    "kind_req (op_kind op) (fr_stack fr) (int (Memory_Len (fr_mem fr)))" "0 \<le> e"
    using assms(2) unfolding exec_pre_def by blast+
  note wf = frame_okD(1) [OF pre(1)]
  have len: "st_len (fr_stack fr) \<le> 1024" using pre(1) by (simp add: frame_ok_def)
  have cr: "crypto_ok (env_crypto env)" using assms(1) by (simp add: calls_ok_def)
  consider "op = PC" | "op = JUMP" | "op = JUMPI" | "op = RETURN" | "op = SUICIDE" | "op = STOP"
    | "op \<noteq> PC \<and> op \<noteq> JUMP \<and> op \<noteq> JUMPI \<and> op \<noteq> RETURN \<and> op \<noteq> SUICIDE \<and> op \<noteq> STOP" by blast
  then show ?thesis
  proof cases
    case 1
    obtain fr' where r: "opPc (uint (fr_pc fr)) env fr = Some fr'" "pure_step 0 1 fr fr'"
      by (rule op_totalD [OF op_total_opPc cr pre(1)]) (simp_all add: no_req_def)
    have "outcome_ok (ct_Gas (fr_contract fr)) fr (Next (next_pc fr'))"
      using pure_step_outcome [OF pre(1) r(2)] pre(3) 1 by (simp add: builtin_vals)
    then show ?thesis using 1 r(1) outcome_ok_mono [of _ fr _ ?g] pre(5) by (auto simp: exec_builtin_def)
  next
    case 2
    obtain x st where "pop fr = Some (x, fr\<lparr>fr_stack := st\<rparr>)" "wf_stack st" "st_len (fr_stack fr) = st_len st + 1"
      by (rule pop1 [OF wf]) (use pre(2) 2 builtin_vals in auto)
    then show ?thesis
      using 2 jump_ok [OF pre(1), of st ?g env x] len pre(5) by (simp add: exec_builtin_def)
  next
    case 3
    obtain x y st1 st where p: "pop fr = Some (x, fr\<lparr>fr_stack := st1\<rparr>)"
      "pop (fr\<lparr>fr_stack := st1\<rparr>) = Some (y, fr\<lparr>fr_stack := st\<rparr>)" "wf_stack st"
      "st_len (fr_stack fr) = st_len st + 2"
      by (rule pop2 [OF wf]) (use pre(2) 3 builtin_vals in auto)
    then show ?thesis
      using 3 jump_ok [OF pre(1), of st ?g env x] outcome_ok_self [OF pre(1), of st ?g] len pre(5)
      by (simp add: exec_builtin_def)
  next
    case 4
    obtain x y st1 st where p: "pop fr = Some (x, fr\<lparr>fr_stack := st1\<rparr>)"
      "pop (fr\<lparr>fr_stack := st1\<rparr>) = Some (y, fr\<lparr>fr_stack := st\<rparr>)" "is_u256 x" "is_u256 y"
      "st_back (fr_stack fr) 1 = Some x" "st_back (fr_stack fr) 2 = Some y"
      by (rule pop2 [OF wf]) (use pre(2) 4 builtin_vals in auto)
    have "mem_req 1 2 (fr_stack fr) (int (Memory_Len (fr_mem fr)))"
      using pre(4) unfolding 4 builtin_vals kind_req.simps .
    note mem = mem_reqD(1) [OF this p(5,6)] frame_okD(4) [OF pre(1)]
    obtain ret where "Memory_GetPtr (fr_mem fr) (Int64 x) (Int64 y) = Some ret" "int (length ret) = y"
      using Memory_GetPtr_op [OF p(3,4) mem] by blast
    then show ?thesis
      using 4 p(1,2) mem_size_small(1) [OF p(3,4) mem] db_step_refl [OF frame_okD(2) [OF pre(1)]]
      by (auto simp: exec_builtin_def outcome_ok_def intro!: same_contract_refl)
  next
    case 5
    obtain fr' where "opSuicide env fr = Some fr'" "pure_step 1 0 fr fr'"
      by (rule op_totalD [OF op_total_opSuicide cr pre(1)]) (use pre(2) 5 builtin_vals in \<open>simp_all add: no_req_def\<close>)
    then show ?thesis
      using 5 by (auto simp: exec_builtin_def outcome_ok_def pure_step_def intro!: same_contract_refl)
  next
    case 6
    then show ?thesis
      using db_step_refl [OF frame_okD(2) [OF pre(1)]]
      by (auto simp: exec_builtin_def outcome_ok_def intro!: same_contract_refl)
  next
    case 7
    then show ?thesis
      using outcome_ok_self [OF pre(1) wf len, of ?g] pre(5) by (simp add: exec_builtin_def)
  qed
qed

lemma exec_op_ok:
  assumes "calls_ok N env" "N \<le> 2 ^ 63" "exec_pre N e op fr"
  shows "\<exists>out. exec_op env op fr = Some out \<and> outcome_ok (ct_Gas (fr_contract fr) + e) fr out"
proof (cases "jumpTable op")
  case None
  have "frame_ok fr" using assms(3) unfolding exec_pre_def by blast
  then show ?thesis
    using None db_step_refl [OF frame_okD(2)] by (auto simp: exec_op_def outcome_ok_def)
next
  case (Some f)
  show ?thesis
  proof (cases f)
    case None
    then show ?thesis using Some exec_builtin_ok [OF assms(1,3)] by (simp add: exec_op_def)
  next
    case (Some fn)
    with \<open>jumpTable op = Some f\<close> show ?thesis
      using exec_fn_ok [OF assms, of fn] by (auto simp: exec_op_def)
  qed
qed

section \<open>One iteration\<close>

lemma jumpTable_halting:
  "jumpTable STOP = Some None" "jumpTable RETURN = Some None" "jumpTable SUICIDE = Some None"
  by (simp_all add: jumpTable_def jumpTable_entries_def)

lemma exec_op_Next:
  assumes "exec_op env op fr = Some (Next fr')"
  shows "jumpTable op \<noteq> None \<and> \<not> halting op"
proof -
  have "\<not> halting op"
  proof
    assume "halting op"
    then show False
      using assms unfolding halting_def
      by (elim disjE) (auto simp: exec_op_def jumpTable_halting exec_builtin_def bind_eq_Some_conv)
  qed
  then show ?thesis using assms by (auto simp: exec_op_def split: option.splits)
qed

text \<open>The memory that has been paid for is allocated.\<close>

lemma charged_frame:
  assumes ok: "frame_ok fr" and N: "budget fr < N" "N \<le> 2 ^ 63"
    and cost: "cost = base + (mem_fee (max (mem_words (fr_mem fr)) w) - mem_fee (mem_words (fr_mem fr)))"
    and w: "0 \<le> w" and base: "0 \<le> base" and use: "UseGas (fr_contract fr) cost = Some c"
    and db: "db_step (fr_db fr) db"
  defines "fr1 \<equiv> (set_db db fr)\<lparr>fr_contract := c, fr_mem := Memory_Resize (fr_mem fr) (Uint64 (32 * w))\<rparr>"
  shows "frame_ok fr1" "budget fr1 = budget fr - base" "32 * w \<le> int (Memory_Len (fr_mem fr1))"
    "same_contract fr fr1" "ct_Gas c \<le> ct_Gas (fr_contract fr) - base" "0 \<le> ct_Gas c"
proof -
  let ?m = "fr_mem fr" and ?m1 = "Memory_Resize (fr_mem fr) (Uint64 (32 * w))"
  have wf: "wf_mem ?m" using ok by (simp add: frame_ok_def)
  have c: "cost \<le> ct_Gas (fr_contract fr)"
    "c = (fr_contract fr)\<lparr>ct_Gas := ct_Gas (fr_contract fr) - cost, ct_UsedGas := ct_UsedGas (fr_contract fr) + cost\<rparr>"
    using use by (simp_all add: UseGas_Some_iff)
  have fee: "mem_fee (mem_words ?m) \<le> mem_fee (max (mem_words ?m) w)" by (rule mem_fee_mono) simp_all
  have "mem_fee (max (mem_words ?m) w) < 2 ^ 63"
    using c(1) cost N base unfolding budget_def by linarith
  then have mx: "max (mem_words ?m) w < 2 ^ 36" using w by (intro mem_fee_bound) simp_all
  then have "32 * w < 2 ^ 64" by simp
  note r = Resize_words [OF wf w this]
  have len: "int (Memory_Len ?m1) = 32 * max (mem_words ?m) w"
    using wf_mem_words [OF r(1)] r(2) by simp
  show "ct_Gas c \<le> ct_Gas (fr_contract fr) - base" "0 \<le> ct_Gas c" using c cost fee by simp_all
  then have "contract_ok c"
    using frame_okD(3) [OF ok] base unfolding contract_ok_def by (simp add: c(2))
  moreover have "int (Memory_Len ?m1) < 2 ^ 63" using len mx by simp
  ultimately show "frame_ok fr1"
    using ok r(1) db_step_ok [OF db] db_step_exists [OF db frame_okD(5) [OF ok]] c(2)
    by (simp add: fr1_def frame_ok_def frame_upd)
  show "budget fr1 = budget fr - base"
    by (simp add: fr1_def budget_def r(2) c(2) cost)
  show "32 * w \<le> int (Memory_Len (fr_mem fr1))" using len by (simp add: fr1_def)
  show "same_contract fr fr1" using c(2) by (auto simp: fr1_def same_contract_def)
qed

definition step_post :: "frame \<Rightarrow> outcome \<Rightarrow> bool" where
  "step_post fr out \<longleftrightarrow>
     (case out of
        Next fr' \<Rightarrow> frame_ok fr' \<and> same_contract fr fr' \<and> db_step (fr_db fr) (fr_db fr') \<and> budget fr' < budget fr
      | Halt ret fr' \<Rightarrow> same_contract fr fr' \<and> db_step (fr_db fr) (fr_db fr') \<and>
          0 \<le> ct_Gas (fr_contract fr') \<and> ct_Gas (fr_contract fr') \<le> ct_Gas (fr_contract fr) \<and>
          int (length ret) < 2 ^ 63
      | Fail err fr' \<Rightarrow> db_step (fr_db fr) (fr_db fr'))"

lemma same_contract_trans: "same_contract a b \<Longrightarrow> same_contract b c \<Longrightarrow> same_contract a c"
  unfolding same_contract_def by (elim exE) (simp, blast)

lemma kind_req_mono: "kind_req k st m \<Longrightarrow> m \<le> m' \<Longrightarrow> kind_req k st m'"
  by (cases k) (auto simp: mem_req_def mem_req_const_def no_req_def)

text \<open>From the outcome of the instruction to the outcome of the iteration that charged for it.\<close>

lemma outcome_step_post:
  assumes out: "outcome_ok g fr1 out" and c: "same_contract fr fr1" and db: "db_step (fr_db fr) (fr_db fr1)"
    and gas: "0 \<le> ct_Gas (fr_contract fr1)" "ct_Gas (fr_contract fr1) \<le> ct_Gas (fr_contract fr)"
    and nxt: "\<And>fr'. out = Next fr' \<Longrightarrow> mem_fee (mem_words (fr_mem fr1)) + g < budget fr"
  shows "step_post fr out"
proof (cases out)
  case (Next fr')
  then show ?thesis
    using out nxt [OF Next] same_contract_trans [OF c, of fr'] db_step_trans [OF db, of "fr_db fr'"]
    by (auto simp: outcome_ok_def step_post_def budget_def)
next
  case (Halt ret fr')
  then show ?thesis
    using out gas same_contract_trans [OF c, of fr'] db_step_trans [OF db, of "fr_db fr'"]
    by (auto simp: outcome_ok_def step_post_def)
next
  case (Fail err fr')
  then show ?thesis
    using out db_step_trans [OF db, of "fr_db fr'"] by (auto simp: outcome_ok_def step_post_def)
qed

lemma step_ok:
  assumes env: "calls_ok N env" and N: "budget fr < N" "N \<le> 2 ^ 63" and ok: "frame_ok fr"
  shows "\<exists>out. step env fr = Some out \<and> step_post fr out"
proof -
  let ?op = "GetOp (fr_contract fr) (fr_pc fr)"
  have "db_ok (fr_db fr)" "wf_stack (fr_stack fr)" "st_len (fr_stack fr) \<le> 1024" "wf_mem (fr_mem fr)"
    using ok by (simp_all add: frame_ok_def)
  from calculateGasAndSize_ok [OF this, of "fr_contract fr" ?op] obtain r db where
    calc: "calculateGasAndSize (fr_contract fr) ?op (fr_db fr) (fr_mem fr) (fr_stack fr) = Some (r, db)"
    and db: "db_step (fr_db fr) db"
    and charge: "\<And>n cost. r = Inr (n, cost) \<Longrightarrow>
       \<exists>w base. n = 32 * w \<and> cost = base + (mem_fee (max (mem_words (fr_mem fr)) w) - mem_fee (mem_words (fr_mem fr))) \<and>
          charge_ok ?op (fr_stack fr) w base"
    by blast
  show ?thesis
  proof (cases r)
    case (Inl err)
    then show ?thesis using calc db by (simp add: step_def step_post_def frame_upd)
  next
    case (Inr nc)
    obtain n cost where nc: "nc = (n, cost)" by (cases nc)
    with charge Inr obtain w base where n: "n = 32 * w"
      and cost: "cost = base + (mem_fee (max (mem_words (fr_mem fr)) w) - mem_fee (mem_words (fr_mem fr)))"
      and ch: "charge_ok ?op (fr_stack fr) w base" by blast
    show ?thesis
    proof (cases "UseGas (fr_contract fr) cost")
      case None
      then show ?thesis using calc db Inr nc by (simp add: step_def step_post_def frame_upd)
    next
      case (Some c)
      have wb: "0 \<le> w" "0 \<le> base" using ch by (simp_all add: charge_ok_def)
      define fr1 where "fr1 = (set_db db fr)\<lparr>fr_contract := c, fr_mem := Memory_Resize (fr_mem fr) (Uint64 (32 * w))\<rparr>"
      note fr1 = charged_frame [OF ok N cost wb Some db, folded fr1_def]
      have step: "step env fr = exec_op env ?op fr1"
        using calc Inr nc n Some by (simp add: step_def fr1_def frame_upd)
      have st: "fr_stack fr1 = fr_stack fr" "fr_contract fr1 = c" "fr_db fr1 = db"
        by (simp_all add: fr1_def frame_upd)
      define e where "e = (if op_kind ?op = MCall then base - 1 else 0)"
      have "kind_req (op_kind ?op) (fr_stack fr) (int (Memory_Len (fr_mem fr1)))"
        using ch fr1(3) kind_req_mono [of "op_kind ?op" "fr_stack fr" "32 * w"] by (simp add: charge_ok_def)
      moreover have "0 \<le> e" "ct_Gas c + e < N" "e \<le> base"
      proof -
        have "base \<noteq> 0" if "op_kind ?op = MCall"
          using that ch jumpTable_calls unfolding charge_ok_def op_kind_MCall halting_def by auto
        then show "0 \<le> e" "e \<le> base" using wb(2) by (auto simp: e_def)
        have "ct_Gas (fr_contract fr) \<le> budget fr"
          using mem_fee_nonneg [of "mem_words (fr_mem fr)"] by (simp add: budget_def)
        then show "ct_Gas c + e < N" using fr1(5) \<open>e \<le> base\<close> N(1) by linarith
      qed
      moreover have "op_kind ?op = MCall \<longrightarrow>
          (\<forall>gas val. st_back (fr_stack fr) 1 = Some gas \<longrightarrow> st_back (fr_stack fr) 3 = Some val \<longrightarrow>
             call_gas gas val \<le> e)"
        using ch unfolding charge_ok_def e_def by (metis (full_types) zle_diff1_eq)
      ultimately have "exec_pre N e ?op fr1"
        using fr1(1) ch unfolding exec_pre_def charge_ok_def st by blast
      from exec_op_ok [OF env N(2) this] obtain out where
        out: "exec_op env ?op fr1 = Some out" "outcome_ok (ct_Gas c + e) fr1 out"
        unfolding st by blast
      have "mem_fee (mem_words (fr_mem fr1)) + (ct_Gas c + e) < budget fr" if "out = Next fr'" for fr'
      proof -
        have "1 \<le> base" using ch exec_op_Next [of env ?op fr1 fr'] out(1) that by (simp add: charge_ok_def)
        then have "e < base" by (simp add: e_def)
        then show ?thesis using fr1(2) unfolding budget_def st by linarith
      qed
      then have "step_post fr out"
        using outcome_step_post [OF out(2) fr1(4)] db fr1(5,6) wb(2) unfolding st by simp
      then show ?thesis using step out(1) by simp
    qed
  qed
qed

end
