(* ===== verification/Run_Facts.thy ===== *)
theory Run_Facts
  imports Step_Facts
begin

text \<open>
  \<open>Run\<close> is defined for every contract, given fuel above its gas: no panic, no endless loop. It
  hands back no more gas than it was given and keeps the invariant of the database.
\<close>

section \<open>The loop\<close>

lemma budget_nonneg: "frame_ok fr \<Longrightarrow> 0 \<le> budget fr"
  using mem_fee_nonneg [of "mem_words (fr_mem fr)"] by (simp add: budget_def frame_ok_def contract_ok_def)

lemma gas_le_budget: "ct_Gas (fr_contract fr) \<le> budget fr"
  using mem_fee_nonneg [of "mem_words (fr_mem fr)"] by (simp add: budget_def)

definition loop_post :: "frame \<Rightarrow> bytes \<times> vm_error option \<times> frame \<Rightarrow> bool" where
  "loop_post fr r \<longleftrightarrow>
     (case r of (ret, err, fr') \<Rightarrow>
        db_step (fr_db fr) (fr_db fr') \<and> int (length ret) < 2 ^ 63 \<and>
        (err = None \<longrightarrow> 0 \<le> ct_Gas (fr_contract fr') \<and> ct_Gas (fr_contract fr') \<le> budget fr))"

lemma run_loop_total:
  assumes "calls_ok N env" "N \<le> 2 ^ 63" "frame_ok fr" "budget fr < N" "budget fr < int n"
  shows "\<exists>r. run_loop n env fr = Some r \<and> loop_post fr r"
  using assms(3-5)
proof (induction n arbitrary: fr)
  case 0
  then show ?case using budget_nonneg [of fr] by simp
next
  case (Suc n)
  obtain out where out: "step env fr = Some out" "step_post fr out"
    using step_ok [OF assms(1) Suc.prems(2) assms(2) Suc.prems(1)] by blast
  show ?case
  proof (cases out)
    case (Next fr1)
    then have fr1: "frame_ok fr1" "db_step (fr_db fr) (fr_db fr1)" "budget fr1 < budget fr"
      using out(2) by (simp_all add: step_post_def)
    then obtain r where "run_loop n env fr1 = Some r" "loop_post fr1 r"
      using Suc.IH [of fr1] Suc.prems by auto
    then show ?thesis
      using out(1) Next fr1 db_step_trans [OF fr1(2)]
      by (cases r) (auto simp: loop_post_def)
  next
    case (Halt ret fr1)
    then show ?thesis using out gas_le_budget [of fr] by (auto simp: loop_post_def step_post_def)
  next
    case (Fail err fr1)
    then show ?thesis using out by (auto simp: loop_post_def step_post_def)
  qed
qed

section \<open>Run\<close>

definition run_post :: "statedb \<Rightarrow> int \<Rightarrow> run_result \<Rightarrow> bool" where
  "run_post db gas r \<longleftrightarrow>
     (case r of (ret, err, g, w) \<Rightarrow>
        0 \<le> g \<and> g \<le> gas \<and> int (length ret) < 2 ^ 63 \<and> db_step db (w_db w) \<and> (err \<noteq> None \<longrightarrow> g = 0))"

lemma new_frame_ok:
  assumes "contract_ok c" "int (length input) < 2 ^ 63" "db_ok (w_db w)" "exists_acct (w_db w) (ct_self c)"
  shows "frame_ok (new_frame c input w)" "budget (new_frame c input w) = ct_Gas c"
  using assms
  by (simp_all add: new_frame_def frame_ok_def contract_ok_def budget_def newstack_def wf_stack_def
      st_len_def NewMemory_def Memory_Len_def mem_fee_def wf_mem_def mem_words_def toWordSize_def)

lemma RunPrecompiled_ok:
  assumes "crypto_ok (env_crypto env)" "Precompiled_at a = Some p" "int (length input) < 2 ^ 63"
    "db_ok (w_db w)" "0 \<le> ct_Gas c"
  shows "\<exists>r. RunPrecompiled env p input c w = Some r \<and> run_post (w_db w) (ct_Gas c) r"
proof -
  obtain out where out: "pc_fn p (env_crypto env) input = Some out" "int (length out) \<le> max 32 (int (length input))"
    using Precompiled_call_defined [OF assms(1,2), of input] by blast
  have pos: "0 < pc_Gas p (length input)" using Precompiled_gas_pos [OF assms(2)] .
  show ?thesis
  proof (cases "UseGas c (pc_Gas p (length input))")
    case None
    then show ?thesis using assms(4,5) by (auto simp: RunPrecompiled_def run_post_def UseGas_all_def)
  next
    case (Some c')
    then have "0 \<le> ct_Gas c'" "ct_Gas c' \<le> ct_Gas c" using pos by (auto simp: UseGas_Some_iff)
    then show ?thesis using Some out assms(3,4) by (auto simp: RunPrecompiled_def run_post_def)
  qed
qed

lemma Run_ok:
  assumes env: "calls_ok N (env\<lparr>env_Depth := env_Depth env + 1\<rparr>)" and N: "N \<le> 2 ^ 63"
    and c: "contract_ok c" "ct_Gas c < N" "ct_Gas c < int fuel"
    and w: "int (length input) < 2 ^ 63" "db_ok (w_db w)" "exists_acct (w_db w) (ct_self c)"
  shows "\<exists>r. Run fuel env c input w = Some r \<and> run_post (w_db w) (ct_Gas c) r"
proof (cases "Option.bind (ct_CodeAddr c) Precompiled_at")
  case (Some p)
  then obtain a where "Precompiled_at a = Some p" by (auto simp: bind_eq_Some_conv)
  moreover have "crypto_ok (env_crypto (env\<lparr>env_Depth := env_Depth env + 1\<rparr>))"
    using env unfolding calls_ok_def by blast
  ultimately show ?thesis
    using RunPrecompiled_ok [of _ a p input w c] Some w c(1) by (simp add: Run_def contract_ok_def)
next
  case None
  show ?thesis
  proof (cases "ct_Code c = []")
    case True
    then show ?thesis
      using None c(1) w(2) by (auto simp: Run_def run_post_def contract_ok_def)
  next
    case False
    note fr = new_frame_ok [OF c(1) w]
    obtain r where r: "run_loop fuel (env\<lparr>env_Depth := env_Depth env + 1\<rparr>) (new_frame c input w) = Some r"
      "loop_post (new_frame c input w) r"
      using run_loop_total [OF env N fr(1), of fuel] fr(2) c(2,3) by auto
    obtain ret err fr' where "r = (ret, err, fr')" by (cases r)
    then show ?thesis
      using r None False c(1) fr(2)
      by (auto simp: Run_def run_post_def loop_post_def UseGas_all_def contract_ok_def new_frame_def)
  qed
qed

section \<open>The frames of a run\<close>




end
