(* ===== verification/Exec_Facts.thy ===== *)
theory Exec_Facts
  imports Exec Run_Facts
begin

text \<open>
  Calls and creations are defined at every depth, given fuel above their gas; they hand back no
  more gas than they got, never increase the total supply, and leave the accounts as they were
  where they fail.
\<close>

section \<open>The steps of exec\<close>

lemma CanTransfer_eq: "CanTransfer db a v = (v \<le> bal db a, snd (GetBalance db a))"
  by (simp add: CanTransfer_def case_prod_beta bal_simps)

lemma new_address_ok:
  assumes "new_address cr db caller = (a, db')" "db_ok db"
  shows "db_step db db'" "bal db' = bal db" "\<exists>n. a = CreateAddress cr caller n"
proof -
  from assms(1) have db': "db' = SetNonce (snd (GetNonce db caller)) caller (fst (GetNonce db caller) + 1)"
    "a = CreateAddress cr caller (fst (GetNonce db caller))"
    by (simp_all add: new_address_def case_prod_beta)
  have "db_step db (snd (GetNonce db caller))" using assms(2) by (rule db_step_queries)
  then show "db_step db db'" unfolding db'(1)
    by (rule db_step_trans) (rule db_step_setters(1) [OF db_step_ok [OF db_step_queries(3) [OF assms(2)]]])
  show "bal db' = bal db" unfolding db'(1) by (simp add: bal_simps)
  show "\<exists>n. a = CreateAddress cr caller n" using db'(2) by blast
qed

lemma GetStateObject_ok:
  shows "bal (snd (GetStateObject db a)) = bal db" "code_of (snd (GetStateObject db a)) = code_of db"
    "exists_acct (snd (GetStateObject db a)) = exists_acct db"
    "refund (snd (GetStateObject db a)) = refund db"
  by (simp_all add: bal_simps bal_def code_of_def exists_acct_def fun_eq_iff live_simps)

lemma db_step_GetStateObject: "db_ok db \<Longrightarrow> db_step db (snd (GetStateObject db a))"
  by (rule db_step_same_balances) (simp_all add: GetStateObject_ok)

lemma to_account_ok:
  assumes "db_ok db"
  shows "db_step db (to_account db cre a)" "bal (to_account db cre a) = bal db"
    "exists_acct (to_account db cre a) a"
proof -
  let ?db = "snd (Exist db a)"
  have ex: "db_step db ?db" using assms by (rule db_step_queries)
  note ok = db_step_ok [OF ex]
  show "db_step db (to_account db cre a)"
    using db_step_setters(3) [OF assms, of a] db_step_trans [OF ex db_step_setters(3) [OF ok, of a]]
      db_step_trans [OF ex db_step_GetStateObject [OF ok, of a]]
    by (simp add: to_account_def case_prod_beta)
  show "bal (to_account db cre a) = bal db"
    by (simp add: to_account_def case_prod_beta bal_simps GetStateObject_ok)
  show "exists_acct (to_account db cre a) a"
    by (simp add: to_account_def case_prod_beta bal_simps GetStateObject_ok)
qed

lemma Transfer_ok:
  assumes "db_ok db" "exists_acct db a" "exists_acct db b" "0 \<le> v" "v \<le> bal db a"
  shows "\<exists>db'. Transfer db False a b v = Some db' \<and> db_step db db'"
proof -
  obtain db' where "Option.bind (Account_SubBalance db a v) (\<lambda>db. Account_AddBalance db b v) = Some db'"
    using sdb.transfer_defined [of db a b v] assms by auto
  then show ?thesis using db_step_transfer [OF assms(1) _ assms(4,5)] by (auto simp: Transfer_def)
qed

section \<open>exec\<close>

text \<open>
  What a failed call leaves: the accounts, the refund counter and the logs are those before, and
  only objects loaded into the cache may have been added.
\<close>

definition same_accounts :: "statedb \<Rightarrow> statedb \<Rightarrow> bool" where
  "same_accounts db db' \<longleftrightarrow>
     live db' = live db \<and> refund db' = refund db \<and> logs db' = logs db \<and> logSize db' = logSize db \<and>
     same_frame db db'"

lemma same_accounts_trans: "same_accounts a b \<Longrightarrow> same_accounts b c \<Longrightarrow> same_accounts a c"
  by (auto simp: same_accounts_def intro: same_frame_trans)

lemma same_accounts_GetStateObject: "same_accounts db (snd (GetStateObject db a))"
  by (simp add: same_accounts_def live_simps)
     (simp add: GetStateObject_def SetStateObject_def put_object_def Let_def split: option.split)

lemma same_accounts_queries:
  "same_accounts db (snd (GetBalance db a))" "same_accounts db (snd (GetCode db a))"
  using same_accounts_GetStateObject [of db a]
  by (auto simp: GetBalance_def GetCode_def case_prod_beta split: option.split)

text \<open>The calls that are refused before anything runs.\<close>

definition refused :: "vm_env \<Rightarrow> world \<Rightarrow> address \<Rightarrow> int \<Rightarrow> bool" where
  "refused env w caller val \<longleftrightarrow> 1024 < env_Depth env \<or> bal (w_db w) caller < val"

definition exec_post :: "vm_env \<Rightarrow> world \<Rightarrow> address \<Rightarrow> address option \<Rightarrow> int \<Rightarrow> int \<Rightarrow> call_result \<Rightarrow> bool" where
  "exec_post env w caller addr gas val r \<longleftrightarrow>
     call_post (w_db w) gas r \<and>
     (refused env w caller val \<longrightarrow> res_err r \<noteq> None \<and> res_gas r = gas) \<and>
     (res_err r \<noteq> None \<and> \<not> refused env w caller val \<longrightarrow> res_gas r = 0) \<and>
     (res_err r \<noteq> None \<and> (addr \<noteq> None \<or> refused env w caller val) \<longrightarrow>
        same_accounts (w_db w) (w_db (res_world r)))"

lemma exec_ok:
  assumes env: "env_Depth env \<le> 1024 \<Longrightarrow> calls_ok N (env\<lparr>env_Depth := env_Depth env + 1\<rparr>)"
    and N: "N \<le> 2 ^ 63" "N \<le> int fuel"
    and fresh: "\<And>n. CreateAddress (env_crypto env) caller n \<noteq> caller"
    and pre: "call_pre N (w_db w) caller input gas price val" and code: "int (length code) < 2 ^ 63"
  shows "\<exists>r. exec fuel env w caller addr codeAddr input code gas price val = Some r \<and>
             exec_post env w caller addr gas val r"
proof -
  have pre': "db_ok (w_db w)" "exists_acct (w_db w) caller" "int (length input) < 2 ^ 63" "0 \<le> gas"
    "gas < N" "is_u256 price" "is_u256 val" "0 \<le> val"
    using pre by (simp_all add: call_pre_def is_u256_def)
  let ?db1 = "snd (GetBalance (w_db w) caller)"
  have 1: "db_step (w_db w) ?db1" using pre'(1) by (rule db_step_queries)
  show ?thesis
  proof (cases "refused env w caller val")
    case True
    let ?db2 = "snd (GetBalance ?db1 caller)"
    have "db_step (w_db w) ?db2" "same_accounts (w_db w) ?db2" "same_accounts (w_db w) (w_db w)"
      using db_step_trans [OF 1 db_step_queries(2) [OF db_step_ok [OF 1]]]
        same_accounts_trans [OF same_accounts_queries(1) same_accounts_queries(1)]
      by (simp_all add: same_accounts_def)
    then show ?thesis
      using True pre'
      by (auto simp: exec_def exec_post_def call_post_def refused_def CanTransfer_eq case_prod_beta Let_def)
  next
    case False
    then have nr: "env_Depth env \<le> 1024" "val \<le> bal (w_db w) caller" by (auto simp: refused_def)
    obtain a db2 where a: "(case addr of None \<Rightarrow> new_address (env_crypto env) ?db1 caller | Some a \<Rightarrow> (a, ?db1)) = (a, db2)"
      by fastforce
    have 2: "db_step ?db1 db2" "bal db2 = bal ?db1" "addr = None \<Longrightarrow> a \<noteq> caller"
      "addr \<noteq> None \<Longrightarrow> db2 = ?db1"
      using a new_address_ok [of "env_crypto env" ?db1 caller a db2] db_step_ok [OF 1] fresh
      by (auto split: option.splits)
    let ?db3 = "snd (GetStateObject db2 caller)"
    let ?db4 = "to_account ?db3 (addr = None) a"
    have 3: "db_step db2 ?db3" using db_step_ok [OF 2(1)] by (rule db_step_GetStateObject)
    note 4 = to_account_ok [OF db_step_ok [OF 3], of "addr = None" a]
    have ex: "exists_acct db2 caller" "exists_acct ?db4 caller"
      using pre'(2) db_step_exists [OF 1] db_step_exists [OF 2(1)] db_step_exists [OF 3] db_step_exists [OF 4(1)]
      by auto
    have "val \<le> bal ?db4 caller"
      using nr 4(2) 2(2) by (simp add: GetStateObject_ok bal_simps)
    then obtain db5 where 5: "Transfer ?db4 False caller a val = Some db5" "db_step ?db4 db5"
      using Transfer_ok [OF db_step_ok [OF 4(1)] ex(2) 4(3) pre'(8)] by blast
    let ?c = "SetCallCode (NewContract caller a val gas price) codeAddr code"
    have c: "contract_ok ?c" "ct_Gas ?c = gas" "ct_self ?c = a"
      using pre' N code by (simp_all add: contract_ok_def SetCallCode_def NewContract_def)
    obtain ret err g w' where
      run: "Run fuel env ?c input (w\<lparr>w_db := db5\<rparr>) = Some (ret, err, g, w')"
        "run_post db5 gas (ret, err, g, w')"
      using Run_ok [OF env N(1) c(1), of fuel input "w\<lparr>w_db := db5\<rparr>"] nr c pre' N
        db_step_ok [OF 5(2)] db_step_exists [OF 5(2) 4(3)] by fastforce
    have 6: "db_step db5 (w_db w')" using run(2) by (simp add: run_post_def)
    have s2: "db_step (w_db w) db2" using 1 2(1) by (rule db_step_trans)
    have s6: "db_step db2 (w_db w')"
      using 3 4(1) 5(2) 6 by (blast intro: db_step_trans)
    have rev: "db_Set (w_db w') (db_Copy db2) = db2"
      by (rule db_Set_Copy) (use s6 in \<open>simp add: db_step_def\<close>)
    have st: "(addr = None \<and> a = caller) = False" using 2(3) by blast
    have live: "\<exists>so. fst (GetStateObject db2 caller) = Some so"
      using ex(1) by (simp add: live_simps exists_acct_def)
    have "exec fuel env w caller addr codeAddr input code gas price val =
        Some \<lparr>res_ret = ret, res_addr = (if addr = None then a else 0), res_err = err, res_gas = g,
              res_world = w'\<lparr>w_db := if err \<noteq> None then db2 else w_db w'\<rparr>\<rparr>"
      using nr a 5(1) run(1) live rev st
      by (auto simp: exec_def CanTransfer_eq case_prod_beta Let_def)
    moreover have "addr \<noteq> None \<Longrightarrow> same_accounts (w_db w) db2"
      using 2(4) same_accounts_queries(1) by simp
    ultimately show ?thesis
      using False run(2) s2 db_step_trans [OF s2 s6]
      by (auto simp: exec_post_def call_post_def run_post_def)
  qed
qed

section \<open>Calls at every depth\<close>

text \<open>
  The assumptions on a call: an account cannot have the address that a creation by it would get
  (the hash of its address and nonce), and the bounds on the gas.
\<close>

definition new_addresses :: "crypto \<Rightarrow> bool" where
  "new_addresses cr \<longleftrightarrow> (\<forall>a n. CreateAddress cr a n \<noteq> a)"

definition call_env :: "int \<Rightarrow> nat \<Rightarrow> vm_env \<Rightarrow> bool" where
  "call_env N fuel env \<longleftrightarrow>
     crypto_ok (env_crypto env) \<and> new_addresses (env_crypto env) \<and> N \<le> 2 ^ 63 \<and> N \<le> int fuel \<and>
     (env_Depth env \<le> 1024 \<longrightarrow> calls_ok N (env\<lparr>env_Depth := env_Depth env + 1\<rparr>))"

lemma exec_call_env:
  assumes "call_env N fuel env" "call_pre N (w_db w) caller input gas price val" "int (length code) < 2 ^ 63"
  shows "\<exists>r. exec fuel env w caller addr codeAddr input code gas price val = Some r \<and>
             exec_post env w caller addr gas val r"
  by (rule exec_ok) (use assms in \<open>auto simp: call_env_def new_addresses_def\<close>)

lemma exec_post_call: "exec_post env w caller addr gas val r \<Longrightarrow> call_post (w_db w) gas r"
  by (simp add: exec_post_def)

lemma exec_post_shift:
  assumes "exec_post env (w\<lparr>w_db := db\<rparr>) caller addr gas val r" "db_step (w_db w) db" "same_accounts (w_db w) db"
  shows "exec_post env w caller addr gas val r"
proof -
  have "refused env (w\<lparr>w_db := db\<rparr>) caller val = refused env w caller val"
    using assms(3) bal_live_cong [of db "w_db w"] by (simp add: refused_def same_accounts_def)
  then show ?thesis
    using assms(1) db_step_trans [OF assms(2)] same_accounts_trans [OF assms(3)]
    by (simp add: exec_post_def call_post_def)
qed

lemma GetCode_pre:
  assumes "call_pre N db caller input gas price val"
  shows "call_pre N (snd (GetCode db a)) caller input gas price val"
    "int (length (fst (GetCode db a))) < 2 ^ 63" "db_step db (snd (GetCode db a))"
proof -
  have ok: "db_ok db" using assms by (simp add: call_pre_def)
  show st: "db_step db (snd (GetCode db a))" using ok by (rule db_step_queries)
  show "call_pre N (snd (GetCode db a)) caller input gas price val"
    using assms db_step_ok [OF st] db_step_exists [OF st] by (simp add: call_pre_def)
  show "int (length (fst (GetCode db a))) < 2 ^ 63" using ok by (simp add: bal_simps db_ok_def)
qed

lemma Call_ok:
  assumes env: "call_env N fuel env" and pre: "call_pre N (w_db w) caller input gas price val"
  shows "\<exists>r. Call fuel env w caller addr input gas price val = Some r \<and> exec_post env w caller (Some addr) gas val r"
    "\<exists>r. CallCode fuel env w caller addr input gas price val = Some r \<and> exec_post env w caller (Some caller) gas val r"
proof -
  note g = GetCode_pre [OF pre, of addr]
  have pre': "call_pre N (w_db (w\<lparr>w_db := snd (GetCode (w_db w) addr)\<rparr>)) caller input gas price val"
    using g(1) by simp
  note sh = exec_post_shift [OF _ g(3) same_accounts_queries(2)]
  obtain r where "Call fuel env w caller addr input gas price val = Some r"
    "exec_post env (w\<lparr>w_db := snd (GetCode (w_db w) addr)\<rparr>) caller (Some addr) gas val r"
    using exec_call_env [OF env pre' g(2), of "Some addr" "Some addr"] by (auto simp: Call_def case_prod_beta)
  then show "\<exists>r. Call fuel env w caller addr input gas price val = Some r \<and> exec_post env w caller (Some addr) gas val r"
    using sh by blast
  obtain r where "CallCode fuel env w caller addr input gas price val = Some r"
    "exec_post env (w\<lparr>w_db := snd (GetCode (w_db w) addr)\<rparr>) caller (Some caller) gas val r"
    using exec_call_env [OF env pre' g(2), of "Some caller" "Some addr"] by (auto simp: CallCode_def case_prod_beta)
  then show "\<exists>r. CallCode fuel env w caller addr input gas price val = Some r \<and> exec_post env w caller (Some caller) gas val r"
    using sh by blast
qed

lemma Create_ok:
  assumes env: "call_env N fuel env" and pre: "call_pre N (w_db w) caller code gas price val"
  shows "\<exists>r. Create fuel env w caller code gas price val = Some r \<and> call_post (w_db w) gas r"
proof -
  have pre': "call_pre N (w_db w) caller [] gas price val" and len: "int (length code) < 2 ^ 63"
    using pre by (simp_all add: call_pre_def)
  obtain r where r: "exec fuel env w caller None None [] code gas price val = Some r"
    "exec_post env w caller None gas val r"
    using exec_call_env [OF env pre' len] by blast
  then show ?thesis by (auto simp: Create_def exec_post_def call_post_def)
qed

lemma VMEnv_crypto [simp]: "env_crypto (VMEnv d fuel env) = env_crypto env"
  by (cases d) simp_all

lemma VMEnv_calls_ok:
  assumes "crypto_ok (env_crypto env)" "new_addresses (env_crypto env)" "N \<le> 2 ^ 63" "N \<le> int fuel"
    and "0 < d" "1026 \<le> int d + k"
  shows "calls_ok N ((VMEnv d fuel env)\<lparr>env_Depth := k\<rparr>)"
  using assms(5,6)
proof (induction d arbitrary: k)
  case (Suc d)
  let ?env = "(VMEnv d fuel env)\<lparr>env_Depth := k\<rparr>"
  have "calls_ok N (?env\<lparr>env_Depth := env_Depth ?env + 1\<rparr>)" if "k \<le> 1024"
    using Suc.IH [of "k + 1"] Suc.prems that by simp
  then have "call_env N fuel ?env" using assms(1-4) by (simp add: call_env_def)
  note ok = Call_ok [OF this] Create_ok [OF this]
  have "\<exists>r. Call fuel ?env w caller addr input gas price val = Some r \<and> call_post (w_db w) gas r"
    "\<exists>r. CallCode fuel ?env w caller addr input gas price val = Some r \<and> call_post (w_db w) gas r"
    if "call_pre N (w_db w) caller input gas price val" for w caller addr input gas price val
    using ok(1,2) [OF that, of addr] exec_post_call by blast+
  then show ?case using ok(3) assms(1) by (simp add: calls_ok_def)
qed simp

text \<open>The environment of a message at the outermost level.\<close>

lemma VMEnv_call_env:
  assumes "crypto_ok (env_crypto env)" "new_addresses (env_crypto env)" "N \<le> 2 ^ 63" "N \<le> int fuel"
    and "1025 \<le> d"
  shows "call_env N fuel ((VMEnv d fuel env)\<lparr>env_Depth := 0\<rparr>)"
  using VMEnv_calls_ok [of env N fuel d 1] assms by (simp add: call_env_def)

end
