(* ===== verification/Rlp_Facts.thy ===== *)
theory Rlp_Facts
  imports Rlp
begin

text \<open>
  The encoding as the format defines it, \<open>rlp\<close>; the encoder, with its headers kept aside, produces
  it; and splitting an encoded value gives back its content.
\<close>

section \<open>The format\<close>

definition rlp_header :: "byte \<Rightarrow> nat \<Rightarrow> bytes" where
  "rlp_header tag n =
     (if n < 56 then [tag + word_of_nat n]
      else let l = big_Bytes (int n) in (tag + 55 + word_of_nat (length l)) # l)"

definition rlp_string :: "bytes \<Rightarrow> bytes" where
  "rlp_string b = (if length b = 1 \<and> b ! 0 \<le> 0x7f then b else rlp_header 0x80 (length b) @ b)"

definition rlp_list :: "bytes \<Rightarrow> bytes" where
  "rlp_list content = rlp_header 0xC0 (length content) @ content"

fun rlp :: "rlp_val \<Rightarrow> bytes" where
  "rlp (VRaw b) = b"
| "rlp (VUint i) = rlp_string (big_Bytes (uint i))"
| "rlp (VBool b) = (if b then [1] else [0x80])"
| "rlp (VBig None) = [0x80]"
| "rlp (VBig (Some i)) = rlp_string (big_Bytes i)"
| "rlp (VBytes b) = rlp_string b"
| "rlp (VByteArray b) = rlp_string b"
| "rlp (VString s) = rlp_string s"
| "rlp VNilInterface = [0xC0]"
| "rlp VNilByteArray = [0x80]"
| "rlp VNilStruct = [0xC0]"
| "rlp (VList vs) = rlp_list (concat (map rlp vs))"

text \<open>The values that have an encoding: no big integer in them is negative.\<close>

fun encodable :: "rlp_val \<Rightarrow> bool" where
  "encodable (VBig (Some i)) = (0 \<le> i)"
| "encodable (VList vs) = (\<forall>v \<in> set vs. encodable v)"
| "encodable v = True"

section \<open>Integers\<close>

text \<open>Byte \<open>j\<close> of a number, and its last \<open>k\<close> bytes.\<close>

definition byte_at :: "nat \<Rightarrow> nat \<Rightarrow> byte" where
  "byte_at n j = word_of_nat (n div 256 ^ j mod 256)"

primrec bytes_of :: "nat \<Rightarrow> nat \<Rightarrow> bytes" where
  "bytes_of 0 n = []"
| "bytes_of (Suc k) n = byte_at n k # bytes_of k n"

lemma bytes_of_numeral:
  "bytes_of (numeral m) n = byte_at n (pred_numeral m) # bytes_of (pred_numeral m) n"
  by (simp add: numeral_eq_Suc)

lemma length_bytes_of [simp]: "length (bytes_of k n) = k"
  by (induction k) simp_all

lemma be_nat_bytes_of: "be_nat (bytes_of k n) = n mod 256 ^ k"
proof (induction k)
  case (Suc k)
  have "n mod 256 ^ Suc k = 256 ^ k * (n div 256 ^ k mod 256) + n mod 256 ^ k"
    by (metis mod_mult2_eq mult.commute power_Suc)
  then show ?case using Suc by (simp add: byte_at_def be_nat_Cons mult.commute)
qed simp

lemma big_Bytes_be_nat:
  assumes "bs \<noteq> []" "hd bs \<noteq> 0"
  shows "big_Bytes (int (be_nat bs)) = bs"
proof (rule be_nat_inject)
  obtain b cs where bs: "bs = b # cs" using assms(1) by (cases bs) auto
  let ?n = "be_nat bs"
  have "unat b \<noteq> 0" using assms(2) bs by (simp add: unat_eq_0)
  then have "256 ^ length cs \<le> unat b * 256 ^ length cs" by simp
  then have lo: "256 ^ length cs \<le> ?n" unfolding bs be_nat_Cons by linarith
  have "length (big_Bytes (int ?n)) \<le> length bs"
    using be_nat_bound [of bs] by (intro length_big_Bytes) (simp flip: of_nat_power)
  moreover have "\<not> length (big_Bytes (int ?n)) \<le> length cs"
  proof
    assume "length (big_Bytes (int ?n)) \<le> length cs"
    then have "(256::nat) ^ length (big_Bytes (int ?n)) \<le> 256 ^ length cs" by (rule power_increasing) simp
    moreover have "?n < 256 ^ length (big_Bytes (int ?n))"
      using be_nat_bound [of "big_Bytes (int ?n)"] by simp
    ultimately show False using lo by linarith
  qed
  ultimately show "length (big_Bytes (int ?n)) = length bs" using bs by simp
  show "be_nat (big_Bytes (int ?n)) = ?n" by simp
qed

lemma big_Bytes_bytes_of:
  assumes "256 ^ k \<le> n" "n < 256 ^ Suc k"
  shows "big_Bytes (int n) = bytes_of (Suc k) n"
proof -
  have "n div 256 ^ k < 256" using assms(2) by (simp add: less_mult_imp_div_less)
  moreover have "0 < n div 256 ^ k" using assms(1) by (simp add: div_greater_zero_iff)
  ultimately have "byte_at n k \<noteq> 0"
    by (simp add: byte_at_def word_of_nat_eq_0_iff nat_dvd_not_less)
  then have "big_Bytes (int (be_nat (bytes_of (Suc k) n))) = bytes_of (Suc k) n"
    by (intro big_Bytes_be_nat) simp_all
  then show ?thesis using assms(2) by (simp only: be_nat_bytes_of mod_less)
qed

lemma ucast_drop_bit_byte: "(ucast (drop_bit (8 * j) (i::uint64)) :: byte) = byte_at (unat i) j"
proof -
  have "unat (drop_bit (8 * j) i) = drop_bit (8 * j) (unat i)"
    by (simp add: unsigned_drop_bit_eq take_bit_nat_eq_self unsigned_less [of i, simplified])
  then have "unat (drop_bit (8 * j) i) = unat i div 256 ^ j"
    by (simp add: drop_bit_eq_div power_mult)
  then show ?thesis
    by (simp add: byte_at_def word_unat_eq_iff unsigned_ucast_eq unat_of_nat take_bit_eq_mod)
qed

lemma byte_at_drop_bit: "byte_at (unat (drop_bit (8 * j) (i::uint64))) 0 = byte_at (unat i) j"
  using ucast_drop_bit_byte [of j i] ucast_drop_bit_byte [of 0 "drop_bit (8 * j) i"] by simp

lemmas ucast_drop_bits =
  ucast_drop_bit_byte [of 0, simplified] byte_at_drop_bit [of 1, simplified]
  byte_at_drop_bit [of 2, simplified] byte_at_drop_bit [of 3, simplified]
  byte_at_drop_bit [of 4, simplified] byte_at_drop_bit [of 5, simplified]
  byte_at_drop_bit [of 6, simplified] byte_at_drop_bit [of 7, simplified]

lemma putint_bytes_of:
  assumes "256 ^ k \<le> unat i" "unat i < 256 ^ Suc k"
  shows "putint i = bytes_of (Suc k) (unat i)"
proof -
  have "unat i < 256 ^ 8" using unsigned_less [of i] by simp
  with assms(1) have "(256::nat) ^ k < 256 ^ 8" by (rule order.strict_trans1)
  then have "k < 8" by (rule power_less_imp_less_exp [rotated]) simp
  moreover have "[0..<8] = [0, 1, 2, 3, 4, 5, 6, 7::nat]" by code_simp
  ultimately have "k \<in> set [0, 1, 2, 3, 4, 5, 6, 7]" by (metis atLeastLessThan_iff set_upt zero_le)
  then have "k = 0 \<or> k = 1 \<or> k = 2 \<or> k = 3 \<or> k = 4 \<or> k = 5 \<or> k = 6 \<or> k = 7" by simp
  then show ?thesis
    using assms
    by (elim disjE)
       (simp_all add: putint_def Let_def ucast_drop_bits word_less_nat_alt bytes_of_numeral)
qed

lemma big_Bytes_0 [simp]: "big_Bytes 0 = []"
  by simp

lemma putint_eq:
  assumes "i \<noteq> 0"
  shows "putint i = big_Bytes (uint i)"
proof -
  let ?n = "unat i"
  have "1 \<le> ?n" using assms by (simp add: Suc_le_eq unat_gt_0)
  then obtain k where k: "256 ^ k \<le> ?n" "?n < 256 ^ Suc k"
    using ex_power_ivl1 [of 256 ?n] unfolding Suc_eq_plus1 by fastforce
  show ?thesis using putint_bytes_of [OF k] big_Bytes_bytes_of [OF k] by (simp only: uint_nat)
qed

lemma length_big_Bytes_uint64: "length (big_Bytes (uint (i::uint64))) \<le> 8"
  using uint_lt2p [of i] by (intro length_big_Bytes) simp

lemma length_Bytes_uint64: "length (big_Bytes (uint (x::uint64))) = length (le_bytes (unat x))"
  by (simp add: big_Bytes_def)

lemma intsize_from_eq: "intsize_from i sz = sz + (length (le_bytes (unat i)) - 1)"
proof (induction i sz rule: intsize_from.induct)
  case (1 i sz)
  let ?j = "drop_bit 8 i"
  have d: "le_bytes (unat i) = (if unat i = 0 then [] else word_of_nat (unat i mod 256) # le_bytes (unat ?j))"
    by (subst le_bytes.simps) (simp add: unat_div drop_bit_eq_div)
  show ?case
  proof (cases "?j = 0")
    case True
    then show ?thesis unfolding d by (simp add: intsize_from.simps [of i])
  next
    case False
    then have "le_bytes (unat ?j) \<noteq> []" "i \<noteq> 0" by (auto simp: unat_eq_0)
    then show ?thesis
      unfolding d intsize_from.simps [of i] using 1 [OF refl False] False
      by (cases "le_bytes (unat ?j)") (simp_all add: unat_eq_0)
  qed
qed

lemma intsize_eq: "i \<noteq> 0 \<Longrightarrow> intsize i = length (big_Bytes (uint i))"
  by (cases "le_bytes (unat i)")
     (simp_all add: intsize_def intsize_from_eq length_Bytes_uint64 unat_eq_0)

section \<open>Headers\<close>

lemma unat_of_nat64: "n < 2 ^ 64 \<Longrightarrow> unat (word_of_nat n :: uint64) = n"
  by (simp add: unat_of_nat take_bit_nat_eq_self)

lemma putint_of_nat:
  assumes "56 \<le> n" "n < 2 ^ 64"
  shows "putint (word_of_nat n) = big_Bytes (int n)" "intsize (word_of_nat n) = length (big_Bytes (int n))"
proof -
  have u: "unat (word_of_nat n :: uint64) = n" using assms(2) by (rule unat_of_nat64)
  then have nz: "(word_of_nat n :: uint64) \<noteq> 0" using assms(1) by (metis not_numeral_le_zero unat_0)
  have "uint (word_of_nat n :: uint64) = int n" using u by (metis uint_nat)
  then show "putint (word_of_nat n) = big_Bytes (int n)" "intsize (word_of_nat n) = length (big_Bytes (int n))"
    using putint_eq [OF nz] intsize_eq [OF nz] by metis+
qed

lemma small_of_nat: "n < 2 ^ 64 \<Longrightarrow> (word_of_nat n :: uint64) < 56 \<longleftrightarrow> n < 56"
  by (simp add: word_less_nat_alt unat_of_nat64)

lemma puthead_eq:
  assumes "n < 2 ^ 64"
  shows "puthead tag (tag + 55) (word_of_nat n) = rlp_header tag n"
proof (cases "n < 56")
  case True
  then have "(ucast (word_of_nat n :: uint64) :: byte) = word_of_nat n"
    using assms by (simp add: word_unat_eq_iff unsigned_ucast_eq unat_of_nat64 unat_of_nat take_bit_nat_eq_self)
  then show ?thesis using True small_of_nat [OF assms] by (simp add: puthead_def rlp_header_def)
next
  case False
  then show ?thesis
    using small_of_nat [OF assms] putint_of_nat [of n] assms
    by (simp add: puthead_def rlp_header_def Let_def)
qed

lemma encodeString_eq:
  assumes "length b < 2 ^ 64"
  shows "encodeString w b = eb_append w (rlp_string b)" "writeString b w = eb_append w (rlp_string b)"
proof -
  have h: "encodeStringHeader w (length b) = eb_append w (rlp_header 0x80 (length b))"
    using assms putint_of_nat [of "length b"]
    by (simp add: encodeStringHeader_def rlp_header_def Let_def not_less)
  show "encodeString w b = eb_append w (rlp_string b)"
    by (auto simp: encodeString_def h rlp_string_def eb_append_def length_Suc_conv)
  then show "writeString b w = eb_append w (rlp_string b)"
    by (simp add: encodeString_def writeString_def)
qed

lemma writeUint_eq: "writeUint i w = eb_append w (rlp_string (big_Bytes (uint i)))"
proof (cases "i < 128")
  case True
  have "big_Bytes (uint i) = [ucast i]" if "i \<noteq> 0"
  proof -
    have "unat i < 256 ^ Suc 0" "256 ^ 0 \<le> unat i"
      using True that by (simp_all add: word_less_nat_alt Suc_le_eq unat_gt_0)
    then show ?thesis
      using putint_bytes_of [of 0 i] putint_eq [OF that] ucast_drop_bits(1) [of i] by simp
  qed
  moreover have "(ucast i :: byte) \<le> 0x7f"
    using True by (simp add: word_le_nat_alt word_less_nat_alt unsigned_ucast_eq take_bit_nat_eq_self)
  ultimately show ?thesis using True by (simp add: writeUint_def rlp_string_def rlp_header_def)
next
  case False
  then have nz: "i \<noteq> 0" by auto
  have "\<not> (length (big_Bytes (uint i)) = 1 \<and> big_Bytes (uint i) ! 0 \<le> 0x7f)"
  proof
    assume *: "length (big_Bytes (uint i)) = 1 \<and> big_Bytes (uint i) ! 0 \<le> 0x7f"
    then obtain b where b: "big_Bytes (uint i) = [b]" "b \<le> 0x7f" by (auto simp: length_Suc_conv)
    then have "unat b = unat i" using be_nat_Bytes [of "uint i"] by simp
    then show False using b(2) False by (simp add: word_le_nat_alt word_less_nat_alt)
  qed
  then show ?thesis
    using False nz length_big_Bytes_uint64 [of i]
    by (auto simp: writeUint_def putint_eq rlp_string_def rlp_header_def Let_def)
qed

section \<open>The encoder\<close>

text \<open>
  What a writer adds to the buffer: string data and headers, whose offsets are relative to the
  end of the string data before. \<open>toBytes_from\<close> weaves them together.
\<close>

definition shift :: "nat \<Rightarrow> listhead \<Rightarrow> listhead" where
  "shift n h = h\<lparr>lh_offset := lh_offset h + n\<rparr>"

lemma shift_simps [simp]:
  "lh_offset (shift n h) = lh_offset h + n" "listhead_encode (shift n h) = listhead_encode h"
  by (simp_all add: shift_def listhead_encode_def)

definition heads_size :: "listhead list \<Rightarrow> nat" where
  "heads_size hs = (\<Sum>h\<leftarrow>hs. length (listhead_encode h))"

definition offsets_ok :: "nat \<Rightarrow> listhead list \<Rightarrow> nat \<Rightarrow> bool" where
  "offsets_ok p hs n \<longleftrightarrow> sorted (p # map lh_offset hs) \<and> (\<forall>h \<in> set hs. lh_offset h \<le> n)"

lemma toBytes_from_shift:
  "toBytes_from (s1 @ s2) (length s1 + p) (map (shift (length s1)) hs) = toBytes_from s2 p hs"
proof (induction hs arbitrary: p)
  case (Cons h hs)
  have "length s1 + p + (lh_offset h + length s1 - (length s1 + p)) = length s1 + (p + (lh_offset h - p))"
    by simp
  then show ?case using Cons.IH [of "p + (lh_offset h - p)"] by (simp add: add.assoc)
qed simp

lemma toBytes_from_append:
  assumes "offsets_ok p hs1 (length s1)" "p \<le> length s1"
  shows "toBytes_from (s1 @ s2) p (hs1 @ map (shift (length s1)) hs2) =
         toBytes_from s1 p hs1 @ toBytes_from s2 0 hs2"
  using assms
proof (induction hs1 arbitrary: p)
  case Nil
  show ?case
  proof (cases hs2)
    case (Cons h hs)
    then show ?thesis
      using Nil toBytes_from_shift [of s1 s2 "lh_offset h" hs] by (simp add: add.commute)
  qed (use Nil in simp)
next
  case (Cons h hs1)
  then have "p \<le> lh_offset h" "lh_offset h \<le> length s1" "offsets_ok (lh_offset h) hs1 (length s1)"
    by (auto simp: offsets_ok_def)
  then show ?case using Cons.IH [of "lh_offset h"] by simp
qed

lemma length_toBytes_from:
  assumes "offsets_ok p hs (length s)" "p \<le> length s"
  shows "length (toBytes_from s p hs) = length s - p + heads_size hs"
  using assms
proof (induction hs arbitrary: p)
  case (Cons h hs)
  then have "p \<le> lh_offset h" "lh_offset h \<le> length s" "offsets_ok (lh_offset h) hs (length s)"
    by (auto simp: offsets_ok_def)
  then show ?case using Cons.IH [of "lh_offset h"] by (simp add: heads_size_def)
qed (simp add: heads_size_def)

text \<open>A writer adds the encoding \<open>e\<close> to the buffer.\<close>

definition adds :: "encbuf \<Rightarrow> bytes \<Rightarrow> encbuf \<Rightarrow> bool" where
  "adds w e w' \<longleftrightarrow>
     (\<exists>s hs. eb_str w' = eb_str w @ s \<and> lheads w' = lheads w @ map (shift (length (eb_str w))) hs \<and>
        lhsize w' = lhsize w + heads_size hs \<and> offsets_ok 0 hs (length s) \<and> toBytes_from s 0 hs = e)"

lemma adds_append: "adds w e (eb_append w e)"
  unfolding adds_def
  by (rule exI [of _ e], rule exI [of _ "[]"]) (simp add: eb_append_def heads_size_def offsets_ok_def)

lemma adds_refl: "adds w [] w"
  unfolding adds_def
  by (rule exI [of _ "[]"], rule exI [of _ "[]"]) (simp add: heads_size_def offsets_ok_def)

lemma adds_trans:
  assumes "adds w1 e1 w2" "adds w2 e2 w3"
  shows "adds w1 (e1 @ e2) w3"
proof -
  obtain s1 hs1 where 1: "eb_str w2 = eb_str w1 @ s1" "lheads w2 = lheads w1 @ map (shift (length (eb_str w1))) hs1"
    "lhsize w2 = lhsize w1 + heads_size hs1" "offsets_ok 0 hs1 (length s1)" "toBytes_from s1 0 hs1 = e1"
    using assms(1) unfolding adds_def by blast
  obtain s2 hs2 where 2: "eb_str w3 = eb_str w2 @ s2" "lheads w3 = lheads w2 @ map (shift (length (eb_str w2))) hs2"
    "lhsize w3 = lhsize w2 + heads_size hs2" "offsets_ok 0 hs2 (length s2)" "toBytes_from s2 0 hs2 = e2"
    using assms(2) unfolding adds_def by blast
  let ?hs = "hs1 @ map (shift (length s1)) hs2"
  have "heads_size ?hs = heads_size hs1 + heads_size hs2"
    by (simp add: heads_size_def comp_def)
  moreover have "map (shift (length (eb_str w2))) hs2 = map (shift (length (eb_str w1))) (map (shift (length s1)) hs2)"
    using 1(1) by (simp add: shift_def)
  moreover have "offsets_ok 0 ?hs (length (s1 @ s2))"
    using 1(4) 2(4) by (fastforce simp: offsets_ok_def sorted_append comp_def sorted_map)
  moreover have "toBytes_from (s1 @ s2) 0 ?hs = e1 @ e2"
    using toBytes_from_append [OF 1(4)] 1(5) 2(5) by simp
  ultimately show ?thesis
    unfolding adds_def using 1 2
    by (intro exI [of _ "s1 @ s2"] exI [of _ ?hs]) simp
qed

lemma adds_list:
  assumes "eb_list w = (i, w1)" "adds w1 c w2" "length c < 2 ^ 64"
  shows "adds w (rlp_list c) (eb_listEnd w2 i)"
proof -
  let ?L = "length (eb_str w)"
  have i: "i = length (lheads w)"
    and w1: "w1 = w\<lparr>lheads := lheads w @ [\<lparr>lh_offset = ?L, lh_size = lhsize w\<rparr>]\<rparr>"
    using assms(1) by (simp_all add: eb_list_def)
  obtain s hs where 2: "eb_str w2 = eb_str w @ s"
    "lheads w2 = lheads w @ \<lparr>lh_offset = ?L, lh_size = lhsize w\<rparr> # map (shift ?L) hs"
    "lhsize w2 = lhsize w + heads_size hs" "offsets_ok 0 hs (length s)" "toBytes_from s 0 hs = c"
    using assms(2) unfolding adds_def w1 by auto
  have len: "length c = length s + heads_size hs"
    using length_toBytes_from [OF 2(4)] 2(5) by simp
  let ?h = "\<lparr>lh_offset = 0, lh_size = length c\<rparr>"
  have enc: "listhead_encode ?h = rlp_header 0xC0 (length c)"
    using puthead_eq [OF assms(3), of "0xC0"] by (simp add: listhead_encode_def)
  have sz: "eb_size w2 - lh_offset (lheads w2 ! i) - lh_size (lheads w2 ! i) = length c"
    using 2 len by (simp add: i eb_size_def nth_append)
  have "eb_str (eb_listEnd w2 i) = eb_str w @ s"
    "lheads (eb_listEnd w2 i) = lheads w @ map (shift ?L) (?h # hs)"
    using 2 sz by (simp_all add: eb_listEnd_def Let_def i nth_append shift_def)
  moreover have "lhsize (eb_listEnd w2 i) = lhsize w + heads_size (?h # hs)"
    using 2(3) sz putint_of_nat(2) [of "length c"] assms(3)
    by (simp add: eb_listEnd_def Let_def heads_size_def enc rlp_header_def not_less)
  moreover have "offsets_ok 0 (?h # hs) (length s)" using 2(4) by (simp add: offsets_ok_def)
  moreover have "toBytes_from s 0 (?h # hs) = rlp_list c" using 2(5) enc by (simp add: rlp_list_def)
  ultimately show ?thesis unfolding adds_def by blast
qed

lemma length_rlp_list: "length c \<le> length (rlp_list c)"
  by (simp add: rlp_list_def)

lemma length_rlp_string: "length b \<le> length (rlp_string b)"
  by (simp add: rlp_string_def)

lemma adds_string:
  assumes "length (rlp_string b) < 2 ^ 64"
  shows "adds w (rlp_string b) (encodeString w b)" "adds w (rlp_string b) (writeString b w)"
  using encodeString_eq [of b w] assms length_rlp_string [of b] adds_append by simp_all

lemma write_val_adds:
  "encodable v \<Longrightarrow> length (rlp v) < 2 ^ 64 \<Longrightarrow> \<exists>w'. write_val v w = Inr w' \<and> adds w (rlp v) w'"
  "\<forall>v \<in> set vs. encodable v \<Longrightarrow> length (concat (map rlp vs)) < 2 ^ 64 \<Longrightarrow>
     \<exists>w'. write_elems vs w = Inr w' \<and> adds w (concat (map rlp vs)) w'"
proof (induction v w and vs w rule: write_val_write_elems.induct)
  case (5 i w)
  have "length (big_Bytes i) < 2 ^ 64"
    using 5(2) length_rlp_string [of "big_Bytes i"] by simp
  then show ?case
    using 5(1) encodeString_eq(1) [of "big_Bytes i" w] adds_append
    by (auto simp: writeBigInt_def rlp_string_def rlp_header_def)
next
  case (11 w)
  obtain i w1 where l: "eb_list w = (i, w1)" by fastforce
  then show ?case
    using adds_list [OF l adds_refl] by (simp add: rlp_list_def rlp_header_def)
next
  case (12 vs w)
  obtain i w1 where l: "eb_list w = (i, w1)" by fastforce
  have len: "length (concat (map rlp vs)) < 2 ^ 64"
    using "12.prems"(2) length_rlp_list [of "concat (map rlp vs)"] by simp
  obtain w2 where "write_elems vs w1 = Inr w2" "adds w1 (concat (map rlp vs)) w2"
    using "12.IH" [OF l [symmetric] refl] "12.prems"(1) len by auto
  then show ?case using l adds_list [OF l _ len] by simp
next
  case (14 v vs w)
  obtain w1 where w1: "write_val v w = Inr w1" "adds w (rlp v) w1" using 14 by auto
  then obtain w2 where "write_elems vs w1 = Inr w2" "adds w1 (concat (map rlp vs)) w2" using 14 by auto
  then show ?case using w1 adds_trans by auto
qed (auto simp: writeUint_eq writeBool_def adds_append adds_refl adds_string)

lemma write_val_error:
  "(\<exists>w'. write_val v w = Inr w') = encodable v \<and> (\<not> encodable v \<longrightarrow> write_val v w = Inl ErrNegativeBigInt)"
  "(\<exists>w'. write_elems vs w = Inr w') = (\<forall>v \<in> set vs. encodable v) \<and>
     (\<not> (\<forall>v \<in> set vs. encodable v) \<longrightarrow> write_elems vs w = Inl ErrNegativeBigInt)"
proof (induction v w and vs w rule: write_val_write_elems.induct)
  case (12 vs w)
  obtain i w1 where l: "eb_list w = (i, w1)" by fastforce
  then show ?case using "12.IH" [OF l [symmetric] refl] by (auto split: sum.splits)
next
  case (14 v vs w)
  then show ?case by (cases "write_val v w") auto
qed (auto simp: writeBigInt_def eb_list_def)

lemma adds_empty:
  assumes "adds empty_encbuf e w"
  shows "toBytes w = e" "length (toBytes w) = eb_size w"
proof -
  have sh: "map (shift 0) hs = hs" for hs by (simp add: shift_def map_idI)
  obtain s hs where 1: "w = \<lparr>eb_str = s, lheads = hs, lhsize = heads_size hs\<rparr>" "offsets_ok 0 hs (length s)"
    "toBytes_from s 0 hs = e"
    using assms unfolding adds_def empty_encbuf_def by (cases w) (auto simp: sh)
  then show "toBytes w = e" "length (toBytes w) = eb_size w"
    using length_toBytes_from [OF 1(2)] by (simp_all add: toBytes_def eb_size_def)
qed

text \<open>The encoder produces the format, or reports the negative integer.\<close>

lemma EncodeToBytes_eq:
  assumes "length (rlp v) < 2 ^ 64"
  shows "EncodeToBytes v = (if encodable v then Inr (rlp v) else Inl ErrNegativeBigInt)"
proof (cases "encodable v")
  case True
  then obtain w where "write_val v empty_encbuf = Inr w" "adds empty_encbuf (rlp v) w"
    using write_val_adds(1) [OF _ assms] by blast
  then show ?thesis using True adds_empty(1) by (simp add: EncodeToBytes_def)
qed (use write_val_error(1) [of v empty_encbuf] in \<open>simp add: EncodeToBytes_def\<close>)

section \<open>Splitting\<close>

lemma byte_of_nat: "n < 256 \<Longrightarrow> unat (word_of_nat n :: byte) = n"
  by (simp add: unat_of_nat take_bit_nat_eq_self)

lemma byte_add: "t + n < 256 \<Longrightarrow> unat (word_of_nat t + word_of_nat n :: byte) = t + n"
  by (simp add: byte_of_nat flip: of_nat_add)

lemma ucast_byte_of_nat: "n < 256 \<Longrightarrow> (ucast (word_of_nat n :: byte) :: uint64) = word_of_nat n"
  by (simp add: word_unat_eq_iff unsigned_ucast_eq unat_of_nat take_bit_nat_eq_self)

lemma size_bytes:
  assumes "56 \<le> n" "n < 2 ^ 64"
  shows "1 \<le> length (big_Bytes (int n))" "length (big_Bytes (int n)) \<le> 8" "hd (big_Bytes (int n)) \<noteq> 0"
proof -
  show "1 \<le> length (big_Bytes (int n))" using assms(1) by (simp add: Suc_le_eq)
  show "length (big_Bytes (int n)) \<le> 8" using assms(2) by (intro length_big_Bytes) simp
  show "hd (big_Bytes (int n)) \<noteq> 0" using assms(1) by (intro hd_big_Bytes) simp
qed

lemma readSize_Bytes:
  assumes "56 \<le> n" "n < 2 ^ 64"
  shows "readSize (big_Bytes (int n) @ xs) (word_of_nat (length (big_Bytes (int n)))) = Some (Inr (word_of_nat n))"
proof -
  let ?l = "length (big_Bytes (int n))"
  note sz = size_bytes [OF assms]
  have u: "unat (word_of_nat ?l :: byte) = ?l" using sz by (intro byte_of_nat) simp
  have "\<not> (word_of_nat n :: uint64) < 56" using assms by (simp add: small_of_nat)
  moreover have "(big_Bytes (int n) @ xs) ! 0 = hd (big_Bytes (int n))"
    using sz by (metis hd_conv_nth length_0_conv not_one_le_zero nth_append_left less_le_trans zero_less_one)
  ultimately show ?thesis
    using assms(1) sz u by (simp add: readSize_def Let_def word_le_nat_alt index_def)
qed

lemma length_rlp_header:
  "n < 2 ^ 64 \<Longrightarrow> length (rlp_header tag n) = (if n < 56 then 1 else 1 + length (big_Bytes (int n)))"
  by (simp add: rlp_header_def Let_def)

lemma fits:
  assumes "n \<le> m" "m + k < 2 ^ 64"
  shows "\<not> (word_of_nat (m + k) - word_of_nat k :: uint64) < word_of_nat n"
  using assms by (simp add: word_less_nat_alt unat_of_nat64)

lemma tag_add:
  "n < 64 \<Longrightarrow> unat (0x80 + word_of_nat n :: byte) = 128 + n"
  "n < 64 \<Longrightarrow> unat (0xC0 + word_of_nat n :: byte) = 192 + n"
  using byte_add [of 128 n] byte_add [of 192 n] by simp_all

lemma readKind_small:
  assumes "n < 56" "n \<le> length xs" "length xs + 1 < 2 ^ 64"
  shows "n = 1 \<Longrightarrow> 128 \<le> xs ! 0 \<Longrightarrow> readKind (rlp_header 0x80 n @ xs) = Some (Inr (String, 1, word_of_nat n))"
    "n \<noteq> 1 \<Longrightarrow> readKind (rlp_header 0x80 n @ xs) = Some (Inr (String, 1, word_of_nat n))"
    "readKind (rlp_header 0xC0 n @ xs) = Some (Inr (List, 1, word_of_nat n))"
proof -
  have u: "unat (0x80 + word_of_nat n :: byte) = 128 + n" "unat (0xC0 + word_of_nat n :: byte) = 192 + n"
    using assms(1) tag_add [of n] by simp_all
  have c: "(ucast (word_of_nat n :: byte) :: uint64) = word_of_nat n"
    using assms(1) by (intro ucast_byte_of_nat) simp
  have f: "\<not> (word_of_nat (length xs) :: uint64) < word_of_nat n"
    using fits [of n "length xs" 1] assms by simp
  have one: "(word_of_nat n :: uint64) = 1 \<longleftrightarrow> n = 1"
    using assms(1) by (simp add: word_unat_eq_iff unat_of_nat64)
  show "readKind (rlp_header 0xC0 n @ xs) = Some (Inr (List, 1, word_of_nat n))"
    using assms(1) u(2) c f by (simp add: readKind_def rlp_header_def word_less_nat_alt Let_def)
  show "n \<noteq> 1 \<Longrightarrow> readKind (rlp_header 0x80 n @ xs) = Some (Inr (String, 1, word_of_nat n))"
    using assms(1) u(1) c f one by (simp add: readKind_def rlp_header_def word_less_nat_alt Let_def)
  show "n = 1 \<Longrightarrow> 128 \<le> xs ! 0 \<Longrightarrow> readKind (rlp_header 0x80 n @ xs) = Some (Inr (String, 1, word_of_nat n))"
    using assms u(1) c f one
    by (cases xs) (simp_all add: readKind_def rlp_header_def word_less_nat_alt word_le_nat_alt Let_def index_def)
qed

lemma readKind_large:
  assumes "56 \<le> n" "n \<le> length xs" "length xs + 9 < 2 ^ 64"
  defines "l \<equiv> length (big_Bytes (int n))"
  shows "readKind (rlp_header 0x80 n @ xs) = Some (Inr (String, word_of_nat (1 + l), word_of_nat n))"
    "readKind (rlp_header 0xC0 n @ xs) = Some (Inr (List, word_of_nat (1 + l), word_of_nat n))"
proof -
  have n: "n < 2 ^ 64" using assms by simp
  note sz = size_bytes [OF assms(1) n, folded l_def] and rs = readSize_Bytes [OF assms(1) n, folded l_def]
  let ?s = "183 + word_of_nat l :: byte" and ?t = "247 + word_of_nat l :: byte"
  have u: "unat ?s = 183 + l" "unat ?t = 247 + l"
    using byte_add [of 183 l] byte_add [of 247 l] sz by simp_all
  have s: "\<not> ?s < 0x80" "\<not> ?s < 0xB8" "?s < 0xC0" "?s - 0xB7 = word_of_nat l"
    and t: "\<not> ?t < 0x80" "\<not> ?t < 0xB8" "\<not> ?t < 0xC0" "\<not> ?t < 0xF8" "?t - 0xF7 = word_of_nat l"
    using sz by (simp_all add: word_less_nat_alt u)
  have c: "(ucast (word_of_nat l :: byte) :: uint64) + 1 = word_of_nat (1 + l)"
    using sz ucast_byte_of_nat [of l] by simp
  have f: "\<not> (word_of_nat (length xs + (1 + l)) - word_of_nat (1 + l) :: uint64) < word_of_nat n"
    by (rule fits) (use assms sz in simp_all)
  have h: "rlp_header 0x80 n @ xs = ?s # big_Bytes (int n) @ xs" "rlp_header 0xC0 n @ xs = ?t # big_Bytes (int n) @ xs"
    "length (rlp_header tag n @ xs) = length xs + (1 + l)" for tag
    using assms(1) n by (simp_all add: rlp_header_def Let_def l_def)
  have nz: "length xs + (1 + l) \<noteq> 0" by simp
  show "readKind (rlp_header 0x80 n @ xs) = Some (Inr (String, word_of_nat (1 + l), word_of_nat n))"
    unfolding readKind_def h(3) unfolding h(1)
    by (simp only: Let_def nz [unfolded One_nat_def] s c f [unfolded One_nat_def] rs nth_Cons_0 if_False if_True drop_Suc_Cons drop0 One_nat_def option.map sum.case)
  show "readKind (rlp_header 0xC0 n @ xs) = Some (Inr (List, word_of_nat (1 + l), word_of_nat n))"
    unfolding readKind_def h(3) unfolding h(2)
    by (simp only: Let_def nz [unfolded One_nat_def] t c f [unfolded One_nat_def] rs nth_Cons_0 if_False if_True drop_Suc_Cons drop0 One_nat_def option.map sum.case)
qed

lemma Split_header:
  assumes "readKind (h @ c @ rest) = Some (Inr (k, word_of_nat (length h), word_of_nat (length c)))"
    "length (h @ c @ rest) < 2 ^ 64"
  shows "Split (h @ c @ rest) = Some (Inr (k, c, rest))"
proof -
  have "unat (word_of_nat (length h) :: uint64) = length h"
    "unat (word_of_nat (length h) + word_of_nat (length c) :: uint64) = length h + length c"
    using assms(2) unat_of_nat64 [of "length h"] unat_of_nat64 [of "length h + length c"] by simp_all
  then show ?thesis using assms(1) by (simp add: Split_def slice_def)
qed

lemma readKind_header:
  assumes "length (rlp_header tag (length c) @ c @ rest) + 9 < 2 ^ 64"
    "tag = 0x80 \<and> k = String \<and> \<not> (length c = 1 \<and> c ! 0 \<le> 0x7f) \<or> tag = 0xC0 \<and> k = List"
  shows "readKind (rlp_header tag (length c) @ c @ rest) =
         Some (Inr (k, word_of_nat (length (rlp_header tag (length c))), word_of_nat (length c)))"
proof (cases "length c < 56")
  case True
  have "128 \<le> (c @ rest) ! 0" if "length c = 1" "\<not> c ! 0 \<le> 0x7f"
    using that by (simp add: word_le_nat_alt nth_append)
  moreover have "length (rlp_header tag (length c)) = 1" using True by (simp add: rlp_header_def)
  moreover have "length c \<le> length (c @ rest)" "length (c @ rest) + 1 < 2 ^ 64" using assms(1) by simp_all
  ultimately show ?thesis
    using readKind_small [OF True, of "c @ rest"] assms(2) by (cases "length c = 1") auto
next
  case False
  then have "length (rlp_header tag (length c)) = 1 + length (big_Bytes (int (length c)))"
    by (simp add: rlp_header_def Let_def)
  then show ?thesis
    using readKind_large [of "length c" "c @ rest"] False assms by auto
qed

text \<open>The kind of an encoded string: a single byte below 128 is its own encoding.\<close>

definition string_kind :: "bytes \<Rightarrow> Kind" where
  "string_kind b = (if length b = 1 \<and> b ! 0 \<le> 0x7f then Byte else String)"

lemma readKind_string:
  assumes "length (rlp_string b @ rest) + 9 < 2 ^ 64"
  obtains h where "rlp_string b = h @ b" "readKind (h @ b @ rest) =
         Some (Inr (string_kind b, word_of_nat (length h), word_of_nat (length b)))"
proof (cases "length b = 1 \<and> b ! 0 \<le> 0x7f")
  case True
  then obtain x where x: "b = [x]" "x < 0x80" by (auto simp: length_Suc_conv word_le_nat_alt word_less_nat_alt)
  have "\<not> (word_of_nat (length rest + 1) - word_of_nat 0 :: uint64) < word_of_nat 1"
    using assms fits [of 1 "length rest + 1" 0] x by (simp add: rlp_string_def)
  then have "readKind (b @ rest) = Some (Inr (Byte, word_of_nat (length []), word_of_nat (length b)))"
    using x by (simp add: readKind_def Let_def)
  then show thesis using that [of "[]"] True by (simp add: rlp_string_def string_kind_def)
next
  case False
  then have "rlp_string b = rlp_header 0x80 (length b) @ b" by (auto simp: rlp_string_def)
  then show thesis
    using that [of "rlp_header 0x80 (length b)"] False assms readKind_header [of "0x80" b rest String]
    by (auto simp: string_kind_def)
qed

lemma Split_string:
  assumes "length (rlp_string b @ rest) + 9 < 2 ^ 64"
  shows "Split (rlp_string b @ rest) = Some (Inr (string_kind b, b, rest))"
proof -
  obtain h where h: "rlp_string b = h @ b" "readKind (h @ b @ rest) =
         Some (Inr (string_kind b, word_of_nat (length h), word_of_nat (length b)))"
    using readKind_string [OF assms] by blast
  then show ?thesis using Split_header [OF h(2)] assms by simp
qed

lemma Split_list:
  assumes "length (rlp_list c @ rest) + 9 < 2 ^ 64"
  shows "Split (rlp_list c @ rest) = Some (Inr (List, c, rest))"
  using assms readKind_header [of "0xC0" c rest List] Split_header [of "rlp_header 0xC0 (length c)" c rest List]
  by (simp add: rlp_list_def)

text \<open>An encoded string or list is never a proper prefix of another one.\<close>

lemma rlp_string_inject:
  assumes "rlp_string a @ r = rlp_string b @ r'" "length (rlp_string a @ r) + 9 < 2 ^ 64"
  shows "a = b \<and> r = r'"
proof -
  have "length (rlp_string b @ r') + 9 < 2 ^ 64" using assms(2) unfolding assms(1) .
  from Split_string [OF this] Split_string [OF assms(2)] show ?thesis unfolding assms(1) by simp
qed

lemma rlp_list_inject:
  assumes "rlp_list a @ r = rlp_list b @ r'" "length (rlp_list a @ r) + 9 < 2 ^ 64"
  shows "a = b \<and> r = r'"
proof -
  have "length (rlp_list b @ r') + 9 < 2 ^ 64" using assms(2) unfolding assms(1) .
  from Split_list [OF this] Split_list [OF assms(2)] show ?thesis unfolding assms(1) by simp
qed

text \<open>A value with no raw part is encoded as a string or as a list.\<close>

fun item_content :: "rlp_val \<Rightarrow> Kind \<times> bytes" where
  "item_content (VRaw b) = (String, b)"
| "item_content (VUint i) = (string_kind (big_Bytes (uint i)), big_Bytes (uint i))"
| "item_content (VBool b) = (if b then (Byte, [1]) else (String, []))"
| "item_content (VBig None) = (String, [])"
| "item_content (VBig (Some i)) = (string_kind (big_Bytes i), big_Bytes i)"
| "item_content (VBytes b) = (string_kind b, b)"
| "item_content (VByteArray b) = (string_kind b, b)"
| "item_content (VString s) = (string_kind s, s)"
| "item_content VNilInterface = (List, [])"
| "item_content VNilByteArray = (String, [])"
| "item_content VNilStruct = (List, [])"
| "item_content (VList vs) = (List, concat (map rlp vs))"

definition is_raw :: "rlp_val \<Rightarrow> bool" where
  "is_raw v = (\<exists>b. v = VRaw b)"

lemma rlp_shape:
  assumes "\<not> is_raw v"
  shows "(\<exists>b. rlp v = rlp_string b \<and> item_content v = (string_kind b, b)) \<or>
         (\<exists>c. rlp v = rlp_list c \<and> item_content v = (List, c))"
proof -
  have "rlp_string [1] = [1]" "rlp_string [] = [0x80]" "rlp_list [] = [0xC0]" "string_kind [] = String"
    "string_kind [1] = Byte"
    by (simp_all add: rlp_string_def rlp_list_def rlp_header_def string_kind_def)
  then show ?thesis
    using assms by (cases v rule: rlp.cases) (fastforce simp: is_raw_def)+
qed

lemma Split_rlp:
  assumes "\<not> is_raw v" "length (rlp v @ rest) + 9 < 2 ^ 64" "item_content v = (k, c)"
  shows "Split (rlp v @ rest) = Some (Inr (k, c, rest))"
  using rlp_shape [OF assms(1)]
proof (elim disjE exE conjE)
  fix b assume "rlp v = rlp_string b" "item_content v = (string_kind b, b)"
  then show ?thesis using Split_string [of b rest] assms(2,3) by simp
next
  fix d assume "rlp v = rlp_list d" "item_content v = (List, d)"
  then show ?thesis using Split_list [of d rest] assms(2,3) by simp
qed

lemma readKind_rlp:
  assumes "\<not> is_raw v" "length (rlp v @ rest) + 9 < 2 ^ 64"
  shows "\<exists>k ts cs. readKind (rlp v @ rest) = Some (Inr (k, ts, cs)) \<and> unat (ts + cs) = length (rlp v)"
proof -
  have sum: "unat (word_of_nat (length h) + word_of_nat (length c) :: uint64) = length (h @ c)"
    if "rlp v = h @ c" for h c :: bytes
    using assms(2) that unat_of_nat64 [of "length h + length c"] by simp
  show ?thesis using rlp_shape [OF assms(1)]
  proof (elim disjE exE conjE)
    fix b assume b: "rlp v = rlp_string b"
    with assms(2) obtain h where "rlp_string b = h @ b" "readKind (h @ b @ rest) =
        Some (Inr (string_kind b, word_of_nat (length h), word_of_nat (length b)))"
      using readKind_string [of b rest] by metis
    then show ?thesis using sum [of h b] b by auto
  next
    fix c assume c: "rlp v = rlp_list c"
    then show ?thesis
      using readKind_header [of "0xC0" c rest List] sum [of "rlp_header 0xC0 (length c)" c] assms(2)
      by (auto simp: rlp_list_def)
  qed
qed

lemma CountValues_from_rlp:
  assumes "\<forall>v \<in> set vs. \<not> is_raw v" "length (concat (map rlp vs)) + 9 < 2 ^ 64"
  shows "CountValues_from i (concat (map rlp vs)) = Some (Inr (i + length vs))"
  using assms
proof (induction vs arbitrary: i)
  case Nil
  show ?case by (subst CountValues_from.simps) simp
next
  case (Cons v vs)
  then obtain k ts cs where r: "readKind (rlp v @ concat (map rlp vs)) = Some (Inr (k, ts, cs))"
    "unat (ts + cs) = length (rlp v)"
    using readKind_rlp [of v "concat (map rlp vs)"] by auto
  have "rlp v \<noteq> []" using rlp_shape [of v] Cons.prems(1)
    by (auto simp: rlp_string_def rlp_list_def rlp_header_def Let_def split: if_splits)
  then show ?case
    using Cons r by (subst CountValues_from.simps) (simp add: slice_def)
qed

section \<open>Properties\<close>



text \<open>
  C30. Splitting the encoding of a value, followed by anything, gives back its kind and its content,
  which for a list is the concatenation of the encodings of its elements, and the rest.
\<close>

theorem split_encoding:
  assumes "\<not> is_raw v" "EncodeToBytes v = Inr e" "length (rlp v @ rest) + 9 < 2 ^ 64"
  shows "Split (e @ rest) = Some (Inr (fst (item_content v), snd (item_content v), rest))"
proof -
  have "e = rlp v" using assms(2,3) EncodeToBytes_eq [of v] by (simp split: if_splits)
  then show ?thesis using Split_rlp [OF assms(1,3), of "fst (item_content v)" "snd (item_content v)"] by simp
qed

theorem split_encoding_witness:
  "Split ([0xC8, 0x82, 4, 0, 0x83, 0x64, 0x6f, 0x67, 0xC0] @ [1, 2]) =
     Some (Inr (List, [0x82, 4, 0, 0x83, 0x64, 0x6f, 0x67, 0xC0], [1, 2]))"
proof -
  let ?v = "VList [VUint 1024, VString [0x64, 0x6f, 0x67], VList []]"
  have r: "rlp ?v = [0xC8, 0x82, 4, 0, 0x83, 0x64, 0x6f, 0x67, 0xC0]"
    "item_content ?v = (List, [0x82, 4, 0, 0x83, 0x64, 0x6f, 0x67, 0xC0])" by code_simp+
  have "EncodeToBytes ?v = Inr [0xC8, 0x82, 4, 0, 0x83, 0x64, 0x6f, 0x67, 0xC0]"
    using EncodeToBytes_eq [of ?v] r by simp
  then show ?thesis
    using split_encoding [of ?v "[0xC8, 0x82, 4, 0, 0x83, 0x64, 0x6f, 0x67, 0xC0]" "[1, 2]"] r
    by (simp add: is_raw_def)
qed

text \<open>
  C31. Counting the values in the content of an encoded list ends and gives the number of its
  elements.
\<close>

theorem count_values:
  assumes "\<forall>v \<in> set vs. \<not> is_raw v" "length (concat (map rlp vs)) + 9 < 2 ^ 64"
  shows "CountValues (concat (map rlp vs)) = Some (Inr (length vs))"
  using CountValues_from_rlp [OF assms, of 0] by (simp add: CountValues_def)

theorem count_values_witness: "CountValues [0x82, 4, 0, 0x83, 0x64, 0x6f, 0x67, 0xC0] = Some (Inr 3)"
proof -
  have "concat (map rlp [VUint 1024, VString [0x64, 0x6f, 0x67], VList []]) =
      [0x82, 4, 0, 0x83, 0x64, 0x6f, 0x67, 0xC0]" by code_simp
  then show ?thesis
    using count_values [of "[VUint 1024, VString [0x64, 0x6f, 0x67], VList []]"] by (simp add: is_raw_def)
qed

lemma readSize_defined:
  assumes "0 < slen"
  obtains err where "readSize b slen = Some (Inl err)" | s where "readSize b slen = Some (Inr s)" "unat slen \<le> length b"
proof -
  have "0 < unat slen" using assms by (simp add: unat_gt_0 word_greater_zero_iff)
  then have "\<exists>r. readSize b slen = Some r" by (cases b) (auto simp: readSize_def Let_def index_def)
  then obtain r where r: "readSize b slen = Some r" by blast
  show thesis
  proof (cases r)
    case (Inr s)
    then show thesis using that(2) r by (simp add: readSize_def split: if_splits)
  qed (use that(1) r in simp)
qed

definition kind_ok :: "bytes \<Rightarrow> rlp_error + Kind \<times> uint64 \<times> uint64 \<Rightarrow> bool" where
  "kind_ok buf r \<longleftrightarrow>
     (case r of Inl err \<Rightarrow> True
      | Inr (k, ts, cs) \<Rightarrow> unat ts \<le> length buf \<and> cs \<le> word_of_nat (length buf) - ts)"

lemma readKind_defined:
  assumes "buf \<noteq> [0x81]"
  shows "\<exists>r. readKind buf = Some r \<and> kind_ok buf r"
proof (cases buf)
  case (Cons x xs)
  have large: "\<exists>r. map_option (case_sum Inl (\<lambda>contentsize.
        if contentsize > word_of_nat (length buf) - (ucast slen + 1) then Inl ErrValueTooLarge
        else Inr (k, ucast slen + 1, contentsize))) (readSize xs slen) = Some r \<and> kind_ok buf r"
    if slen: "0 < slen" "slen \<le> 64" for slen k
  proof (rule readSize_defined [OF slen(1), of xs])
    fix s assume s: "readSize xs slen = Some (Inr s)" "unat slen \<le> length xs"
    have "unat slen \<le> 64" using slen(2) by (simp add: word_le_nat_alt)
    then have "unat (ucast slen + 1 :: uint64) = unat slen + 1"
      by (simp add: unat_word_ariths unsigned_ucast_eq take_bit_nat_eq_self)
    then show ?thesis using s Cons by (auto simp: kind_ok_def not_less)
  qed (auto simp: kind_ok_def)
  have pos: "0 < x - 0xB7" "x - 0xB7 \<le> 64" if "\<not> x < 0xB8" "x < 0xC0"
    using that by (auto simp: word_less_nat_alt word_le_nat_alt unat_sub)
  have "unat x - 247 \<le> 64" using unat_byte_less [of x] by linarith
  then have pos': "0 < x - 0xF7" "x - 0xF7 \<le> 64" if "\<not> x < 0xF8"
    using that by (auto simp: word_less_nat_alt word_le_nat_alt unat_sub)
  have one: "(ucast (x - 0x80) :: uint64) = 1 \<longleftrightarrow> x = 0x81"
  proof -
    have "take_bit 64 (unat (x - 0x80)) = unat (x - 0x80)"
      by (rule take_bit_nat_eq_self) (rule order.strict_trans [OF unat_byte_less], simp)
    then have "(ucast (x - 0x80) :: uint64) = 1 \<longleftrightarrow> x - 0x80 = 1"
      by (simp add: word_unat_eq_iff unsigned_ucast_eq)
    then show ?thesis by (simp add: diff_eq_eq)
  qed
  consider "x < 0x80" | "\<not> x < 0x80" "x < 0xB8" | "\<not> x < 0x80" "\<not> x < 0xB8" "x < 0xC0"
    | "\<not> x < 0x80" "\<not> x < 0xB8" "\<not> x < 0xC0" "x < 0xF8"
    | "\<not> x < 0x80" "\<not> x < 0xB8" "\<not> x < 0xC0" "\<not> x < 0xF8" by blast
  then show ?thesis
  proof cases
    case 2
    then show ?thesis
      using Cons assms one by (auto simp: readKind_def kind_ok_def Let_def index_def not_less neq_Nil_conv)
  next
    case 3
    then show ?thesis using large [OF pos, of String] Cons by (simp add: readKind_def Let_def)
  next
    case 5
    then show ?thesis using large [OF pos', of List] Cons by (simp add: readKind_def Let_def)
  next
    case 1
    have "1 \<le> w" if "w \<noteq> 0" for w :: uint64 using that by (simp add: word_le_nat_alt Suc_le_eq unat_gt_0)
    then show ?thesis using 1 Cons by (auto simp: readKind_def kind_ok_def Let_def)
  qed (use Cons in \<open>auto simp: readKind_def kind_ok_def Let_def not_less\<close>)
qed (simp add: readKind_def kind_ok_def)

text \<open>
  C32. Splitting never runs out of the buffer, with one exception: the single byte \<open>0x81\<close>, the
  header of a string of one byte that is missing, makes it read the byte after the end.
\<close>

theorem split_panics_once:
  assumes "length b < 2 ^ 64"
  shows "Split b = None \<longleftrightarrow> b = [0x81]"
proof (cases "b = [0x81]")
  case False
  then obtain r where r: "readKind b = Some r" "kind_ok b r" using readKind_defined by blast
  show ?thesis
  proof (cases r)
    case (Inr x)
    obtain k ts cs where x: "x = (k, ts, cs)" by (cases x)
    have *: "unat ts \<le> length b" "cs \<le> word_of_nat (length b) - ts" using r(2) Inr x by (simp_all add: kind_ok_def)
    have u: "unat (word_of_nat (length b) :: uint64) = length b" using assms by (rule unat_of_nat64)
    have "unat (word_of_nat (length b) - ts) = length b - unat ts"
      using *(1) u by (simp add: unat_sub word_le_nat_alt)
    then have "unat cs \<le> length b - unat ts" using *(2) by (simp add: word_le_nat_alt)
    then have "unat ts + unat cs \<le> length b" using *(1) by simp
    moreover from this have "unat (ts + cs) = unat ts + unat cs"
      using assms by (simp add: unat_word_ariths)
    ultimately show ?thesis using r(1) Inr x False by (simp add: Split_def slice_def)
  qed (use r(1) False in \<open>simp add: Split_def\<close>)
qed (simp add: Split_def readKind_def index_def)

theorem split_panics_once_witness: "Split [0x81] = None \<and> Split [0x82] \<noteq> None"
  using split_panics_once [of "[0x81]"] split_panics_once [of "[0x82]"] by simp

end
