(* ===== verification/Sample.thy ===== *)
theory Sample
  imports Exec_Facts Rlp_Facts
begin

text \<open>
  A concrete environment and state, at which the theorems with hypotheses are applied: digests
  that depend on one byte of their input, an account with a balance and a contract.
\<close>

definition sample_keccak :: "bytes \<Rightarrow> bytes" where
  "sample_keccak x = replicate 31 0 @ [if length x > 21 \<and> x ! 21 = 0 then 1 else 0]"

definition sample_crypto :: crypto where
  "sample_crypto =
     \<lparr>keccak256 = sample_keccak, cr_sha256 = (\<lambda>x. replicate 32 0), cr_ripemd160 = (\<lambda>x. replicate 20 0),
      RecoverPubkey = (\<lambda>h s. if last s = 0 then Some (replicate 65 0) else None)\<rparr>"

lemma sample_crypto_ok: "crypto_ok sample_crypto"
  by (simp add: crypto_ok_def sample_crypto_def sample_keccak_def)

declare length_Address_Bytes [simp]



text \<open>Account 5 has a balance; account 7 is a contract that stores 3 + 4 in slot 0.\<close>

definition sample_code :: bytes where
  "sample_code = [0x60, 3, 0x60, 4, 0x01, 0x60, 0, 0x55, 0x00]"

definition sample_trie :: "address \<rightharpoonup> account" where
  "sample_trie =
     [5 \<mapsto> \<lparr>ac_nonce = 0, ac_balance = 100000, ac_storage = (\<lambda>_. 0), ac_code = []\<rparr>,
      7 \<mapsto> \<lparr>ac_nonce = 0, ac_balance = 0, ac_storage = (\<lambda>_. 0), ac_code = sample_code\<rparr>]"

definition sample_db :: statedb where
  "sample_db = state_New 0 sample_trie"

definition sample_world :: world where
  "sample_world = \<lparr>w_db = sample_db, w_dests = Map.empty\<rparr>"

definition sample_env :: vm_env where
  "sample_env =
     \<lparr>env_crypto = sample_crypto, env_Origin = 5, env_BlockNumber = 1, env_GetHash = (\<lambda>_. 0),
      env_Coinbase = 9, env_Time = 0, env_Difficulty = 131072, env_GasLimit = 5000000, env_Depth = 0,
      env_Call = (\<lambda>depth w caller addr input gas price val. None),
      env_CallCode = (\<lambda>depth w caller addr input gas price val. None),
      env_Create = (\<lambda>depth w caller code gas price val. None)\<rparr>"






lemma sample_env_simps [simp]: "env_crypto sample_env = sample_crypto" "w_db sample_world = sample_db"
  by (simp_all add: sample_env_def sample_world_def)

section \<open>Applications\<close>

theorem ecrecover_result_witness:
  "ecrecoverFunc sample_crypto (replicate 32 0 @ (5 # replicate 30 0 @ [27]) @ (replicate 31 0 @ [1]) @ (replicate 31 0 @ [1])) =
     Some (replicate 12 0 @ replicate 19 0 @ [1])"
  using ecrecover_result [OF sample_crypto_ok, of "replicate 32 0" "5 # replicate 30 0 @ [27]" "replicate 31 0 @ [1]" "replicate 31 0 @ [1]"]
  by (simp add: ValidateSignatureValues_def BytesToBig_def big_SetBytes_def be_nat_append secp256k1n_def Ecrecover_def
      sample_crypto_def Sha3_def sample_keccak_def)







end
