(* ===== verification/Transaction.thy ===== *)
theory Transaction
  imports Crypto Rlp_Facts
begin

text \<open>
  Transactions, \<^verbatim>\<open>src/core/types/transaction.go\<close>: construction, hashing, signatures, the recovery
  of the sender and the orders used for sorting. The caches of a transaction (hash, size, sender)
  hold what the methods compute and are left out.
\<close>

section \<open>Transactions\<close>

record txdata =
  AccountNonce :: uint64
  tx_Price :: int
  tx_GasLimit :: int
  Recipient :: "address option"
  Amount :: int
  Payload :: bytes
  tx_V :: byte
  tx_R :: int
  tx_S :: int

definition NewContractCreation :: "uint64 \<Rightarrow> int \<Rightarrow> int \<Rightarrow> int \<Rightarrow> bytes \<Rightarrow> txdata" where
  "NewContractCreation nonce amount gasLimit gasPrice data =
     \<lparr>AccountNonce = nonce, tx_Price = gasPrice, tx_GasLimit = gasLimit, Recipient = None,
      Amount = amount, Payload = data, tx_V = 0, tx_R = 0, tx_S = 0\<rparr>"

text \<open>The numbers may be nil pointers here, which stand for zero.\<close>

definition NewTransaction :: "uint64 \<Rightarrow> address \<Rightarrow> int option \<Rightarrow> int option \<Rightarrow> int option \<Rightarrow> bytes \<Rightarrow> txdata" where
  "NewTransaction nonce to amount gasLimit gasPrice data =
     (let set = (\<lambda>x. case x of None \<Rightarrow> 0 | Some v \<Rightarrow> v) in
      \<lparr>AccountNonce = nonce, tx_Price = set gasPrice, tx_GasLimit = set gasLimit, Recipient = Some to,
       Amount = set amount, Payload = data, tx_V = 0, tx_R = 0, tx_S = 0\<rparr>)"

definition Cost :: "txdata \<Rightarrow> int" where
  "Cost tx = tx_Price tx * tx_GasLimit tx + Amount tx"

section \<open>Encoding and hashes\<close>

definition recipient_val :: "address option \<Rightarrow> rlp_val" where
  "recipient_val to = (case to of None \<Rightarrow> VNilByteArray | Some a \<Rightarrow> VByteArray (Address_Bytes a))"

definition tx_EncodeRLP :: "txdata \<Rightarrow> rlp_val" where
  "tx_EncodeRLP tx =
     VList [VUint (AccountNonce tx), VBig (Some (tx_Price tx)), VBig (Some (tx_GasLimit tx)),
            recipient_val (Recipient tx), VBig (Some (Amount tx)), VBytes (Payload tx),
            VUint (ucast (tx_V tx)), VBig (Some (tx_R tx)), VBig (Some (tx_S tx))]"

text \<open>The hash of a value; where the encoder fails, nothing has been written to the hash state.\<close>

definition rlpHash :: "crypto \<Rightarrow> rlp_val \<Rightarrow> hash" where
  "rlpHash cr x =
     (case EncodeToBytes x of Inr dat \<Rightarrow> Sha3Hash cr dat | Inl err \<Rightarrow> Sha3Hash cr [])"

definition tx_Hash :: "crypto \<Rightarrow> txdata \<Rightarrow> hash" where
  "tx_Hash cr tx = rlpHash cr (tx_EncodeRLP tx)"

definition tx_SigVal :: "txdata \<Rightarrow> rlp_val" where
  "tx_SigVal tx =
     VList [VUint (AccountNonce tx), VBig (Some (tx_Price tx)), VBig (Some (tx_GasLimit tx)),
            recipient_val (Recipient tx), VBig (Some (Amount tx)), VBytes (Payload tx)]"

definition SigHash :: "crypto \<Rightarrow> txdata \<Rightarrow> hash" where
  "SigHash cr tx = rlpHash cr (tx_SigVal tx)"

section \<open>Signatures\<close>

datatype sig_error = ErrInvalidSig | ErrRecover | ErrInvalidPublicKey

text \<open>
  \<open>publicKey\<close>: \<open>None\<close> is the panic of the slice expressions on a signature value of more than 32
  bytes.
\<close>

definition put_right :: "bytes \<Rightarrow> nat \<Rightarrow> bytes \<Rightarrow> bytes option" where
  "put_right sig hi b = (if length b > hi then None else overwrite sig (hi - length b) hi b)"

definition publicKey :: "crypto \<Rightarrow> txdata \<Rightarrow> (sig_error + bytes) option" where
  "publicKey cr tx =
     (if \<not> ValidateSignatureValues (tx_V tx) (tx_R tx) (tx_S tx) then Some (Inl ErrInvalidSig)
      else
        let r = big_Bytes (tx_R tx); s = big_Bytes (tx_S tx) in
        do { sig \<leftarrow> put_right (replicate 65 0) 32 r;
             sig \<leftarrow> put_right sig 64 s;
             let sig = sig[64 := tx_V tx - 27] in
             case Ecrecover cr (Hash_Bytes (SigHash cr tx)) sig of
               None \<Rightarrow> Some (Inl ErrRecover)
             | Some pub \<Rightarrow>
                 if length pub = 0 \<or> pub ! 0 \<noteq> 4 then Some (Inl ErrInvalidPublicKey)
                 else Some (Inr pub) })"

text \<open>
  \<open>From\<close>. The 20 bytes that \<open>copy\<close> moves into the zero address are the tail of the digest.
\<close>

definition tx_From :: "crypto \<Rightarrow> txdata \<Rightarrow> (sig_error + address) option" where
  "tx_From cr tx =
     do { r \<leftarrow> publicKey cr tx;
          case r of
            Inl err \<Rightarrow> Some (Inl err)
          | Inr pubkey \<Rightarrow>
              do { tail \<leftarrow> slice (Sha3 cr (drop 1 pubkey)) 12 (length (Sha3 cr (drop 1 pubkey)));
                   Some (Inr (BytesToAddress (copy_into (replicate 20 0) tail))) } }"

definition WithSignature :: "txdata \<Rightarrow> bytes \<Rightarrow> txdata option" where
  "WithSignature tx sig =
     (if length sig \<noteq> 65 then None
      else Some (tx\<lparr>tx_R := big_SetBytes (take 32 sig), tx_S := big_SetBytes (take 32 (drop 32 sig)),
                    tx_V := sig ! 64 + 27\<rparr>))"

text \<open>The signing function of the curve, with a key, is a parameter.\<close>

definition SignECDSA :: "crypto \<Rightarrow> (bytes \<Rightarrow> 'err + bytes) \<Rightarrow> txdata \<Rightarrow> ('err + txdata) option" where
  "SignECDSA cr sign tx =
     (case sign (Hash_Bytes (SigHash cr tx)) of
        Inl err \<Rightarrow> Some (Inl err)
      | Inr sig \<Rightarrow> map_option Inr (WithSignature tx sig))"

section \<open>Lists of transactions\<close>

definition Transactions_GetRlp :: "txdata list \<Rightarrow> nat \<Rightarrow> bytes option" where
  "Transactions_GetRlp s i =
     map_option (\<lambda>tx. case EncodeToBytes (tx_EncodeRLP tx) of Inr enc \<Rightarrow> enc | Inl err \<Rightarrow> []) (index s i)"

definition TxDifference :: "crypto \<Rightarrow> txdata list \<Rightarrow> txdata list \<Rightarrow> txdata list" where
  "TxDifference cr a b =
     (let remove = fold (\<lambda>tx s. insert (tx_Hash cr tx) s) b {} in
      fold (\<lambda>tx keep. if tx_Hash cr tx \<notin> remove then keep @ [tx] else keep) a [])"

definition TxByNonce_Less :: "txdata \<Rightarrow> txdata \<Rightarrow> bool" where
  "TxByNonce_Less a b = (AccountNonce a < AccountNonce b)"

definition TxByPrice_Less :: "txdata \<Rightarrow> txdata \<Rightarrow> bool" where
  "TxByPrice_Less a b = (tx_Price a > tx_Price b)"

text \<open>The sender that the sorting uses: the zero address where the recovery fails.\<close>

definition tx_sender :: "crypto \<Rightarrow> txdata \<Rightarrow> address option" where
  "tx_sender cr tx = map_option (\<lambda>r. case r of Inl err \<Rightarrow> 0 | Inr a \<Rightarrow> a) (tx_From cr tx)"

definition TxByPriceAndNonce_Less :: "crypto \<Rightarrow> txdata \<Rightarrow> txdata \<Rightarrow> bool option" where
  "TxByPriceAndNonce_Less cr a b =
     do { ifrom \<leftarrow> tx_sender cr a;
          jfrom \<leftarrow> tx_sender cr b;
          Some (if ifrom = jfrom then AccountNonce a < AccountNonce b else tx_Price a > tx_Price b) }"

section \<open>Sender recovery\<close>

lemma put_right_eq:
  assumes "length b \<le> hi" "hi \<le> length sig"
  shows "put_right sig hi b = Some (take (hi - length b) sig @ b @ drop hi sig)"
  using assms by (simp add: put_right_def overwrite_def slice_def copy_into_def)

lemma signature_bytes:
  assumes "ValidateSignatureValues v r s"
  shows "length (big_Bytes r) \<le> 32" "length (big_Bytes s) \<le> 32" "0 < r" "0 < s"
proof -
  have "secp256k1n \<le> 256 ^ 32" by (simp add: secp256k1n_def)
  moreover have "1 \<le> r" "1 \<le> s" "r < secp256k1n" "s < secp256k1n"
    using assms by (auto simp: ValidateSignatureValues_def split: if_splits)
  ultimately show "length (big_Bytes r) \<le> 32" "length (big_Bytes s) \<le> 32" "0 < r" "0 < s"
    by (auto intro!: length_big_Bytes)
qed

text \<open>The signature that the recovery gets: both values in 32 bytes, then the recovery id.\<close>

definition sig_bytes :: "txdata \<Rightarrow> bytes" where
  "sig_bytes tx = BigToBytes (tx_R tx) 256 @ BigToBytes (tx_S tx) 256 @ [tx_V tx - 27]"

lemma BigToBytes_right:
  assumes "length (big_Bytes x) \<le> 32"
  shows "BigToBytes x 256 = replicate (32 - length (big_Bytes x)) 0 @ big_Bytes x"
  using assms by (simp add: BigToBytes_def)

lemma publicKey_eq:
  "publicKey cr tx = Some (if \<not> ValidateSignatureValues (tx_V tx) (tx_R tx) (tx_S tx) then Inl ErrInvalidSig
     else case Ecrecover cr (Hash_Bytes (SigHash cr tx)) (sig_bytes tx) of None \<Rightarrow> Inl ErrRecover
       | Some pub \<Rightarrow> if length pub = 0 \<or> pub ! 0 \<noteq> 4 then Inl ErrInvalidPublicKey else Inr pub)"
proof (cases "ValidateSignatureValues (tx_V tx) (tx_R tx) (tx_S tx)")
  case True
  let ?r = "big_Bytes (tx_R tx)" and ?s = "big_Bytes (tx_S tx)"
  note len = signature_bytes(1,2) [OF True]
  let ?sig1 = "replicate (32 - length ?r) 0 @ ?r @ replicate 33 (0::byte)"
  have 1: "put_right (replicate 65 0) 32 ?r = Some ?sig1"
    using len(1) by (simp add: put_right_eq min_def)
  have 2: "put_right ?sig1 64 ?s =
      Some (replicate (32 - length ?r) 0 @ ?r @ replicate (32 - length ?s) 0 @ ?s @ [0])"
    using len by (auto simp: put_right_eq min_def)
  have "(replicate (32 - length ?r) 0 @ ?r @ replicate (32 - length ?s) 0 @ ?s @ [0])[64 := v] =
      replicate (32 - length ?r) 0 @ ?r @ replicate (32 - length ?s) 0 @ ?s @ [v]" for v :: byte
    using len by (auto simp: list_update_append)
  then show ?thesis
    using True len 1 2
    by (simp add: publicKey_def Let_def sig_bytes_def BigToBytes_right split: option.split)
qed (simp add: publicKey_def)

lemma tx_From_eq:
  assumes "crypto_ok cr"
  shows "tx_From cr tx = map_option (map_sum id (\<lambda>pub. BytesToAddress (drop 12 (Sha3 cr (drop 1 pub))))) (publicKey cr tx)"
proof -
  have "length (Sha3 cr x) = 32" for x using assms by (simp add: crypto_ok_def Sha3_def)
  then show ?thesis
    by (simp add: tx_From_def publicKey_eq slice_def copy_into_def split: option.split)
qed

lemma big_Bytes_inject: "0 \<le> x \<Longrightarrow> 0 \<le> y \<Longrightarrow> big_Bytes x = big_Bytes y \<Longrightarrow> x = y"
  by (metis be_nat_Bytes abs_of_nonneg nat_eq_iff2)

text \<open>The strings that a transaction is encoded as, in order.\<close>

definition recipient_bytes :: "address option \<Rightarrow> bytes" where
  "recipient_bytes to = (case to of None \<Rightarrow> [] | Some a \<Rightarrow> Address_Bytes a)"

definition tx_strings :: "txdata \<Rightarrow> bytes list" where
  "tx_strings tx =
     [big_Bytes (uint (AccountNonce tx)), big_Bytes (tx_Price tx), big_Bytes (tx_GasLimit tx),
      recipient_bytes (Recipient tx), big_Bytes (Amount tx), Payload tx,
      big_Bytes (uint (ucast (tx_V tx) :: uint64)), big_Bytes (tx_R tx), big_Bytes (tx_S tx)]"

lemma rlp_strings_inject:
  assumes "concat (map rlp_string as) = concat (map rlp_string bs)" "length as = length bs"
    and "length (concat (map rlp_string as)) + 9 < 2 ^ 64"
  shows "as = bs"
  using assms(2,1,3)
proof (induction as bs rule: list_induct2)
  case (Cons a as b bs)
  then have "a = b \<and> concat (map rlp_string as) = concat (map rlp_string bs)"
    by (intro rlp_string_inject) simp_all
  then show ?case using Cons by simp
qed simp

lemma rlp_recipient: "rlp (recipient_val to) = rlp_string (recipient_bytes to)"
  by (simp add: recipient_val_def recipient_bytes_def rlp_string_def rlp_header_def split: option.split)

lemma rlp_tx: "rlp (tx_EncodeRLP tx) = rlp_list (concat (map rlp_string (tx_strings tx)))"
  by (simp add: tx_EncodeRLP_def tx_strings_def rlp_recipient)

definition tx_numbers_ok :: "txdata \<Rightarrow> bool" where
  "tx_numbers_ok tx \<longleftrightarrow>
     0 \<le> tx_Price tx \<and> 0 \<le> tx_GasLimit tx \<and> 0 \<le> Amount tx \<and> 0 \<le> tx_R tx \<and> 0 \<le> tx_S tx"

lemma recipient_bytes_inject:
  assumes "recipient_bytes a = recipient_bytes b"
  shows "a = b"
proof -
  have [simp]: "Address_Bytes x \<noteq> []" "[] \<noteq> Address_Bytes x" for x
    using length_Address_Bytes [of x] by force+
  show ?thesis
    using assms by (auto simp: recipient_bytes_def BytesToAddress_Address_Bytes
        dest: arg_cong [of _ _ BytesToAddress] split: option.splits)
qed

lemma tx_strings_inject:
  assumes "tx_strings a = tx_strings b" "tx_numbers_ok a" "tx_numbers_ok b"
  shows "a = b"
proof -
  have "uint (AccountNonce a) = uint (AccountNonce b)" "tx_Price a = tx_Price b" "tx_GasLimit a = tx_GasLimit b"
    "Amount a = Amount b" "uint (ucast (tx_V a) :: uint64) = uint (ucast (tx_V b) :: uint64)" "tx_R a = tx_R b" "tx_S a = tx_S b"
    using assms by (auto simp: tx_strings_def tx_numbers_ok_def intro!: big_Bytes_inject)
  moreover from this have "tx_V a = tx_V b" by (simp add: uint_up_ucast is_up word_uint_eq_iff)
  ultimately show ?thesis
    using assms(1) recipient_bytes_inject [of "Recipient a" "Recipient b"]
    by (cases a; cases b) (simp add: tx_strings_def word_uint_eq_iff)
qed

lemma EncodeToBytes_rlp: "encodable v \<Longrightarrow> length (rlp v) + 9 < 2 ^ 64 \<Longrightarrow> EncodeToBytes v = Inr (rlp v)"
  by (subst EncodeToBytes_eq) auto

lemma encodable_tx: "tx_numbers_ok tx \<Longrightarrow> encodable (tx_EncodeRLP tx)"
  by (simp add: tx_EncodeRLP_def tx_numbers_ok_def recipient_val_def split: option.split)

text \<open>No two transactions have the same encoding.\<close>

lemma tx_rlp_inject:
  assumes "tx_numbers_ok a" "tx_numbers_ok b" "length (rlp (tx_EncodeRLP a)) + 9 < 2 ^ 64"
    and "rlp (tx_EncodeRLP a) = rlp (tx_EncodeRLP b)"
  shows "a = b"
proof -
  have eq: "rlp_list (concat (map rlp_string (tx_strings a))) @ [] =
      rlp_list (concat (map rlp_string (tx_strings b))) @ []" using assms(4) unfolding rlp_tx append_Nil2 .
  have "concat (map rlp_string (tx_strings a)) = concat (map rlp_string (tx_strings b))"
    using rlp_list_inject [OF eq] assms(3) unfolding rlp_tx append_Nil2 by blast
  moreover have len: "length (concat (map rlp_string (tx_strings a))) + 9 < 2 ^ 64"
    using assms(3) length_rlp_list [of "concat (map rlp_string (tx_strings a))"] unfolding rlp_tx by linarith
  moreover have "length (tx_strings a) = length (tx_strings b)" by (simp add: tx_strings_def)
  ultimately have "tx_strings a = tx_strings b" using rlp_strings_inject by blast
  then show ?thesis using assms(1,2) by (rule tx_strings_inject)
qed

section \<open>Properties\<close>

text \<open>
  C19. A transaction signed by \<open>SignECDSA\<close> recovers to the address of the key that signed it, where
  the curve library recovers that key from its own signatures: the hash that is signed does not
  depend on the signature, and the two values of the signature are put back into 32 bytes each,
  leading zeros included, however short the numbers are.
\<close>

theorem sign_recover:
  assumes "crypto_ok cr" "sign (Hash_Bytes (SigHash cr tx)) = Inr sig"
    and "length sig = 65" "sig ! 64 \<in> {0, 1}"
    and "0 < be_nat (take 32 sig)" "int (be_nat (take 32 sig)) < secp256k1n"
    and "0 < be_nat (take 32 (drop 32 sig))" "int (be_nat (take 32 (drop 32 sig))) < secp256k1n"
    and "RecoverPubkey cr (Hash_Bytes (SigHash cr tx)) sig = Some pub" "pub ! 0 = 4"
  shows "\<exists>tx'. SignECDSA cr sign tx = Some (Inr tx') \<and> SigHash cr tx' = SigHash cr tx \<and>
    tx_From cr tx' = Some (Inr (BytesToAddress (drop 12 (Sha3 cr (drop 1 pub)))))"
proof -
  let ?tx = "tx\<lparr>tx_R := big_SetBytes (take 32 sig), tx_S := big_SetBytes (take 32 (drop 32 sig)), tx_V := sig ! 64 + 27\<rparr>"
  have hash: "SigHash cr ?tx = SigHash cr tx" by (simp add: SigHash_def tx_SigVal_def)
  have valid: "ValidateSignatureValues (tx_V ?tx) (tx_R ?tx) (tx_S ?tx)"
    using assms(4-8) by (auto simp: ValidateSignatureValues_def big_SetBytes_def)
  have split: "sig = take 32 sig @ take 32 (drop 32 sig) @ [sig ! 64]"
  proof -
    have "drop 64 sig = [sig ! 64]" using assms(3) by (simp add: Cons_nth_drop_Suc [symmetric])
    then show ?thesis by (metis add.commute append_take_drop_id drop_drop numeral_Bit0)
  qed
  have pad: "BigToBytes (big_SetBytes b) 256 = b" if "length b = 32" for b
  proof (rule be_nat_inject)
    have "int (be_nat b) < 2 ^ 256" using be_nat_bound [of b] that by simp
    then show "length (BigToBytes (big_SetBytes b) 256) = length b"
      using BigToBytes_256(1) [of "big_SetBytes b"] that by (simp add: big_SetBytes_def)
    show "be_nat (BigToBytes (big_SetBytes b) 256) = be_nat b"
      using BigToBytes_256(2) [of "big_SetBytes b"] \<open>int (be_nat b) < 2 ^ 256\<close> by (simp add: big_SetBytes_def)
  qed
  have "sig_bytes ?tx = sig"
    using assms(3) pad [of "take 32 sig"] pad [of "take 32 (drop 32 sig)"] split by (simp add: sig_bytes_def)
  moreover have "length pub \<noteq> 0" using assms(1,9) unfolding crypto_ok_def by fastforce
  ultimately have "publicKey cr ?tx = Some (Inr pub)"
    using valid assms(9,10) by (simp add: publicKey_eq hash Ecrecover_def)
  then have "tx_From cr ?tx = Some (Inr (BytesToAddress (drop 12 (Sha3 cr (drop 1 pub)))))"
    using assms(1) by (simp add: tx_From_eq)
  moreover have "SignECDSA cr sign tx = Some (Inr ?tx)"
    using assms(2,3) by (simp add: SignECDSA_def WithSignature_def)
  ultimately show ?thesis using hash by blast
qed

text \<open>
  C20. The hash identifies the transaction, signature included, as long as the digest has no
  collision on the two encodings: no two transactions have the same encoding.
\<close>

theorem tx_hash_identifies:
  assumes "tx_numbers_ok a" "tx_numbers_ok b"
    and "length (rlp (tx_EncodeRLP a)) + 9 < 2 ^ 64" "length (rlp (tx_EncodeRLP b)) + 9 < 2 ^ 64"
    and "inj_on (Sha3Hash cr) {rlp (tx_EncodeRLP a), rlp (tx_EncodeRLP b)}"
  shows "tx_Hash cr a = tx_Hash cr b \<longleftrightarrow> a = b"
proof
  assume eq: "tx_Hash cr a = tx_Hash cr b"
  have "EncodeToBytes (tx_EncodeRLP a) = Inr (rlp (tx_EncodeRLP a))"
    "EncodeToBytes (tx_EncodeRLP b) = Inr (rlp (tx_EncodeRLP b))"
    using encodable_tx assms(1-4) by (blast intro: EncodeToBytes_rlp)+
  then have "Sha3Hash cr (rlp (tx_EncodeRLP a)) = Sha3Hash cr (rlp (tx_EncodeRLP b))"
    using eq unfolding tx_Hash_def rlpHash_def by (simp only: sum.case)
  then have "rlp (tx_EncodeRLP a) = rlp (tx_EncodeRLP b)" using assms(5) unfolding inj_on_def by blast
  then show "a = b" using tx_rlp_inject [OF assms(1-3)] by blast
qed simp

end
