(* ===== verification/Bloom.thy ===== *)
theory Bloom
  imports Crypto State_Object
begin

unbundle bit_operations_syntax

text \<open>
  Log bloom filters, \<^verbatim>\<open>src/core/types/bloom9.go\<close>, and receipts, \<^verbatim>\<open>src/core/types/receipt.go\<close>.
  A \<open>Bloom\<close> is an array of 256 bytes, here a list; big integers are \<open>int\<close>, on which the bit
  operations act as on two's complement.
\<close>

section \<open>Receipts\<close>

type_synonym bloom = bytes

record receipt =
  PostState :: bytes
  CumulativeGasUsed :: int
  rc_Bloom :: bloom
  rc_Logs :: "vmlog list"
  rc_TxHash :: hash
  ContractAddress :: address
  rc_GasUsed :: int

definition NewReceipt :: "bytes \<Rightarrow> int \<Rightarrow> receipt" where
  "NewReceipt root cumulativeGasUsed =
     \<lparr>PostState = root, CumulativeGasUsed = cumulativeGasUsed, rc_Bloom = replicate 256 0, rc_Logs = [],
      rc_TxHash = 0, ContractAddress = 0, rc_GasUsed = 0\<rparr>"

definition Log_EncodeRLP :: "vmlog \<Rightarrow> rlp_val" where
  "Log_EncodeRLP l =
     VList [VByteArray (Address_Bytes (lg_address l)), VList (map (\<lambda>t. VByteArray (Hash_Bytes t)) (lg_topics l)),
            VBytes (lg_data l)]"

definition Receipt_EncodeRLP :: "receipt \<Rightarrow> rlp_val" where
  "Receipt_EncodeRLP r =
     VList [VBytes (PostState r), VBig (Some (CumulativeGasUsed r)), VByteArray (rc_Bloom r),
            VList (map Log_EncodeRLP (rc_Logs r))]"

text \<open>\<open>LogForStorage\<close> has no encoding method of its own: all public fields of the struct are written.\<close>

definition LogForStorage_val :: "vmlog \<Rightarrow> rlp_val" where
  "LogForStorage_val l =
     VList [VByteArray (Address_Bytes (lg_address l)), VList (map (\<lambda>t. VByteArray (Hash_Bytes t)) (lg_topics l)),
            VBytes (lg_data l), VUint (lg_blockNumber l), VByteArray (Hash_Bytes (lg_txHash l)), VUint (lg_txIndex l),
            VByteArray (Hash_Bytes (lg_blockHash l)), VUint (lg_index l)]"

definition ReceiptForStorage_EncodeRLP :: "receipt \<Rightarrow> rlp_val" where
  "ReceiptForStorage_EncodeRLP r =
     VList [VBytes (PostState r), VBig (Some (CumulativeGasUsed r)), VByteArray (rc_Bloom r),
            VByteArray (Hash_Bytes (rc_TxHash r)), VByteArray (Address_Bytes (ContractAddress r)),
            VList (map LogForStorage_val (rc_Logs r)), VBig (Some (rc_GasUsed r))]"

text \<open>\<open>GetRlp\<close> of a list of receipts: \<open>None\<close> is the panic on an encoding error or a wrong index.\<close>

definition Receipts_GetRlp :: "receipt list \<Rightarrow> nat \<Rightarrow> bytes option" where
  "Receipts_GetRlp rs i =
     do { r \<leftarrow> index rs i;
          case EncodeToBytes (Receipt_EncodeRLP r) of Inl err \<Rightarrow> None | Inr b \<Rightarrow> Some b }"

section \<open>Bloom filters\<close>

definition Bloom_SetBytes :: "bloom \<Rightarrow> bytes \<Rightarrow> bloom option" where
  "Bloom_SetBytes b d =
     (if length b < length d then None else overwrite b (256 - length d) (length b) d)"

definition BytesToBloom :: "bytes \<Rightarrow> bloom option" where
  "BytesToBloom b = Bloom_SetBytes (replicate 256 0) b"

text \<open>The three bits of an entry: pairs of bytes of its digest, modulo 2048.\<close>

definition bloom9_bit :: "bytes \<Rightarrow> nat \<Rightarrow> nat" where
  "bloom9_bit b i = unat ((ucast (b ! (i + 1)) + push_bit 8 (ucast (b ! i)) :: uint64) AND 2047)"

definition bloom9 :: "crypto \<Rightarrow> bytes \<Rightarrow> int" where
  "bloom9 cr b =
     (let b = Sha3 cr b in fold (\<lambda>i r. r OR push_bit (bloom9_bit b i) 1) [0, 2, 4] 0)"

definition Bloom_Big :: "bloom \<Rightarrow> int" where
  "Bloom_Big b = big_SetBytes b"

definition Bloom_Add :: "crypto \<Rightarrow> bloom \<Rightarrow> int \<Rightarrow> bloom option" where
  "Bloom_Add cr b d =
     (let bin = big_SetBytes b;
          bin = bin OR bloom9 cr (big_Bytes d) in
      Bloom_SetBytes b (big_Bytes bin))"

definition LogsBloom :: "crypto \<Rightarrow> vmlog list \<Rightarrow> int" where
  "LogsBloom cr logs =
     fold (\<lambda>log bin.
        let bin = bin OR bloom9 cr (Address_Bytes (lg_address log)) in
        fold (\<lambda>b bin. bin OR bloom9 cr (Hash_Bytes b)) (lg_topics log) bin) logs 0"

definition CreateBloom :: "crypto \<Rightarrow> receipt list \<Rightarrow> bloom option" where
  "CreateBloom cr receipts =
     BytesToBloom (big_Bytes (fold (\<lambda>receipt bin. bin OR LogsBloom cr (rc_Logs receipt)) receipts 0))"

definition BloomLookup :: "crypto \<Rightarrow> bloom \<Rightarrow> bytes \<Rightarrow> bool" where
  "BloomLookup cr bin topic =
     (let bloom = Bloom_Big bin; cmp = bloom9 cr topic in bloom AND cmp = cmp)"

definition Bloom_Test :: "crypto \<Rightarrow> bloom \<Rightarrow> int \<Rightarrow> bool" where
  "Bloom_Test cr b test = BloomLookup cr b (big_Bytes test)"

definition Bloom_TestBytes :: "crypto \<Rightarrow> bloom \<Rightarrow> bytes \<Rightarrow> bool" where
  "Bloom_TestBytes cr b test = Bloom_Test cr b (BytesToBig test)"

section \<open>Bits\<close>

text \<open>
  The entries that a list of logs adds to the filter, and the filter as the set of its bits.
\<close>

definition log_entries :: "vmlog \<Rightarrow> bytes set" where
  "log_entries l = insert (Address_Bytes (lg_address l)) (Hash_Bytes ` set (lg_topics l))"

definition entry_bits :: "crypto \<Rightarrow> bytes \<Rightarrow> nat set" where
  "entry_bits cr e = bloom9_bit (Sha3 cr e) ` {0, 2, 4}"

definition filter_of :: "int \<Rightarrow> nat set \<Rightarrow> bool" where
  "filter_of bin s \<longleftrightarrow> 0 \<le> bin \<and> (\<forall>n. bit bin n \<longleftrightarrow> n \<in> s) \<and> s \<subseteq> {..<2048}"

lemma bloom9_bit_less: "bloom9_bit b i < 2048"
proof -
  have "(x AND 2047) < (2048 :: uint64)" for x
    using word_and_le1 [of x 2047] by (rule order.strict_trans1) simp
  then have "unat (x AND 2047 :: uint64) < unat (2048 :: uint64)" for x by (simp add: word_less_nat_alt)
  then show ?thesis by (simp add: bloom9_bit_def)
qed

lemma filter_of_0: "filter_of 0 {}"
  by (simp add: filter_of_def)

lemma filter_of_or: "filter_of a s \<Longrightarrow> filter_of b t \<Longrightarrow> filter_of (a OR b) (s \<union> t)"
  by (auto simp: filter_of_def bit_or_iff or_nonnegative_int_iff)

lemma filter_of_bit: "n < 2048 \<Longrightarrow> filter_of (push_bit n 1) {n}"
  by (auto simp: filter_of_def bit_exp_iff)

lemma filter_of_bloom9: "filter_of (bloom9 cr e) (entry_bits cr e)"
proof -
  have "filter_of (((0 OR push_bit (f 0) 1) OR push_bit (f 2) 1) OR push_bit (f 4) 1) ((({} \<union> {f 0}) \<union> {f 2}) \<union> {f 4})"
    if "\<And>i. f i < 2048" for f :: "nat \<Rightarrow> nat"
    using that by (intro filter_of_or filter_of_0 filter_of_bit)
  from this [of "bloom9_bit (Sha3 cr e)"] show ?thesis
    using bloom9_bit_less by (simp add: bloom9_def entry_bits_def insert_commute Let_def)
qed

lemma filter_of_fold:
  assumes "filter_of bin s" "\<And>x. filter_of (f x) (g x)"
  shows "filter_of (fold (\<lambda>x bin. bin OR f x) xs bin) (s \<union> (\<Union>x\<in>set xs. g x))"
  using assms(1)
proof (induction xs arbitrary: bin s)
  case (Cons x xs)
  then have "filter_of (fold (\<lambda>x bin. bin OR f x) xs (bin OR f x)) ((s \<union> g x) \<union> (\<Union>x\<in>set xs. g x))"
    using filter_of_or [OF _ assms(2)] by blast
  then show ?case by (simp add: Un_assoc)
qed simp

lemma filter_of_log:
  assumes "filter_of bin s"
  shows "filter_of (fold (\<lambda>b bin. bin OR bloom9 cr (Hash_Bytes b)) (lg_topics log)
           (bin OR bloom9 cr (Address_Bytes (lg_address log)))) (s \<union> (\<Union>e\<in>log_entries log. entry_bits cr e))"
proof -
  have "filter_of (fold (\<lambda>b bin. bin OR bloom9 cr (Hash_Bytes b)) (lg_topics log)
          (bin OR bloom9 cr (Address_Bytes (lg_address log))))
        ((s \<union> entry_bits cr (Address_Bytes (lg_address log))) \<union> (\<Union>t\<in>set (lg_topics log). entry_bits cr (Hash_Bytes t)))"
    by (rule filter_of_fold) (use assms in \<open>auto intro: filter_of_or filter_of_bloom9\<close>)
  then show ?thesis by (simp add: log_entries_def Un_assoc)
qed

definition logs_bits :: "crypto \<Rightarrow> vmlog list \<Rightarrow> nat set" where
  "logs_bits cr logs = (\<Union>l\<in>set logs. \<Union>e\<in>log_entries l. entry_bits cr e)"

lemma filter_of_logs: "filter_of (LogsBloom cr logs) (logs_bits cr logs)"
proof -
  have "filter_of (fold (\<lambda>log bin. let bin = bin OR bloom9 cr (Address_Bytes (lg_address log)) in
      fold (\<lambda>b bin. bin OR bloom9 cr (Hash_Bytes b)) (lg_topics log) bin) logs bin) (s \<union> logs_bits cr logs)"
    if "filter_of bin s" for bin s
    using that
  proof (induction logs arbitrary: bin s)
    case (Cons l logs)
    from Cons.IH [OF filter_of_log [OF Cons.prems, of cr l]] show ?case
      by (simp add: logs_bits_def Let_def Un_assoc)
  qed (simp add: logs_bits_def)
  from this [OF filter_of_0] show ?thesis by (simp add: LogsBloom_def)
qed

lemma filter_of_bound: "filter_of bin s \<Longrightarrow> bin < 2 ^ 2048"
proof -
  assume f: "filter_of bin s"
  then have "take_bit 2048 bin = bin"
    by (intro bit_eqI) (auto simp: bit_take_bit_iff filter_of_def)
  then show ?thesis by (metis take_bit_int_less_exp)
qed

lemma BytesToBloom_filter:
  assumes "filter_of bin s"
  shows "\<exists>b. BytesToBloom (big_Bytes bin) = Some b \<and> length b = 256 \<and> Bloom_Big b = bin"
proof -
  have nn: "0 \<le> bin" and "bin < 256 ^ 256" using assms filter_of_bound [OF assms] by (auto simp: filter_of_def)
  then have len: "length (big_Bytes bin) \<le> 256" by (intro length_big_Bytes) simp
  let ?b = "replicate (256 - length (big_Bytes bin)) 0 @ big_Bytes bin"
  have "BytesToBloom (big_Bytes bin) = Some ?b"
    using len by (simp add: BytesToBloom_def Bloom_SetBytes_def overwrite_def slice_def copy_into_def)
  moreover have "Bloom_Big ?b = bin" using nn by (simp add: Bloom_Big_def big_SetBytes_def)
  ultimately show ?thesis using len by simp
qed

lemma lookup_filter:
  assumes "filter_of (Bloom_Big b) s"
  shows "BloomLookup cr b e \<longleftrightarrow> entry_bits cr e \<subseteq> s"
proof -
  have "Bloom_Big b AND bloom9 cr e = bloom9 cr e \<longleftrightarrow> (\<forall>n. bit (bloom9 cr e) n \<longrightarrow> bit (Bloom_Big b) n)"
    by (auto simp: bit_eq_iff bit_and_iff)
  then show ?thesis using assms filter_of_bloom9 [of cr e] by (auto simp: BloomLookup_def filter_of_def)
qed

section \<open>Properties\<close>

text \<open>
  C21. The filter of a list of receipts is always defined and has 256 bytes; its bits are exactly the
  three bits of every address and topic in the logs, so a lookup succeeds exactly where the bits of
  the entry are covered. In particular a lookup never misses an address or a topic that the receipts
  contain.
\<close>

theorem bloom_lookup:
  "\<exists>b. CreateBloom cr receipts = Some b \<and> length b = 256 \<and>
       (\<forall>e. BloomLookup cr b e = (entry_bits cr e \<subseteq> (\<Union>r\<in>set receipts. logs_bits cr (rc_Logs r)))) \<and>
       list_all (\<lambda>r. list_all (\<lambda>l. BloomLookup cr b (Address_Bytes (lg_address l)) \<and>
          list_all (\<lambda>t. BloomLookup cr b (Hash_Bytes t)) (lg_topics l)) (rc_Logs r)) receipts"
proof -
  let ?s = "\<Union>r\<in>set receipts. logs_bits cr (rc_Logs r)"
  let ?bin = "fold (\<lambda>receipt bin. bin OR LogsBloom cr (rc_Logs receipt)) receipts 0"
  have f: "filter_of ?bin ?s"
    using filter_of_fold [OF filter_of_0 filter_of_logs, of "\<lambda>r. cr" rc_Logs receipts] by simp
  then obtain b where b: "BytesToBloom (big_Bytes ?bin) = Some b" "length b = 256" "Bloom_Big b = ?bin"
    using BytesToBloom_filter by blast
  have look: "BloomLookup cr b e \<longleftrightarrow> entry_bits cr e \<subseteq> ?s" for e
    using f b(3) by (intro lookup_filter) simp
  have "entry_bits cr e \<subseteq> ?s" if "r \<in> set receipts" "l \<in> set (rc_Logs r)" "e \<in> log_entries l" for r l e
    using that by (auto simp: logs_bits_def)
  then have "list_all (\<lambda>r. list_all (\<lambda>l. BloomLookup cr b (Address_Bytes (lg_address l)) \<and>
          list_all (\<lambda>t. BloomLookup cr b (Hash_Bytes t)) (lg_topics l)) (rc_Logs r)) receipts"
    unfolding list_all_iff look by (force simp: log_entries_def)
  then show ?thesis using b(1,2) look by (auto simp: CreateBloom_def)
qed

end
