(* ===== verification/Trie_Encoding.thy ===== *)
theory Trie_Encoding
  imports Common
begin

unbundle bit_operations_syntax

text \<open>
  The key encodings of \<^verbatim>\<open>src/trie/encoding.go\<close>. Keys inside the trie are sequences of nibbles, one
  per byte, and end with the terminator 16 where a value follows; the compact encoding packs two
  nibbles into a byte behind a flag nibble for the terminator and for an odd length.
\<close>

section \<open>Encodings\<close>

text \<open>The loop of \<open>compactEncode\<close> over the rest of the hex slice; \<open>hs\<close> flips between 0 and 4.\<close>

fun compactEncode_loop :: "bytes \<Rightarrow> nat \<Rightarrow> byte \<Rightarrow> bytes \<Rightarrow> bytes" where
  "compactEncode_loop buf bi hs [] = buf"
| "compactEncode_loop buf bi hs (x # xs) =
     (if bi < length buf then
        let buf = buf[bi := buf ! bi OR push_bit (unat hs) x];
            bi = (if hs = 0 then bi + 1 else bi) in
        compactEncode_loop buf bi (hs XOR push_bit 2 1) xs
      else buf)"

definition compactEncode :: "bytes \<Rightarrow> bytes option" where
  "compactEncode hexSlice =
     (if hexSlice = [] then None
      else
        let (terminator, hexSlice) =
              (if last hexSlice = 16 then (1 :: byte, butlast hexSlice) else (0, hexSlice));
            odd = word_of_nat (length hexSlice mod 2) :: byte;
            buflen = length hexSlice div 2 + 1;
            (bi, hs) = (if odd = 0 then (1, 4) else (0, 0));
            buf = (replicate buflen 0)[0 := push_bit 5 terminator OR push_bit 4 odd] in
        Some (compactEncode_loop buf bi hs hexSlice))"

definition compactHexDecode :: "bytes \<Rightarrow> bytes" where
  "compactHexDecode str = concat (map (\<lambda>b. [b div 16, b mod 16]) str) @ [16]"

text \<open>\<open>None\<close> is the panic of \<open>base[0]\<close> on an empty string.\<close>

definition compactDecode :: "bytes \<Rightarrow> bytes option" where
  "compactDecode str =
     (let base = butlast (compactHexDecode str) in
      do { b0 \<leftarrow> index base 0;
           let base = (if b0 \<ge> 2 then base @ [16] else base) in
           Some (if b0 mod 2 = 1 then drop 1 base else drop 2 base) })"

definition decodeCompact :: "bytes \<Rightarrow> bytes" where
  "decodeCompact key = map (\<lambda>i. key ! (2 * i) * 16 + key ! (2 * i + 1)) [0..<length key div 2]"

fun prefixLen :: "bytes \<Rightarrow> bytes \<Rightarrow> nat" where
  "prefixLen (x # xs) (y # ys) = (if x \<noteq> y then 0 else Suc (prefixLen xs ys))"
| "prefixLen _ _ = 0"

definition hasTerm :: "bytes \<Rightarrow> bool option" where
  "hasTerm s = (if s = [] then None else Some (last s = 16))"

definition remTerm :: "bytes \<Rightarrow> bytes option" where
  "remTerm s = map_option (\<lambda>t. if t then butlast s else s) (hasTerm s)"

section \<open>Keys\<close>

definition nibs :: "bytes \<Rightarrow> bool" where
  "nibs k \<longleftrightarrow> (\<forall>x\<in>set k. x < 16)"

text \<open>A terminated key, and a key that leads to a branch.\<close>

definition tkey :: "bytes \<Rightarrow> bool" where
  "tkey k \<longleftrightarrow> k \<noteq> [] \<and> last k = 16 \<and> nibs (butlast k)"

lemma nibs_simps [simp]:
  "nibs []" "nibs (x # k) \<longleftrightarrow> x < 16 \<and> nibs k" "nibs (a @ b) \<longleftrightarrow> nibs a \<and> nibs b"
  by (auto simp: nibs_def)

lemma tkey_simps [simp]: "\<not> tkey []" "tkey (k @ [16]) \<longleftrightarrow> nibs k"
  by (simp_all add: tkey_def)

lemma tkey_Cons: "tkey (x # k) \<longleftrightarrow> (if k = [] then x = 16 else x < 16 \<and> tkey k)"
  by (auto simp: tkey_def)

lemma tkey_append: "nibs a \<Longrightarrow> tkey (a @ b) \<longleftrightarrow> tkey b"
proof (induction a)
  case (Cons x a)
  then have "x \<noteq> 16" by auto
  then show ?case using Cons by (cases "a @ b = []") (auto simp: tkey_Cons)
qed simp

lemma tkey_snoc: "tkey k \<Longrightarrow> \<exists>h. k = h @ [16] \<and> nibs h"
  by (metis append_butlast_last_id tkey_def)

lemma tkey_prefix:
  assumes "tkey a" "tkey (a @ b)"
  shows "b = []"
proof (rule ccontr)
  assume "b \<noteq> []"
  obtain h where h: "a = h @ [16]" "nibs h" using tkey_snoc [OF assms(1)] by blast
  then have "butlast (a @ b) = h @ 16 # butlast b" using \<open>b \<noteq> []\<close> by (simp add: butlast_append)
  then have "nibs (h @ 16 # butlast b)" using assms(2) by (simp add: tkey_def del: butlast_append)
  then show False by simp
qed

lemma nibs_no_tkey_prefix: "nibs a \<Longrightarrow> tkey b \<Longrightarrow> \<not> (\<exists>c. a = b @ c)"
  by (auto dest!: tkey_snoc)

lemma prefixLen_take: "take (prefixLen a b) a = take (prefixLen a b) b"
  by (induction a b rule: prefixLen.induct) auto

lemma prefixLen_le: "prefixLen a b \<le> length a" "prefixLen a b \<le> length b"
  by (induction a b rule: prefixLen.induct) auto

lemma prefixLen_split:
  obtains c a' b' where "a = c @ a'" "b = c @ b'" "prefixLen a b = length c"
    "a' = [] \<or> b' = [] \<or> hd a' \<noteq> hd b'"
proof -
  let ?n = "prefixLen a b"
  have "drop ?n a = [] \<or> drop ?n b = [] \<or> hd (drop ?n a) \<noteq> hd (drop ?n b)"
    by (induction a b rule: prefixLen.induct) auto
  moreover have "length (take ?n a) = ?n" using prefixLen_le(1) [of a b] by simp
  moreover have "b = take ?n a @ drop ?n b" using prefixLen_take [of a b] by (metis append_take_drop_id)
  ultimately show ?thesis using that [of "take ?n a" "drop ?n a" "drop ?n b"] by simp
qed

lemma prefixLen_append [simp]: "prefixLen (c @ a) (c @ b) = length c + prefixLen a b"
  by (induction c) auto

lemma prefixLen_Nil [simp]: "prefixLen a [] = 0" "prefixLen [] b = 0"
  by (cases a; simp)+

section \<open>The compact encoding\<close>

text \<open>The encoding in arithmetical terms: pairs of nibbles behind the flag nibble.\<close>

fun pack :: "bytes \<Rightarrow> bytes" where
  "pack (a # b # k) = (a * 16 + b) # pack k"
| "pack _ = []"

lemma nibble_or:
  assumes "x < 16" "y < (16 :: byte)"
  shows "push_bit 4 x OR y = x * 16 + y" "y OR push_bit 4 x = x * 16 + y"
    "unat (x * 16 + y) = unat x * 16 + unat y"
proof -
  have x: "unat x < 16" and y: "unat y < 16" using assms by (simp_all add: word_less_nat_alt)
  have u16: "unat (x * 16) = unat x * 16" using x by (subst unat_mult_lem [THEN iffD1]) simp_all
  then show "unat (x * 16 + y) = unat x * 16 + unat y" using x y by (subst unat_add_lem [THEN iffD1]) simp_all
  have "y = take_bit 4 y" using y by (simp add: word_unat_eq_iff unsigned_take_bit_eq take_bit_nat_eq_self)
  then have "n < 4" if "bit y n" for n using that by (metis bit_take_bit_iff)
  then have "push_bit 4 x AND y = 0"
    by (intro bit_eqI) (fastforce simp: bit_and_iff bit_push_bit_iff)
  then show "push_bit 4 x OR y = x * 16 + y" using disjunctive_add_eq_or [of "push_bit 4 x" y] by (simp add: push_bit_eq_mult)
  then show "y OR push_bit 4 x = x * 16 + y" by (simp add: or.commute)
qed

lemma nibble_div:
  assumes "x < 16" "y < (16 :: byte)"
  shows "(x * 16 + y) div 16 = x" "(x * 16 + y) mod 16 = y"
  using nibble_or(3) [OF assms] assms
  by (simp_all add: word_unat_eq_iff unat_div unat_mod word_less_nat_alt)

lemma compactEncode_loop_pairs:
  assumes "even (length xs)" "nibs xs"
  shows "compactEncode_loop (pre @ replicate (length xs div 2) 0) (length pre) 4 xs = pre @ pack xs"
  using assms
proof (induction xs arbitrary: pre rule: pack.induct)
  case (1 a b k)
  have x4: "(4 :: byte) XOR 4 = 0" "push_bit 2 1 = (4 :: byte)" "(0 :: byte) XOR 4 = 4" by simp_all
  have "compactEncode_loop (pre @ replicate (length (a # b # k) div 2) 0) (length pre) 4 (a # b # k) =
      compactEncode_loop ((pre @ [a * 16 + b]) @ replicate (length k div 2) 0) (length (pre @ [a * 16 + b])) 4 k"
    using 1 nibble_or(1) [of a b] by (simp add: Let_def x4 nth_append list_update_append)
  also have "\<dots> = (pre @ [a * 16 + b]) @ pack k" by (rule "1.IH") (use 1 in simp_all)
  finally show ?case by simp
qed auto

lemma compactEncode_eq:
  assumes "nibs h"
  shows "h \<noteq> [] \<Longrightarrow> compactEncode h = Some (if even (length h) then 0 # pack h else (16 + hd h) # pack (tl h))"
    "compactEncode (h @ [16]) = Some (if even (length h) then 32 # pack h else (48 + hd h) # pack (tl h))"
proof -
  have even: "compactEncode_loop ((replicate (length h div 2 + 1) 0)[0 := t]) 1 4 h = t # pack h"
    if "even (length h)" for t
    using compactEncode_loop_pairs [of h "[t]"] assms that by simp
  have odd: "compactEncode_loop ((replicate (length h div 2 + 1) 0)[0 := t]) 0 0 h = (t OR hd h) # pack (tl h)"
    if o: "odd (length h)" for t
  proof -
    obtain x xs where h: "h = x # xs" using o by (cases h) auto
    have x4: "push_bit 2 1 = (4 :: byte)" "(0 :: byte) XOR 4 = 4" by simp_all
    show ?thesis
      using o compactEncode_loop_pairs [of xs "[t OR x]"] assms by (simp add: h Let_def x4)
  qed
  have x: "(16 :: byte) OR x = 16 + x" "(48 :: byte) OR x = 48 + x" if "x < 16" for x
    using nibble_or(1) [of 1 x] nibble_or(1) [of 3 x] that by simp_all
  have hd: "hd h < 16" if "odd (length h)" using assms that by (cases h) auto
  have m: "length h mod 2 = (if even (length h) then 0 else 1)" by presburger
  show "compactEncode h = Some (if even (length h) then 0 # pack h else (16 + hd h) # pack (tl h))" if "h \<noteq> []"
  proof -
    have "last h < 16" using assms last_in_set [OF that] by (simp add: nibs_def)
    then have "last h \<noteq> 16" by auto
    then show ?thesis
      using that even [of 0] odd [of 16] x hd unfolding compactEncode_def by (simp add: Let_def m)
  qed
  show "compactEncode (h @ [16]) = Some (if even (length h) then 32 # pack h else (48 + hd h) # pack (tl h))"
    using even [of 32] odd [of 48] x hd unfolding compactEncode_def by (simp add: Let_def m)
qed

lemma unpack:
  assumes "even (length k)" "nibs k"
  shows "concat (map (\<lambda>b. [b div 16, b mod 16]) (pack k)) = k"
  using assms by (induction k rule: pack.induct) (auto simp: nibble_div)

lemma compactDecode_eq:
  assumes "f < 16" "x < 16" "even (length k)" "nibs k"
  shows "compactDecode ((f * 16 + x) # pack k) =
    Some ((if f mod 2 = 1 then x # k else k) @ (if f \<ge> 2 then [16] else []))"
  using assms by (simp add: compactDecode_def compactHexDecode_def nibble_div unpack index_def butlast_append Let_def)

lemma compactDecode_Encode:
  assumes "tkey k \<or> nibs k \<and> k \<noteq> []"
  shows "\<exists>e. compactEncode k = Some e \<and> e \<noteq> [] \<and> compactDecode e = Some k"
proof -
  define h where "h = (if tkey k then butlast k else k)"
  have "k = butlast k @ [16]" if "tkey k" using that tkey_snoc by fastforce
  then have h: "nibs h" "k = (if tkey k then h @ [16] else h)" "tkey k \<or> h \<noteq> []"
    using assms unfolding h_def by (auto simp: tkey_def)
  have two: "(0 :: byte) mod 2 = 0" "(1 :: byte) mod 2 = 1" "(2 :: byte) mod 2 = 0" "(3 :: byte) mod 2 = 1" "\<not> (2 :: byte) \<le> 1"
    by code_simp+
  show ?thesis
  proof (cases "even (length h)")
    case True
    then show ?thesis
      using h compactEncode_eq [OF h(1)] compactDecode_eq [of 2 0 h] compactDecode_eq [of 0 0 h]
      by (auto simp: two split: if_splits)
  next
    case False
    then obtain x xs where x: "h = x # xs" by (cases h) auto
    then show ?thesis
      using False h compactEncode_eq [OF h(1)] compactDecode_eq [of 3 x xs] compactDecode_eq [of 1 x xs]
      by (auto simp: two split: if_splits)
  qed
qed

lemma tkey_compactHexDecode: "tkey (compactHexDecode str)"
proof -
  have "b div 16 < 16" "b mod 16 < 16" for b :: byte
    using unsigned_less [of b, where 'a = nat] less_mult_imp_div_less [of "unat b" 16 16]
    by (simp_all add: word_less_nat_alt unat_div unat_mod)
  then have "nibs (concat (map (\<lambda>b. [b div 16, b mod 16]) str))" by (auto simp: nibs_def)
  then show ?thesis by (simp add: compactHexDecode_def)
qed

lemma decodeCompact_HexDecode: "decodeCompact (compactHexDecode str) = str"
proof -
  let ?n = "concat (map (\<lambda>b. [b div 16, b mod 16]) str)"
  have len: "length ?n = 2 * length str" by (induction str) simp_all
  have "?n ! (2 * i) = str ! i div 16 \<and> ?n ! (2 * i + 1) = str ! i mod 16" if "i < length str" for i
    using that
  proof (induction str arbitrary: i)
    case (Cons b str)
    then show ?case by (cases i) simp_all
  qed simp
  moreover have "b div 16 * 16 + b mod 16 = b" for b :: byte by (rule div_mult_mod_eq)
  ultimately show ?thesis
    using len by (intro nth_equalityI) (simp_all add: decodeCompact_def compactHexDecode_def nth_append)
qed

lemma compactHexDecode_inject: "compactHexDecode a = compactHexDecode b \<longleftrightarrow> a = b"
  by (metis decodeCompact_HexDecode)

section \<open>Properties\<close>

text \<open>
  C22. The compact encoding of a trie key is defined and decodes to the key: keys of every length,
  with and without the terminator, are told apart by the flag nibble. The hex form of a byte string
  always ends with the terminator and converts back to the string.
\<close>

theorem compact_roundtrip:
  assumes "tkey k \<or> nibs k \<and> k \<noteq> []"
  shows "(\<exists>e. compactEncode k = Some e \<and> compactDecode e = Some k) \<and>
    tkey (compactHexDecode str) \<and> decodeCompact (compactHexDecode str) = str"
  using compactDecode_Encode [OF assms] tkey_compactHexDecode decodeCompact_HexDecode by blast

theorem compact_roundtrip_witness:
  "(\<exists>e. compactEncode [1, 2, 3, 16] = Some e \<and> compactDecode e = Some [1, 2, 3, 16]) \<and>
   compactEncode [1, 2, 3, 16] = Some [0x31, 0x23] \<and> decodeCompact (compactHexDecode [0x31, 0x23]) = [0x31, 0x23]"
proof -
  have "compactEncode [1, 2, 3, 16] = Some [0x31, 0x23]" by code_simp
  then show ?thesis using compact_roundtrip [of "[1, 2, 3, 16]" "[0x31, 0x23]"] by (simp add: tkey_def)
qed

end
