(* ===== verification/Trie.thy ===== *)
theory Trie
  imports Crypto Trie_Encoding
begin

text \<open>
  The Merkle Patricia trie of \<^verbatim>\<open>src/trie/trie.go\<close>, its nodes, \<^verbatim>\<open>src/trie/node.go\<close>, and the trie with
  hashed keys, \<^verbatim>\<open>src/trie/secure_trie.go\<close>.

  The interface value \<open>nil\<close> is the node \<open>NilN\<close>. The database is a partial map from hashes to encoded
  nodes, \<open>None\<close> where the trie has no database; a \<open>Put\<close> succeeds. The global cache of decoded nodes
  returns what decoding the stored node returns (\<open>Arc\<close>), so \<open>resolveHash\<close> reads the database.
  A panic is \<open>None\<close>, also of a walk that follows hashes for ever.
\<close>

section \<open>Nodes\<close>

datatype node =
    NilN
  | FullN "node list"
  | ShortN bytes node
  | HashN bytes
  | ValueN bytes

type_synonym node_db = "bytes \<rightharpoonup> bytes"

datatype node_error =
    NodeEOF
  | NodeRlp rlp_error
  | NodeCount nat
  | NodeOversized nat
  | NodeRefSize nat

text \<open>
  The decoder recurses through the references of a node; \<open>dn\<close> is \<open>decodeNode\<close> itself. The
  position that \<open>wrapError\<close> adds to an error is left out.
\<close>

definition decodeRef :: "(bytes \<Rightarrow> (node_error + node) option) \<Rightarrow> bytes \<Rightarrow> (node_error + node \<times> bytes) option" where
  "decodeRef dn buf =
     do { r \<leftarrow> Split buf;
          case r of
            Inl err \<Rightarrow> Some (Inl (NodeRlp err))
          | Inr (kind, val, rest) \<Rightarrow>
              if kind = List then
                let sz = length buf - length rest in
                if sz > 32 then Some (Inl (NodeOversized sz))
                else do { r \<leftarrow> dn buf;
                          Some (case r of Inl err \<Rightarrow> Inl err | Inr n \<Rightarrow> Inr (n, rest)) }
              else if kind = String \<and> length val = 0 then Some (Inr (NilN, rest))
              else if kind = String \<and> length val = 32 then Some (Inr (HashN val, rest))
              else Some (Inl (NodeRefSize (length val))) }"

definition decodeShort :: "(bytes \<Rightarrow> (node_error + node) option) \<Rightarrow> bytes \<Rightarrow> (node_error + node) option" where
  "decodeShort dn buf =
     do { r \<leftarrow> SplitString buf;
          case r of
            Inl err \<Rightarrow> Some (Inl (NodeRlp err))
          | Inr (kbuf, rest) \<Rightarrow>
              do { key \<leftarrow> compactDecode kbuf;
                   t \<leftarrow> hasTerm key;
                   if t then
                     do { r \<leftarrow> SplitString rest;
                          Some (case r of Inl err \<Rightarrow> Inl (NodeRlp err)
                                | Inr (val, rest) \<Rightarrow> Inr (ShortN key (ValueN val))) }
                   else
                     do { r \<leftarrow> decodeRef dn rest;
                          Some (case r of Inl err \<Rightarrow> Inl err | Inr (n, rest) \<Rightarrow> Inr (ShortN key n)) } } }"

primrec decodeRefs :: "(bytes \<Rightarrow> (node_error + node) option) \<Rightarrow> nat \<Rightarrow> bytes \<Rightarrow>
    (node_error + node list \<times> bytes) option" where
  "decodeRefs dn 0 buf = Some (Inr ([], buf))"
| "decodeRefs dn (Suc i) buf =
     do { r \<leftarrow> decodeRef dn buf;
          case r of
            Inl err \<Rightarrow> Some (Inl err)
          | Inr (cld, rest) \<Rightarrow>
              do { r \<leftarrow> decodeRefs dn i rest;
                   Some (case r of Inl err \<Rightarrow> Inl err | Inr (ns, buf) \<Rightarrow> Inr (cld # ns, buf)) } }"

definition decodeFull :: "(bytes \<Rightarrow> (node_error + node) option) \<Rightarrow> bytes \<Rightarrow> (node_error + node) option" where
  "decodeFull dn buf =
     do { r \<leftarrow> decodeRefs dn 16 buf;
          case r of
            Inl err \<Rightarrow> Some (Inl err)
          | Inr (ns, buf) \<Rightarrow>
              do { r \<leftarrow> SplitString buf;
                   Some (case r of Inl err \<Rightarrow> Inl (NodeRlp err)
                         | Inr (val, rest) \<Rightarrow> Inr (FullN (ns @ [if length val > 0 then ValueN val else NilN]))) } }"

text \<open>The fuel bounds the nesting of embedded nodes, which is below the length of the buffer.\<close>

primrec decodeNode_fuel :: "nat \<Rightarrow> bytes \<Rightarrow> (node_error + node) option" where
  "decodeNode_fuel 0 buf = None"
| "decodeNode_fuel (Suc fuel) buf =
     (if length buf = 0 then Some (Inl NodeEOF)
      else
        do { r \<leftarrow> SplitList buf;
             case r of
               Inl err \<Rightarrow> Some (Inl (NodeRlp err))
             | Inr (elems, rest) \<Rightarrow>
                 do { c \<leftarrow> CountValues elems;
                      let c = (case c of Inl err \<Rightarrow> 0 | Inr c \<Rightarrow> c) in
                      if c = 2 then decodeShort (decodeNode_fuel fuel) elems
                      else if c = 17 then decodeFull (decodeNode_fuel fuel) elems
                      else Some (Inl (NodeCount c)) } })"

definition decodeNode :: "bytes \<Rightarrow> (node_error + node) option" where
  "decodeNode buf = decodeNode_fuel (length buf + 1) buf"

definition mustDecodeNode :: "bytes \<Rightarrow> node option" where
  "mustDecodeNode buf = do { r \<leftarrow> decodeNode buf; case r of Inl err \<Rightarrow> None | Inr n \<Rightarrow> Some n }"

section \<open>Reading and writing\<close>

definition resolveHash :: "node_db option \<Rightarrow> bytes \<Rightarrow> node option" where
  "resolveHash db h =
     do { db \<leftarrow> db;
          case db h of None \<Rightarrow> Some NilN | Some enc \<Rightarrow> mustDecodeNode enc }"

definition resolve :: "node_db option \<Rightarrow> node \<Rightarrow> node option" where
  "resolve db n = (case n of HashN h \<Rightarrow> resolveHash db h | _ \<Rightarrow> Some n)"

text \<open>The loop of \<open>Get\<close>: the inner \<open>None\<close> is the nil slice that it returns for a missing key.\<close>

partial_function (option) Get_from :: "node_db option \<Rightarrow> node \<Rightarrow> bytes \<Rightarrow> bytes option option" where
  "Get_from db tn key =
     (if key = [] then (case tn of ValueN v \<Rightarrow> Some (Some v) | _ \<Rightarrow> None)
      else case tn of
        ShortN k v \<Rightarrow>
          if length key < length k \<or> k \<noteq> take (length k) key then Some None
          else Get_from db v (drop (length k) key)
      | FullN cs \<Rightarrow> Option.bind (index cs (unat (hd key))) (\<lambda>c. Get_from db c (tl key))
      | NilN \<Rightarrow> Some None
      | HashN h \<Rightarrow> Option.bind (resolveHash db h) (\<lambda>n. Get_from db n key)
      | ValueN v \<Rightarrow> None)"

text \<open>The store \<open>n[i] = v\<close> into the array of a full node, after the read of the same element.\<close>

partial_function (option) trie_insert :: "node_db option \<Rightarrow> node \<Rightarrow> bytes \<Rightarrow> node \<Rightarrow> node option" where
  "trie_insert db n key val =
     (if key = [] then Some val
      else case n of
        ShortN k v \<Rightarrow>
          let matchlen = prefixLen key k in
          if matchlen = length k then
            Option.bind (trie_insert db v (drop matchlen key) val) (\<lambda>v. Some (ShortN k v))
          else
            Option.bind (index k matchlen) (\<lambda>i.
            Option.bind (trie_insert db NilN (drop (matchlen + 1) k) v) (\<lambda>b1.
            Option.bind (index key matchlen) (\<lambda>j.
            Option.bind (trie_insert db NilN (drop (matchlen + 1) key) val) (\<lambda>b2.
              if unat i < 17 \<and> unat j < 17 then
                let branch = FullN ((replicate 17 NilN)[unat i := b1, unat j := b2]) in
                Some (if matchlen = 0 then branch else ShortN (take matchlen key) branch)
              else None))))
      | FullN cs \<Rightarrow>
          Option.bind (index cs (unat (hd key))) (\<lambda>c.
          Option.bind (trie_insert db c (tl key) val) (\<lambda>c. Some (FullN (cs[unat (hd key) := c]))))
      | NilN \<Rightarrow> Some (ShortN key val)
      | HashN h \<Rightarrow> Option.bind (resolveHash db h) (\<lambda>n. trie_insert db n key val)
      | ValueN v \<Rightarrow> None)"

definition concat_keys :: "bytes \<Rightarrow> bytes \<Rightarrow> bytes" where
  "concat_keys s1 s2 = s1 @ s2"

text \<open>
  The loop of \<open>delete\<close> over the children from index \<open>i\<close> on: the index of the only child, -1 where
  there is none, and -2 where there are several.
\<close>

fun only_child :: "nat \<Rightarrow> int \<Rightarrow> node list \<Rightarrow> int" where
  "only_child i pos [] = pos"
| "only_child i pos (cld # cs) =
     (if cld \<noteq> NilN then if pos = -1 then only_child (i + 1) (int i) cs else -2
      else only_child (i + 1) pos cs)"

partial_function (option) trie_delete :: "node_db option \<Rightarrow> node \<Rightarrow> bytes \<Rightarrow> node option" where
  "trie_delete db n key =
     (case n of
        ShortN k v \<Rightarrow>
          let matchlen = prefixLen key k in
          if matchlen < length k then Some n
          else if matchlen = length key then Some NilN
          else
            Option.bind (trie_delete db v (drop (length k) key)) (\<lambda>child.
              case child of
                ShortN k' v' \<Rightarrow> Some (ShortN (concat_keys k k') v')
              | _ \<Rightarrow> Some (ShortN k child))
      | FullN cs \<Rightarrow>
          Option.bind (index key 0) (\<lambda>x.
          Option.bind (index cs (unat x)) (\<lambda>c.
          Option.bind (trie_delete db c (tl key)) (\<lambda>c.
            let cs = cs[unat x := c];
                pos = only_child 0 (-1) cs in
            if pos \<ge> 0 then
              if pos \<noteq> 16 then
                Option.bind (resolve db (cs ! nat pos)) (\<lambda>cnode.
                  case cnode of
                    ShortN k v \<Rightarrow> Some (ShortN (word_of_int pos # k) v)
                  | _ \<Rightarrow> Some (ShortN [word_of_int pos] (cs ! nat pos)))
              else Some (ShortN [word_of_int pos] (cs ! nat pos))
            else Some (FullN cs))))
      | NilN \<Rightarrow> Some NilN
      | HashN h \<Rightarrow> Option.bind (resolveHash db h) (\<lambda>n. trie_delete db n key)
      | ValueN v \<Rightarrow> None)"

section \<open>Hashing\<close>

text \<open>The values that the RLP encoder sees: a nil child is a nil interface value.\<close>

fun node_val :: "node \<Rightarrow> rlp_val" where
  "node_val NilN = VNilInterface"
| "node_val (FullN cs) = VList (map node_val cs)"
| "node_val (ShortN k v) = VList [VBytes k, node_val v]"
| "node_val (HashN h) = VBytes h"
| "node_val (ValueN v) = VBytes v"

text \<open>The writer is \<open>None\<close> where only the hash is wanted.\<close>

definition hasher_store :: "crypto \<Rightarrow> node \<Rightarrow> node_db option \<Rightarrow> bool \<Rightarrow> (node \<times> node_db option) option" where
  "hasher_store cr n db force =
     (case n of
        NilN \<Rightarrow> Some (n, db)
      | HashN h \<Rightarrow> Some (n, db)
      | _ \<Rightarrow>
          (case EncodeToBytes (node_val n) of
             Inl err \<Rightarrow> None
           | Inr tmp \<Rightarrow>
               if length tmp < 32 \<and> \<not> force then Some (n, db)
               else
                 let key = keccak256 cr tmp in
                 Some (HashN key, map_option (\<lambda>db. db(key \<mapsto> tmp)) db)))"

text \<open>\<open>replace_range\<close> is the loop over the children of a full node, from index \<open>i\<close> on.\<close>

fun replaceChildren :: "crypto \<Rightarrow> node \<Rightarrow> node_db option \<Rightarrow> (node \<times> node_db option) option"
  and replace_range :: "crypto \<Rightarrow> nat \<Rightarrow> node list \<Rightarrow> node_db option \<Rightarrow> (node list \<times> node_db option) option" where
  "replaceChildren cr (ShortN k v) db =
     do { k \<leftarrow> compactEncode k;
          (v, db) \<leftarrow> (case v of
             ValueN b \<Rightarrow> Some (v, db)
           | _ \<Rightarrow> do { (hashed, db) \<leftarrow> replaceChildren cr v db; hasher_store cr hashed db False });
          Some (ShortN k (if v = NilN then ValueN [] else v), db) }"
| "replaceChildren cr (FullN cs) db =
     do { (cs, db) \<leftarrow> replace_range cr 0 cs db; Some (FullN cs, db) }"
| "replaceChildren cr n db = Some (n, db)"
| "replace_range cr i [] db = Some ([], db)"
| "replace_range cr i (c # cs) db =
     do { (c, db) \<leftarrow>
            (if c = NilN then Some (ValueN [], db)
             else if i < 16 then do { (hashed, db) \<leftarrow> replaceChildren cr c db; hasher_store cr hashed db False }
             else Some (c, db));
          (cs, db) \<leftarrow> replace_range cr (i + 1) cs db;
          Some (c # cs, db) }"

definition hasher_hash :: "crypto \<Rightarrow> node \<Rightarrow> node_db option \<Rightarrow> bool \<Rightarrow> (node \<times> node_db option) option" where
  "hasher_hash cr n db force =
     do { (hashed, db) \<leftarrow> replaceChildren cr n db; hasher_store cr hashed db force }"

definition emptyRoot :: hash where
  "emptyRoot = 0x56e81f171bcc55a6ff8345e692c0f86e5b48e01b996cadc001622fb5e363b421"

definition hashRoot :: "crypto \<Rightarrow> node \<Rightarrow> node_db option \<Rightarrow> (node \<times> node_db option) option" where
  "hashRoot cr root db =
     (if root = NilN then Some (HashN (Hash_Bytes emptyRoot), db) else hasher_hash cr root db True)"

section \<open>Tries\<close>

record trie =
  t_root :: node
  t_db :: "node_db option"

datatype trie_error = ErrMissingRoot

definition trie_New :: "hash \<Rightarrow> node_db option \<Rightarrow> (trie_error + trie) option" where
  "trie_New root db =
     (if root \<noteq> 0 \<and> root \<noteq> emptyRoot then
        do { d \<leftarrow> db;
             Some (case d (Hash_Bytes root) of
                None \<Rightarrow> Inl ErrMissingRoot
              | Some v \<Rightarrow> if length v = 0 then Inl ErrMissingRoot
                          else Inr \<lparr>t_root = HashN (Hash_Bytes root), t_db = db\<rparr>) }
      else Some (Inr \<lparr>t_root = NilN, t_db = db\<rparr>))"

definition trie_Get :: "trie \<Rightarrow> bytes \<Rightarrow> bytes option option" where
  "trie_Get t key = Get_from (t_db t) (t_root t) (compactHexDecode key)"

definition trie_Update :: "trie \<Rightarrow> bytes \<Rightarrow> bytes \<Rightarrow> trie option" where
  "trie_Update t key val =
     (let k = compactHexDecode key in
      map_option (\<lambda>r. t\<lparr>t_root := r\<rparr>)
        (if length val \<noteq> 0 then trie_insert (t_db t) (t_root t) k (ValueN val)
         else trie_delete (t_db t) (t_root t) k))"

definition trie_Delete :: "trie \<Rightarrow> bytes \<Rightarrow> trie option" where
  "trie_Delete t key =
     map_option (\<lambda>r. t\<lparr>t_root := r\<rparr>) (trie_delete (t_db t) (t_root t) (compactHexDecode key))"

text \<open>\<open>None\<close> is also the failed assertion that the root is a hash.\<close>

definition trie_Hash :: "crypto \<Rightarrow> trie \<Rightarrow> hash option" where
  "trie_Hash cr t =
     do { (root, db) \<leftarrow> hashRoot cr (t_root t) None;
          case root of HashN h \<Rightarrow> Some (BytesToHash h) | _ \<Rightarrow> None }"

definition CommitTo :: "crypto \<Rightarrow> trie \<Rightarrow> node_db \<Rightarrow> (hash \<times> trie \<times> node_db) option" where
  "CommitTo cr t db =
     do { (n, db) \<leftarrow> hashRoot cr (t_root t) (Some db);
          db \<leftarrow> db;
          case n of HashN h \<Rightarrow> Some (BytesToHash h, t\<lparr>t_root := n\<rparr>, db) | _ \<Rightarrow> None }"

definition trie_Commit :: "crypto \<Rightarrow> trie \<Rightarrow> (hash \<times> trie) option" where
  "trie_Commit cr t =
     do { db \<leftarrow> t_db t;
          (h, t, db) \<leftarrow> CommitTo cr t db;
          Some (h, t\<lparr>t_db := Some db\<rparr>) }"

section \<open>Tries with hashed keys\<close>

definition secureKeyPrefix :: bytes where
  "secureKeyPrefix = [0x73, 0x65, 0x63, 0x75, 0x72, 0x65, 0x2d, 0x6b, 0x65, 0x79, 0x2d]"

definition secKey :: "bytes \<Rightarrow> bytes" where
  "secKey key = secureKeyPrefix @ key"

definition hashKey :: "crypto \<Rightarrow> bytes \<Rightarrow> bytes" where
  "hashKey cr key = keccak256 cr key"

definition NewSecure :: "hash \<Rightarrow> node_db option \<Rightarrow> (trie_error + trie) option" where
  "NewSecure root db = (if db = None then None else trie_New root db)"

definition SecureTrie_Get :: "crypto \<Rightarrow> trie \<Rightarrow> bytes \<Rightarrow> bytes option option" where
  "SecureTrie_Get cr t key = trie_Get t (hashKey cr key)"

definition SecureTrie_Update :: "crypto \<Rightarrow> trie \<Rightarrow> bytes \<Rightarrow> bytes \<Rightarrow> trie option" where
  "SecureTrie_Update cr t key val =
     (let hk = hashKey cr key in
      do { t \<leftarrow> trie_Update t hk val;
           db \<leftarrow> t_db t;
           Some (t\<lparr>t_db := Some (db(secKey hk \<mapsto> key))\<rparr>) })"

definition SecureTrie_Delete :: "crypto \<Rightarrow> trie \<Rightarrow> bytes \<Rightarrow> trie option" where
  "SecureTrie_Delete cr t key = trie_Delete t (hashKey cr key)"

definition SecureTrie_GetKey :: "trie \<Rightarrow> bytes \<Rightarrow> bytes option option" where
  "SecureTrie_GetKey t shaKey = map_option (\<lambda>db. db (secKey shaKey)) (t_db t)"

end
