(* ===== verification/Trie_Facts.thy ===== *)
theory Trie_Facts
  imports Trie
begin

text \<open>
  The trie as a map. A trie in memory may have parts that are not loaded, behind the hashes under
  which the database stores them; \<open>expands\<close> relates it to the whole tree. Trees in canonical form
  (\<open>canon\<close>) are determined by the map they hold, and the operations keep the form and implement
  lookup, update and deletion of the map, whatever part of the tree is loaded.
\<close>

section \<open>Trees\<close>

fun lookup :: "node \<Rightarrow> bytes \<Rightarrow> bytes option" where
  "lookup (ValueN v) key = (if key = [] then Some v else None)"
| "lookup (ShortN k n) key = (if take (length k) key = k then lookup n (drop (length k) key) else None)"
| "lookup (FullN cs) key = (case key of [] \<Rightarrow> None | x # key \<Rightarrow> if unat x < length cs then lookup (cs ! unat x) key else None)"
| "lookup _ key = None"

text \<open>
  Canonical trees: a leaf holds a value under a terminated key; an extension leads to a branch; a
  branch has at least two children, the last of them the value of the key that ends there.
\<close>

lemma size_butlast [termination_simp]: "x \<in> set (butlast cs) \<Longrightarrow> size x < Suc (size_list size cs)"
  by (drule in_set_butlastD) (simp add: size_list_estimation' less_Suc_eq_le)

fun canon :: "node \<Rightarrow> bool" where
  "canon (ShortN k (ValueN v)) = (tkey k \<and> v \<noteq> [])"
| "canon (ShortN k (FullN cs)) = (nibs k \<and> k \<noteq> [] \<and> canon (FullN cs))"
| "canon (FullN cs) =
     (length cs = 17 \<and> (\<forall>c\<in>set (butlast cs). c = NilN \<or> canon c) \<and>
      (case last cs of NilN \<Rightarrow> True | ValueN v \<Rightarrow> v \<noteq> [] | _ \<Rightarrow> False) \<and>
      2 \<le> length (filter (\<lambda>c. c \<noteq> NilN) cs))"
| "canon _ = False"

definition canon_or_nil :: "node \<Rightarrow> bool" where
  "canon_or_nil t \<longleftrightarrow> t = NilN \<or> canon t"

text \<open>What may stand in a slot of a branch.\<close>

definition slot_ok :: "nat \<Rightarrow> node \<Rightarrow> bool" where
  "slot_ok i c \<longleftrightarrow> c = NilN \<or> (if i = 16 then \<exists>v. c = ValueN v \<and> v \<noteq> [] else canon c)"

lemma canon_Full:
  "canon (FullN cs) \<longleftrightarrow> length cs = 17 \<and> (\<forall>i<17. slot_ok i (cs ! i)) \<and> 2 \<le> length (filter (\<lambda>c. c \<noteq> NilN) cs)"
proof (cases "length cs = 17")
  case True
  then have "cs \<noteq> []" by auto
  then have l: "last cs = cs ! 16" "length (butlast cs) = 16" using True by (simp_all add: last_conv_nth)
  have "(\<forall>c\<in>set (butlast cs). c = NilN \<or> canon c) \<longleftrightarrow> (\<forall>i<16. slot_ok i (cs ! i))"
    using l by (auto simp: all_set_conv_all_nth nth_butlast slot_ok_def)
  moreover have "(case last cs of NilN \<Rightarrow> True | ValueN v \<Rightarrow> v \<noteq> [] | _ \<Rightarrow> False) \<longleftrightarrow> slot_ok 16 (cs ! 16)"
    by (auto simp: l slot_ok_def split: node.split)
  moreover have "(\<forall>i<17. slot_ok i (cs ! i)) \<longleftrightarrow> (\<forall>i<16. slot_ok i (cs ! i)) \<and> slot_ok 16 (cs ! 16)"
  proof -
    have "i < 17 \<longleftrightarrow> i < 16 \<or> i = 16" for i :: nat by linarith
    then show ?thesis by blast
  qed
  ultimately show ?thesis using True by simp
qed simp

declare canon.simps(3) [simp del]

lemma canon_cases:
  assumes "canon t"
  obtains k v where "t = ShortN k (ValueN v)" "tkey k" "v \<noteq> []"
  | k cs where "t = ShortN k (FullN cs)" "nibs k" "k \<noteq> []" "canon (FullN cs)"
  | cs where "t = FullN cs"
  using assms by (cases t rule: canon.cases) auto

text \<open>Two children of a branch.\<close>

lemma two_children:
  assumes "2 \<le> length (filter P cs)"
  obtains i j where "i < j" "j < length cs" "P (cs ! i)" "P (cs ! j)"
proof -
  have "2 \<le> card {i. i < length cs \<and> P (cs ! i)}" using assms by (simp add: length_filter_conv_card)
  then obtain A where A: "A \<subseteq> {i. i < length cs \<and> P (cs ! i)}" "card A = 2"
    by (meson obtain_subset_with_card_n)
  then obtain i j where "A = {i, j}" "i \<noteq> j" by (auto simp: card_2_iff)
  then show ?thesis using A that [of i j] that [of j i] by (cases "i < j") auto
qed

lemma two_children_iff:
  "2 \<le> length (filter P cs) \<longleftrightarrow> (\<exists>i j. i < j \<and> j < length cs \<and> P (cs ! i) \<and> P (cs ! j))"
proof
  assume "\<exists>i j. i < j \<and> j < length cs \<and> P (cs ! i) \<and> P (cs ! j)"
  then obtain i j where ij: "i < j" "j < length cs" "P (cs ! i)" "P (cs ! j)" by blast
  then have "{i, j} \<subseteq> {i. i < length cs \<and> P (cs ! i)}" by auto
  then have "card {i, j} \<le> card {i. i < length cs \<and> P (cs ! i)}" by (intro card_mono) simp_all
  then show "2 \<le> length (filter P cs)" using ij by (simp add: length_filter_conv_card)
qed (metis two_children)

section \<open>Keys of a tree\<close>

lemma unat_slot: "x < (16 :: byte) \<Longrightarrow> unat x < 16" "unat (16 :: byte) = 16"
  by (simp_all add: word_less_nat_alt)

lemma slot_byte: "i < 256 \<Longrightarrow> unat (word_of_nat i :: byte) = i"
  by (simp add: unat_of_nat take_bit_nat_eq_self)

lemma lookup_slot: "i < 17 \<Longrightarrow> length cs = 17 \<Longrightarrow> lookup (FullN cs) (word_of_nat i # key) = lookup (cs ! i) key"
  by (simp add: slot_byte)

lemma nth_in_butlast: "i < length xs - 1 \<Longrightarrow> xs ! i \<in> set (butlast xs)"
  by (metis length_butlast nth_butlast nth_mem)

lemma canon_lookup_tkey: "canon t \<Longrightarrow> lookup t key \<noteq> None \<Longrightarrow> tkey key"
proof (induction t arbitrary: key rule: canon.induct)
  case (1 k v)
  then have "key = k"
    by (simp split: if_splits)
  then show ?case using 1 by simp
next
  case (2 k cs)
  then have "tkey (drop (length k) key)" "take (length k) key = k" "nibs k" by (auto split: if_splits)
  then show ?case by (metis append_take_drop_id tkey_append)
next
  case (3 cs)
  then obtain x rest where key: "key = x # rest" by (cases key) auto
  have cs: "length cs = 17" "\<forall>i<17. slot_ok i (cs ! i)" using 3 unfolding canon_Full by blast+
  have x: "unat x < 17" "lookup (cs ! unat x) rest \<noteq> None"
    using 3 cs(1) unfolding key by (simp_all split: if_splits)
  have ok: "slot_ok (unat x) (cs ! unat x)" using x(1) cs(2) by blast
  show ?case
  proof (cases "unat x = 16")
    case True
    then have "x = 16" using unat_slot(2) by (simp add: word_unat_eq_iff)
    then show ?thesis using ok x(2) True by (auto simp: slot_ok_def key tkey_Cons split: if_splits)
  next
    case False
    then have "canon (cs ! unat x)" using ok x(2) by (auto simp: slot_ok_def)
    moreover have "cs ! unat x \<in> set (butlast cs)" using x(1) False cs(1) by (intro nth_in_butlast) simp
    ultimately have "tkey rest" using "3.IH" [of "cs ! unat x" rest] x(2) by blast
    moreover have "x < 16" using x(1) False by (simp add: word_less_nat_alt)
    ultimately show ?thesis by (auto simp: key tkey_Cons)
  qed
qed simp_all

section \<open>Canonical trees are determined by their map\<close>

lemma lookup_Short_append [simp]: "lookup (ShortN k n) (k @ r) = lookup n r"
  by simp

lemma lookup_ShortE:
  assumes "lookup (ShortN k n) key \<noteq> None"
  obtains r where "key = k @ r" "lookup n r \<noteq> None"
proof -
  have "take (length k) key = k" "lookup n (drop (length k) key) \<noteq> None"
    using assms by (simp_all split: if_splits)
  then show ?thesis using that [of "drop (length k) key"] by (metis append_take_drop_id)
qed

lemma lookup_leaf: "lookup (ShortN k (ValueN v)) key = (if key = k then Some v else None)"
  by auto

lemma slot_nonempty:
  assumes "canon (FullN cs)" "i < 17" "cs ! i \<noteq> NilN"
    and "\<And>c. c \<in> set (butlast cs) \<Longrightarrow> canon c \<Longrightarrow> \<exists>k. lookup c k \<noteq> None"
  shows "\<exists>k. lookup (FullN cs) (word_of_nat i # k) \<noteq> None"
proof -
  have cs: "length cs = 17" "slot_ok i (cs ! i)" using assms(1,2) unfolding canon_Full by blast+
  have "\<exists>k. lookup (cs ! i) k \<noteq> None"
  proof (cases "i = 16")
    case True
    then show ?thesis using cs(2) assms(3) by (auto simp: slot_ok_def intro: exI [of _ "[]"])
  next
    case False
    then have "cs ! i \<in> set (butlast cs)" "canon (cs ! i)"
      using cs assms(2,3) by (auto simp: slot_ok_def intro: nth_in_butlast)
    then show ?thesis using assms(4) by blast
  qed
  then show ?thesis using lookup_slot [OF assms(2) cs(1)] by simp
qed

lemma canon_Full_children:
  assumes "canon (FullN cs)"
  shows "\<exists>i j. i < j \<and> j < 17 \<and> cs ! i \<noteq> NilN \<and> cs ! j \<noteq> NilN"
proof -
  have "2 \<le> length (filter (\<lambda>c. c \<noteq> NilN) cs)" "length cs = 17" using assms unfolding canon_Full by blast+
  then show ?thesis unfolding two_children_iff by auto
qed

lemma canon_nonempty: "canon t \<Longrightarrow> \<exists>k. lookup t k \<noteq> None"
proof (induction t rule: canon.induct)
  case (1 k v)
  show ?case by (rule exI [of _ "k @ []"]) (simp del: append_Nil2)
next
  case (2 k cs)
  then obtain r where "lookup (FullN cs) r \<noteq> None" by auto
  then show ?case by (intro exI [of _ "k @ r"]) (simp del: lookup.simps)
next
  case (3 cs)
  obtain i where "i < 17" "cs ! i \<noteq> NilN" using canon_Full_children [OF 3(2)] by blast
  then show ?case using slot_nonempty [OF 3(2)] "3.IH" by blast
qed simp_all

lemma canon_Full_two:
  assumes "canon (FullN cs)"
  obtains x y kx ky where "x \<noteq> y" "lookup (FullN cs) (x # kx) \<noteq> None" "lookup (FullN cs) (y # ky) \<noteq> None"
proof -
  obtain i j where ij: "i < j" "j < 17" "cs ! i \<noteq> NilN" "cs ! j \<noteq> NilN"
    using canon_Full_children [OF assms] by blast
  have "i < 17" using ij by simp
  note ne = slot_nonempty [OF assms _ _ canon_nonempty]
  obtain kx ky where k: "lookup (FullN cs) (word_of_nat i # kx) \<noteq> None" "lookup (FullN cs) (word_of_nat j # ky) \<noteq> None"
    using ne [OF \<open>i < 17\<close> ij(3)] ne [OF ij(2,4)] by blast
  have "unat (word_of_nat i :: byte) \<noteq> unat (word_of_nat j :: byte)" using ij slot_byte by simp
  then have "(word_of_nat i :: byte) \<noteq> word_of_nat j" by metis
  then show ?thesis using that k by blast
qed

lemma extension_prefix:
  assumes "canon (FullN cs)" "lookup (ShortN k (FullN cs)) = lookup (ShortN k' n)"
  shows "\<exists>r. k = k' @ r"
proof (rule ccontr)
  assume no: "\<nexists>r. k = k' @ r"
  obtain x y kx ky where xy: "x \<noteq> y" "lookup (FullN cs) (x # kx) \<noteq> None" "lookup (FullN cs) (y # ky) \<noteq> None"
    using canon_Full_two [OF assms(1)] by blast
  have "lookup (ShortN k' n) (k @ x # kx) \<noteq> None" "lookup (ShortN k' n) (k @ y # ky) \<noteq> None"
    using xy unfolding assms(2) [symmetric] lookup_Short_append by blast+
  then obtain r s where r: "k @ x # kx = k' @ r" "k @ y # ky = k' @ s" by (metis lookup_ShortE)
  from r(1) no obtain u where u: "u \<noteq> []" "k' = k @ u" by (auto simp: append_eq_append_conv2)
  then have "x # kx = u @ r" "y # ky = u @ s" using r by simp_all
  then show False using xy(1) u(1) by (cases u) auto
qed

lemma branch_vs_short:
  assumes "canon (FullN cs)" "k \<noteq> []"
  shows "lookup (FullN cs) \<noteq> lookup (ShortN k n)"
proof
  assume eq: "lookup (FullN cs) = lookup (ShortN k n)"
  obtain x y kx ky where xy: "x \<noteq> y" "lookup (FullN cs) (x # kx) \<noteq> None" "lookup (FullN cs) (y # ky) \<noteq> None"
    using canon_Full_two [OF assms(1)] by blast
  then obtain r s where "x # kx = k @ r" "y # ky = k @ s" unfolding eq by (metis lookup_ShortE)
  then show False using xy(1) assms(2) by (cases k) auto
qed

lemma leaf_vs_extension:
  assumes "canon (FullN cs)"
  shows "lookup (ShortN k (ValueN v)) \<noteq> lookup (ShortN k' (FullN cs))"
proof
  assume eq: "lookup (ShortN k (ValueN v)) = lookup (ShortN k' (FullN cs))"
  obtain x y kx ky where xy: "x \<noteq> y" "lookup (FullN cs) (x # kx) \<noteq> None" "lookup (FullN cs) (y # ky) \<noteq> None"
    using canon_Full_two [OF assms] by blast
  have "key = k" if "lookup (ShortN k' (FullN cs)) key \<noteq> None" for key
    using that unfolding eq [symmetric] lookup_leaf by (simp split: if_splits)
  moreover have "lookup (ShortN k' (FullN cs)) (k' @ x # kx) \<noteq> None" "lookup (ShortN k' (FullN cs)) (k' @ y # ky) \<noteq> None"
    using xy(2,3) unfolding lookup_Short_append .
  ultimately have "k' @ x # kx = k" "k' @ y # ky = k" by blast+
  then show False using xy(1) by auto
qed

lemma Full_cong_slots:
  assumes "length cs = 17" "length cs' = 17" "lookup (FullN cs) = lookup (FullN cs')" "i < 17"
  shows "lookup (cs ! i) = lookup (cs' ! i)"
  using lookup_slot [OF assms(4,1)] lookup_slot [OF assms(4,2)] assms(3) by (metis ext)

lemma canon_unique_aux:
  "canon t \<Longrightarrow> canon t' \<Longrightarrow> lookup t = lookup t' \<Longrightarrow> t = t'"
proof (induction t arbitrary: t' rule: canon.induct)
  case (1 k v)
  from 1(2) show ?case
  proof (cases rule: canon_cases)
    case (1 k' v')
    have "lookup (ShortN k' (ValueN v')) k = lookup (ShortN k (ValueN v)) k"
      using \<open>lookup (ShortN k (ValueN v)) = lookup t'\<close> unfolding 1 by simp
    then have "k = k' \<and> v = v'" unfolding lookup_leaf by (simp split: if_splits)
    then show ?thesis using 1 by simp
  next
    case (2 k' cs)
    then show ?thesis using leaf_vs_extension 1(3) by blast
  next
    case (3 cs)
    then have "k \<noteq> []" "canon (FullN cs)" using 1 by auto
    then show ?thesis using branch_vs_short 3 1(3) by metis
  qed
next
  case (2 k cs)
  have full: "canon (FullN cs)" "k \<noteq> []" "nibs k" using 2(2) by simp_all
  from 2(3) show ?case
  proof (cases rule: canon_cases)
    case (1 k' v')
    then show ?thesis using leaf_vs_extension [OF full(1)] 2(4) by metis
  next
    case (2 k' cs')
    have eq: "lookup (ShortN k (FullN cs)) = lookup (ShortN k' (FullN cs'))"
      using \<open>lookup (ShortN k (FullN cs)) = lookup t'\<close> 2(1) by simp
    obtain r where "k = k' @ r" using extension_prefix [OF full(1) eq] by blast
    moreover obtain s where "k' = k @ s" using extension_prefix [OF 2(4) eq [symmetric]] by blast
    ultimately have k: "k = k'" by simp
    have "lookup (FullN cs) = lookup (FullN cs')"
      using eq unfolding k by (metis ext lookup_Short_append)
    then show ?thesis using "2.IH" 2(1,4) full(1) k by blast
  next
    case (3 cs')
    then have "canon (FullN cs')" using 2 by auto
    then show ?thesis using branch_vs_short [OF _ full(2)] 3 2(4) by metis
  qed
next
  case (3 cs)
  from 3(3) show ?case
  proof (cases rule: canon_cases)
    case (1 k v)
    then have "k \<noteq> []" by auto
    then show ?thesis using branch_vs_short [OF 3(2)] 1 3(4) by blast
  next
    case (2 k cs')
    then show ?thesis using branch_vs_short [OF 3(2)] 3(4) by blast
  next
    case (3 cs')
    have f: "length cs = 17" "\<forall>i<17. slot_ok i (cs ! i)" "length cs' = 17" "\<forall>i<17. slot_ok i (cs' ! i)"
      using \<open>canon (FullN cs)\<close> \<open>canon t'\<close> unfolding 3 canon_Full by blast+
    have "cs ! i = cs' ! i" if i: "i < 17" for i
    proof -
      have eq: "lookup (cs ! i) = lookup (cs' ! i)"
        using Full_cong_slots f(1,3) i \<open>lookup (FullN cs) = lookup t'\<close> unfolding 3 by blast
      have ok: "slot_ok i (cs ! i)" "slot_ok i (cs' ! i)" using f i by blast+
      have nil: "lookup c = lookup NilN \<longleftrightarrow> c = NilN" if "slot_ok i c" for c
        using that canon_nonempty [of c] by (auto simp: slot_ok_def fun_eq_iff split: if_splits)
      show ?thesis
      proof (cases "cs ! i = NilN \<or> cs' ! i = NilN")
        case True
        then show ?thesis using nil ok eq by metis
      next
        case False
        show ?thesis
        proof (cases "i = 16")
          case True
          then obtain v v' where "cs ! i = ValueN v" "cs' ! i = ValueN v'" using ok False by (auto simp: slot_ok_def)
          then show ?thesis using fun_cong [OF eq, of "[]"] by simp
        next
          case i16: False
          then have "canon (cs ! i)" "canon (cs' ! i)" "cs ! i \<in> set (butlast cs)"
            using ok False i f(1) by (auto simp: slot_ok_def intro: nth_in_butlast)
          then show ?thesis using "3.IH" eq by blast
        qed
      qed
    qed
    then show ?thesis using f(1,3) 3 by (auto intro: nth_equalityI)
  qed
qed simp_all

lemma canon_unique:
  assumes "canon_or_nil t" "canon_or_nil t'" "lookup t = lookup t'"
  shows "t = t'"
proof -
  have ne: "lookup NilN \<noteq> lookup c" if "canon c" for c
  proof
    assume "lookup NilN = lookup c"
    then have "lookup c k = None" for k by (metis lookup.simps(4))
    then show False using canon_nonempty [OF that] by simp
  qed
  then have "lookup c \<noteq> lookup NilN" if "canon c" for c using that by metis
  then show ?thesis using ne assms canon_unique_aux unfolding canon_or_nil_def by blast
qed

end
