(* ===== verification/Trie_Ops.thy ===== *)
theory Trie_Ops
  imports Trie_Facts
begin

text \<open>
  The operations of the trie against the map it holds: \<open>Get\<close>, \<open>insert\<close> and \<open>delete\<close> on a trie that
  expands to a canonical tree, including the two inputs on which they panic.
\<close>

section \<open>Loaded and unloaded parts\<close>

text \<open>
  \<open>expands db n t\<close>: loading every hash of \<open>n\<close> from the database gives the tree \<open>t\<close>. A stored node is
  a short or a full node.
\<close>

definition is_stored :: "node \<Rightarrow> bool" where
  "is_stored n \<longleftrightarrow> (case n of ShortN k v \<Rightarrow> True | FullN cs \<Rightarrow> True | _ \<Rightarrow> False)"

inductive expands :: "node_db option \<Rightarrow> node \<Rightarrow> node \<Rightarrow> bool" for db where
  exp_nil: "expands db NilN NilN"
| exp_val: "expands db (ValueN v) (ValueN v)"
| exp_short: "expands db n t \<Longrightarrow> expands db (ShortN k n) (ShortN k t)"
| exp_full: "list_all2 (expands db) cs ts \<Longrightarrow> expands db (FullN cs) (FullN ts)"
| exp_hash: "length h = 32 \<Longrightarrow> resolveHash db h = Some n \<Longrightarrow> is_stored n \<Longrightarrow> expands db n t \<Longrightarrow>
    expands db (HashN h) t"

inductive_simps expands_simps [simp]:
  "expands db NilN t" "expands db (ValueN v) t" "expands db (ShortN k n) t" "expands db (FullN cs) t"

inductive_cases expands_HashE: "expands db (HashN h) t"

lemma expands_nil_iff: "expands db n t \<Longrightarrow> n = NilN \<longleftrightarrow> t = NilN"
  by (induction rule: expands.induct) (auto simp: is_stored_def)

lemma expands_val: "expands db n (ValueN v) \<Longrightarrow> n = ValueN v"
proof (induction n "ValueN v" rule: expands.induct)
  case (exp_hash h n)
  then show ?case by (simp add: is_stored_def)
qed simp_all

text \<open>A node that is not a hash has the shape of its tree.\<close>

definition loaded :: "node \<Rightarrow> bool" where
  "loaded n \<longleftrightarrow> (case n of HashN h \<Rightarrow> False | _ \<Rightarrow> True)"

lemma loaded_simps [simp]:
  "loaded NilN" "loaded (ValueN v)" "loaded (ShortN k n)" "loaded (FullN cs)" "\<not> loaded (HashN h)"
  by (simp_all add: loaded_def)

lemma stored_loaded: "is_stored n \<Longrightarrow> loaded n"
  by (cases n) (simp_all add: is_stored_def)

lemma expands_loaded:
  assumes "expands db n t" "loaded n"
  shows "t = NilN \<Longrightarrow> n = NilN" "t = ValueN v \<Longrightarrow> n = ValueN v"
    "t = ShortN k t1 \<Longrightarrow> \<exists>n1. n = ShortN k n1 \<and> expands db n1 t1"
    "t = FullN ts \<Longrightarrow> \<exists>cs. n = FullN cs \<and> list_all2 (expands db) cs ts"
  using assms by (cases n; auto)+

text \<open>
  It is enough to consider loaded nodes: an operation on a hash is the operation on the node it
  stands for.
\<close>

lemma expands_resolve:
  assumes "expands db n t"
  obtains n' where "resolve db n = Some n'" "loaded n'" "expands db n' t" "n' = n \<or> is_stored n'"
proof (cases "loaded n")
  case True
  then show ?thesis using that [of n] assms by (cases n) (simp_all add: resolve_def)
next
  case False
  then obtain h where h: "n = HashN h" by (cases n) simp_all
  with assms obtain n' where "resolveHash db h = Some n'" "is_stored n'" "expands db n' t"
    by (blast elim: expands_HashE)
  then show ?thesis using that [of n'] h stored_loaded by (simp add: resolve_def)
qed

lemma op_resolve:
  assumes "resolve db n = Some n'" "loaded n'"
  shows "key \<noteq> [] \<Longrightarrow> Get_from db n key = Get_from db n' key"
    "key \<noteq> [] \<Longrightarrow> trie_insert db n key val = trie_insert db n' key val"
    "trie_delete db n key = trie_delete db n' key"
proof -
  consider "n = n'" | h where "n = HashN h" "resolveHash db h = Some n'"
    using assms by (cases n) (auto simp: resolve_def)
  note n = this
  show "Get_from db n key = Get_from db n' key" if "key \<noteq> []"
    using n by cases (simp_all add: that Get_from.simps [of db "HashN h" for h])
  show "trie_insert db n key val = trie_insert db n' key val" if "key \<noteq> []"
    using n by cases (simp_all add: that trie_insert.simps [of db "HashN h" for h])
  show "trie_delete db n key = trie_delete db n' key"
    using n by cases (simp_all add: trie_delete.simps [of db "HashN h" for h])
qed

section \<open>Get\<close>

text \<open>
  The keys on which \<open>Get\<close> panics: those that end at a branch without a value, where the type
  assertion meets nil.
\<close>

fun dead_end :: "node \<Rightarrow> bytes \<Rightarrow> bool" where
  "dead_end NilN key = (key = [])"
| "dead_end (ShortN k n) key = (take (length k) key = k \<and> dead_end n (drop (length k) key))"
| "dead_end (FullN cs) key = (case key of [] \<Rightarrow> False | x # key \<Rightarrow> unat x < length cs \<and> dead_end (cs ! unat x) key)"
| "dead_end _ key = False"

definition slot_of :: "bytes \<Rightarrow> node \<Rightarrow> bool" where
  "slot_of key t \<longleftrightarrow> (if key = [] then t = NilN \<or> (\<exists>v. t = ValueN v \<and> v \<noteq> []) else tkey key \<and> canon_or_nil t)"

lemma slot_of_tl:
  assumes "canon (FullN cs)" "tkey (x # key)"
  shows "unat x < 17" "slot_of key (cs ! unat x)"
proof -
  have x: "if key = [] then x = 16 else x < 16 \<and> tkey key" using assms(2) by (simp add: tkey_Cons)
  then show "unat x < 17" using unat_slot(1) [of x] unat_slot(2) by (auto split: if_splits)
  then have "slot_ok (unat x) (cs ! unat x)" using assms(1) unfolding canon_Full by blast
  then show "slot_of key (cs ! unat x)"
    using x unat_slot(1) [of x] unat_slot(2) by (auto simp: slot_ok_def slot_of_def canon_or_nil_def split: if_splits)
qed

lemma Get_from_unfold:
  "Get_from db NilN [] = None" "Get_from db (ValueN v) [] = Some (Some v)"
  "key \<noteq> [] \<Longrightarrow> Get_from db NilN key = Some None"
  "key \<noteq> [] \<Longrightarrow> Get_from db (ShortN k n) key =
     (if take (length k) key = k then Get_from db n (drop (length k) key) else Some None)"
  "Get_from db (FullN cs) (x # key) = Option.bind (index cs (unat x)) (\<lambda>c. Get_from db c key)"
proof -
  have "length key < length k \<or> k \<noteq> take (length k) key \<longleftrightarrow> take (length k) key \<noteq> k"
    by (metis length_take min.absorb3 nat_neq_iff)
  then show "Get_from db (ShortN k n) key =
      (if take (length k) key = k then Get_from db n (drop (length k) key) else Some None)" if "key \<noteq> []"
    by (subst Get_from.simps) (simp add: that)
qed (subst Get_from.simps, simp)+

lemma tkey_leaf: "tkey k \<Longrightarrow> tkey key \<Longrightarrow> take (length k) key = k \<longleftrightarrow> key = k"
  using tkey_prefix [of k "drop (length k) key"] append_take_drop_id [of "length k" key]
  by (metis append_Nil2 order.refl take_all)

lemma tkey_extension: "nibs k \<Longrightarrow> tkey key \<Longrightarrow> take (length k) key = k \<Longrightarrow> tkey (drop (length k) key)"
  using tkey_append [of k "drop (length k) key"] append_take_drop_id [of "length k" key] by simp

lemma Get_from_ok:
  assumes "slot_of key t" "expands db n t"
  shows "Get_from db n key = (if dead_end t key then None else Some (lookup t key))"
  using assms
proof (induction "length key" arbitrary: key t n rule: less_induct)
  case less
  show ?case
  proof (cases "key = []")
    case True
    then have "t = NilN \<and> n = NilN \<or> (\<exists>v. t = ValueN v \<and> n = ValueN v)"
      using less.prems expands_val expands_nil_iff by (auto simp: slot_of_def)
    then show ?thesis using True by (auto simp: Get_from_unfold)
  next
    case False
    then have key: "tkey key" "canon_or_nil t" using less.prems(1) by (simp_all add: slot_of_def)
    obtain n' where n': "resolve db n = Some n'" "loaded n'" "expands db n' t"
      using expands_resolve [OF less.prems(2)] by blast
    note eq = op_resolve(1) [OF n'(1,2) False]
    show ?thesis
    proof (cases "t = NilN")
      case True
      then have "n' = NilN" using expands_loaded(1) [OF n'(3,2)] by blast
      then show ?thesis unfolding eq using True False by (simp add: Get_from_unfold)
    next
      case nn: False
      then have "canon t" using key(2) by (simp add: canon_or_nil_def)
      then show ?thesis
      proof (cases rule: canon_cases)
        case (1 k v)
        then have n1: "n' = ShortN k (ValueN v)"
          using expands_loaded(3) [OF n'(3,2) 1(1)] expands_val by blast
        show ?thesis
          unfolding eq n1 1(1) using False tkey_leaf [OF 1(2) key(1)] by (simp add: Get_from_unfold)
      next
        case (2 k cs)
        then obtain n1 where n1: "n' = ShortN k n1" "expands db n1 (FullN cs)"
          using expands_loaded(3) [OF n'(3,2) 2(1)] by blast
        let ?key = "drop (length k) key"
        have "Get_from db n1 ?key = (if dead_end (FullN cs) ?key then None else Some (lookup (FullN cs) ?key))"
          if t: "take (length k) key = k"
        proof (rule less.hyps [OF _ _ n1(2)])
          show "length ?key < length key" using False 2(3) by simp
          show "slot_of ?key (FullN cs)"
            using tkey_extension [OF 2(2) key(1) t] 2(4) by (auto simp: slot_of_def canon_or_nil_def)
        qed
        then show ?thesis
          unfolding eq n1 2(1) Get_from_unfold(4) [OF False] dead_end.simps(2) lookup.simps(2) by simp
      next
        case (3 ts)
        then obtain cs where cs: "n' = FullN cs" "list_all2 (expands db) cs ts"
          using expands_loaded(4) [OF n'(3,2)] by blast
        obtain x rest where x: "key = x # rest" using False by (cases key) auto
        have full: "canon (FullN ts)" using \<open>canon t\<close> 3 by simp
        note sl = slot_of_tl [OF full key(1) [unfolded x]]
        have len: "length ts = 17" using full unfolding canon_Full by blast
        then have "length cs = 17" using list_all2_lengthD [OF cs(2)] by simp
        note len = len this
        have "expands db (cs ! unat x) (ts ! unat x)" using list_all2_nthD [OF cs(2), of "unat x"] sl(1) len by simp
        then have "Get_from db (cs ! unat x) rest = (if dead_end (ts ! unat x) rest then None else Some (lookup (ts ! unat x) rest))"
          using sl(2) x by (intro less.hyps) simp_all
        then show ?thesis
          unfolding eq unfolding cs(1) 3 x using sl(1) len by (simp add: Get_from_unfold index_def)
      qed
    qed
  qed
qed

section \<open>Insert\<close>

text \<open>\<open>sub k t\<close> is the subtree that \<open>insert\<close> puts under a new branch.\<close>

definition sub :: "bytes \<Rightarrow> node \<Rightarrow> node" where
  "sub k t = (if k = [] then t else ShortN k t)"

lemma lookup_sub: "lookup (sub k t) = lookup (ShortN k t)"
  by (auto simp: sub_def)

lemma expands_sub: "expands db n t \<Longrightarrow> expands db (sub k n) (sub k t)"
  by (simp add: sub_def)

lemma sub_not_nil: "t \<noteq> NilN \<Longrightarrow> sub k t \<noteq> NilN"
  by (simp add: sub_def)

definition branch :: "byte \<Rightarrow> node \<Rightarrow> byte \<Rightarrow> node \<Rightarrow> node" where
  "branch x a y b = FullN ((replicate 17 NilN)[unat x := a, unat y := b])"

lemma expands_branch: "expands db a a' \<Longrightarrow> expands db b b' \<Longrightarrow> expands db (branch x a y b) (branch x a' y b')"
  by (simp add: branch_def list_all2_update_cong list_all2_same)

lemma canon_branch:
  assumes "x \<noteq> y" "unat x < 17" "unat y < 17" "slot_ok (unat x) a" "slot_ok (unat y) b" "a \<noteq> NilN" "b \<noteq> NilN"
  shows "canon (branch x a y b)"
proof -
  let ?cs = "(replicate 17 NilN)[unat x := a, unat y := b]"
  have ne: "unat x \<noteq> unat y" using assms(1) by (simp add: word_unat_eq_iff)
  have nth: "?cs ! i = (if i = unat y then b else if i = unat x then a else NilN)" if "i < 17" for i
    using that assms(2,3) by (simp add: nth_list_update)
  have "\<exists>i j. i < j \<and> j < length ?cs \<and> ?cs ! i \<noteq> NilN \<and> ?cs ! j \<noteq> NilN"
  proof (cases "unat x < unat y")
    case True
    then show ?thesis using assms nth [of "unat x"] nth [of "unat y"] by (intro exI [of _ "unat x"] exI [of _ "unat y"]) simp
  next
    case False
    then show ?thesis using assms ne nth [of "unat x"] nth [of "unat y"] by (intro exI [of _ "unat y"] exI [of _ "unat x"]) simp
  qed
  moreover have "slot_ok i (?cs ! i)" if "i < 17" for i
    using nth [OF that] assms(4,5) slot_ok_def [of i NilN] by simp
  ultimately show ?thesis unfolding branch_def canon_Full two_children_iff by simp
qed

lemma lookup_branch:
  assumes "x \<noteq> y" "unat x < 17" "unat y < 17"
  shows "lookup (branch x a y b) (z # key) = (if z = y then lookup b key else if z = x then lookup a key else None)"
proof -
  have [simp]: "unat x = unat z \<longleftrightarrow> z = x" "unat y = unat z \<longleftrightarrow> z = y" "unat y \<noteq> unat x"
    using assms(1) by (auto simp: word_unat_eq_iff)
  show ?thesis using assms by (auto simp: branch_def nth_list_update)
qed

lemma lookup_branch_Nil [simp]: "lookup (branch x a y b) [] = None"
  by (simp add: branch_def)

lemma lookup_Short_Short: "lookup (ShortN a (ShortN b t)) = lookup (ShortN (a @ b) t)"
proof
  fix key
  show "lookup (ShortN a (ShortN b t)) key = lookup (ShortN (a @ b) t) key"
  proof (cases "take (length a) key = a")
    case True
    then obtain r where "key = a @ r" by (metis append_take_drop_id)
    then show ?thesis by simp
  next
    case False
    then have "take (length (a @ b)) key \<noteq> a @ b"
      by (metis append_eq_conv_conj append_take_drop_id append.assoc)
    then show ?thesis using False by simp
  qed
qed

text \<open>A key that leaves the path of a short node splits it.\<close>

lemma lookup_split:
  assumes "x \<noteq> y" "unat x < 17" "unat y < 17"
  shows "lookup (sub c (branch x (sub r t) y (sub s (ValueN v)))) = (lookup (ShortN (c @ x # r) t))(c @ y # s \<mapsto> v)"
proof
  fix key
  let ?b = "branch x (sub r t) y (sub s (ValueN v))"
  have b: "lookup ?b z = ((lookup (ShortN (x # r) t))(y # s \<mapsto> v)) z" for z
  proof (cases z)
    case (Cons w ws)
    show ?thesis
      unfolding Cons lookup_branch [OF assms] lookup_sub lookup_leaf using assms(1) by auto
  qed simp
  show "lookup (sub c ?b) key = ((lookup (ShortN (c @ x # r) t))(c @ y # s \<mapsto> v)) key"
  proof (cases "\<exists>z. key = c @ z")
    case True
    then obtain z where key: "key = c @ z" by blast
    have "lookup (ShortN (c @ x # r) t) key = lookup (ShortN (x # r) t) z"
      unfolding key lookup_Short_Short [symmetric] by (rule lookup_Short_append)
    then show ?thesis unfolding lookup_sub key lookup_Short_append b by simp
  next
    case False
    then have "take (length c) key \<noteq> c" by (metis append_take_drop_id)
    moreover have "take (length (c @ x # r)) key \<noteq> c @ x # r"
      using False by (metis append.assoc append_take_drop_id)
    ultimately show ?thesis using False unfolding lookup_sub by auto
  qed
qed

lemma trie_insert_unfold:
  "trie_insert db n [] val = Some val" "trie_insert db NilN key val = Some (sub key val)"
  "key \<noteq> [] \<Longrightarrow> trie_insert db (FullN cs) key val =
     Option.bind (index cs (unat (hd key))) (\<lambda>c.
       Option.bind (trie_insert db c (tl key) val) (\<lambda>c. Some (FullN (cs[unat (hd key) := c]))))"
proof -
  show nil: "trie_insert db n [] val = Some val" for n val by (subst trie_insert.simps) simp
  show "trie_insert db NilN key val = Some (sub key val)"
    by (cases "key = []") (simp add: nil sub_def, subst trie_insert.simps, simp add: sub_def)
qed (subst trie_insert.simps, simp)

text \<open>The two cases of \<open>insert\<close> on a short node.\<close>

lemma trie_insert_match:
  assumes "key = k @ r" "key \<noteq> []"
  shows "trie_insert db (ShortN k n) key val = map_option (ShortN k) (trie_insert db n r val)"
proof -
  have "prefixLen key k = length k" using assms(1) prefixLen_append [of k r "[]"] by simp
  then show ?thesis
    using assms by (subst trie_insert.simps) (auto simp: Let_def map_option_case split: bind_split)
qed

lemma trie_insert_split:
  assumes "key = c @ y # s" "k = c @ x # r" "x \<noteq> y" "unat x < 17" "unat y < 17"
  shows "trie_insert db (ShortN k n) key val = Some (sub c (branch x (sub r n) y (sub s val)))"
proof -
  have len: "prefixLen key k = length c" using assms(1-3) by simp
  show ?thesis
    using assms(4,5) by (subst trie_insert.simps)
      (simp add: len, simp add: assms(1,2) Let_def trie_insert_unfold index_def sub_def branch_def)
qed

lemma slot_sub_leaf: "tkey (x # r) \<Longrightarrow> v \<noteq> [] \<Longrightarrow> slot_ok (unat x) (sub r (ValueN v))"
  using unat_slot(1) [of x] unat_slot(2) by (auto simp: slot_ok_def sub_def tkey_Cons split: if_splits)

lemma slot_sub_branch: "nibs (x # r) \<Longrightarrow> canon (FullN cs) \<Longrightarrow> slot_ok (unat x) (sub r (FullN cs))"
  using unat_slot(1) [of x] by (auto simp: slot_ok_def sub_def)

lemma unat_key: "tkey (x # r) \<Longrightarrow> unat x < 17" "nibs (x # r) \<Longrightarrow> unat x < 17"
  using unat_slot(1) [of x] unat_slot(2) by (auto simp: tkey_Cons split: if_splits)

lemma canon_sub_branch:
  assumes "nibs c" "canon (branch x a y b)"
  shows "canon (sub c (branch x a y b))"
  using assms by (simp add: sub_def branch_def)

text \<open>Where a terminated key leaves the key of a short node.\<close>

lemma key_split:
  assumes "tkey key" "tkey k \<or> nibs k" "\<not> (\<exists>r. key = k @ r)"
  obtains c x r y s where "key = c @ y # s" "k = c @ x # r" "x \<noteq> y" "nibs c" "tkey (y # s)"
    "tkey k \<longrightarrow> tkey (x # r)" "nibs k \<longrightarrow> nibs (x # r)"
proof -
  obtain c a b where s: "key = c @ a" "k = c @ b" "a = [] \<or> b = [] \<or> hd a \<noteq> hd b"
    using prefixLen_split [of key k] by metis
  have b: "b \<noteq> []" using assms(3) s(1,2) by auto
  have a: "a \<noteq> []"
  proof
    assume "a = []"
    then have "k = key @ b" using s by simp
    then show False using assms(1,2) b tkey_prefix nibs_no_tkey_prefix by blast
  qed
  obtain y s' x r where ab: "a = y # s'" "b = x # r" using a b by (meson neq_Nil_conv)
  have c: "nibs c"
  proof -
    obtain h where "key = h @ [16]" "nibs h" using tkey_snoc [OF assms(1)] by blast
    then have "c @ butlast a = h" using s(1) a by (metis butlast_append butlast_snoc)
    then show ?thesis using \<open>nibs h\<close> by auto
  qed
  show ?thesis
    using that [of c y s' x r] s ab c assms(1) tkey_append [OF c] by auto
qed

text \<open>A new child of a branch.\<close>

lemma canon_Full_upd:
  assumes "canon (FullN cs)" "i < 17" "slot_ok i c" "c \<noteq> NilN"
  shows "canon (FullN (cs[i := c]))"
proof -
  have cs: "length cs = 17" "\<forall>i<17. slot_ok i (cs ! i)" using assms(1) unfolding canon_Full by blast+
  obtain j k where jk: "j < k" "k < 17" "cs ! j \<noteq> NilN" "cs ! k \<noteq> NilN" using canon_Full_children [OF assms(1)] by blast
  have "\<exists>j k. j < k \<and> k < length (cs[i := c]) \<and> (cs[i := c]) ! j \<noteq> NilN \<and> (cs[i := c]) ! k \<noteq> NilN"
    by (rule exI [of _ j], rule exI [of _ k]) (use jk assms(2,4) cs(1) in \<open>simp add: nth_list_update\<close>)
  moreover have "\<forall>j<17. slot_ok j (cs[i := c] ! j)" using cs assms(2,3) by (auto simp: nth_list_update)
  ultimately show ?thesis unfolding canon_Full two_children_iff using cs(1) by simp
qed

lemma lookup_Full_upd:
  assumes "length cs = 17" "unat x < 17"
  shows "lookup (FullN (cs[unat x := c])) key =
    (case key of [] \<Rightarrow> None | z # r \<Rightarrow> if z = x then lookup c r else lookup (FullN cs) key)"
proof (cases key)
  case (Cons z r)
  have "unat x = unat z \<longleftrightarrow> z = x" by (auto simp: word_unat_eq_iff)
  then show ?thesis using assms Cons by (auto simp: nth_list_update)
qed simp

definition inserted :: "node_db option \<Rightarrow> node \<Rightarrow> node \<Rightarrow> bytes \<Rightarrow> bytes \<Rightarrow> bool" where
  "inserted db n t key v \<longleftrightarrow>
     (\<exists>n' t'. trie_insert db n key (ValueN v) = Some n' \<and> expands db n' t' \<and> canon t' \<and>
        lookup t' = (lookup t)(key \<mapsto> v) \<and> ((\<exists>cs. t = FullN cs) \<longrightarrow> (\<exists>cs. t' = FullN cs)))"

lemma insert_empty:
  assumes "tkey key" "v \<noteq> []"
  shows "inserted db NilN NilN key v"
proof -
  have "key \<noteq> []" using assms(1) by auto
  then have "trie_insert db NilN key (ValueN v) = Some (ShortN key (ValueN v))"
    by (simp add: trie_insert_unfold sub_def)
  moreover have "lookup (ShortN key (ValueN v)) = (lookup NilN)(key \<mapsto> v)"
    by (rule ext) (simp only: lookup_leaf fun_upd_apply lookup.simps(4))
  ultimately show ?thesis
    unfolding inserted_def using assms by (intro exI [of _ "ShortN key (ValueN v)"]) auto
qed

lemma insert_leaf:
  assumes "tkey k" "w \<noteq> []" "tkey key" "v \<noteq> []"
  shows "inserted db (ShortN k (ValueN w)) (ShortN k (ValueN w)) key v"
proof (cases "\<exists>r. key = k @ r")
  case True
  then have k: "key = k" using tkey_prefix [OF assms(1)] assms(3) by auto
  have "key \<noteq> []" using assms(3) by auto
  then have "trie_insert db (ShortN k (ValueN w)) key (ValueN v) = Some (ShortN k (ValueN v))"
    using trie_insert_match [of key k "[]" db "ValueN w" "ValueN v"] k by (simp add: trie_insert_unfold)
  moreover have "lookup (ShortN k (ValueN v)) = (lookup (ShortN k (ValueN w)))(key \<mapsto> v)"
    unfolding k by (rule ext) (simp only: lookup_leaf fun_upd_apply split: if_split, simp)
  ultimately show ?thesis
    unfolding inserted_def using assms by (intro exI [of _ "ShortN k (ValueN v)"]) auto
next
  case False
  obtain c x r y s where sp: "key = c @ y # s" "k = c @ x # r" "x \<noteq> y" "nibs c" "tkey (y # s)" "tkey (x # r)"
    using key_split [OF assms(3) _ False] assms(1) by metis
  note u = unat_key(1) [OF sp(6)] unat_key(1) [OF sp(5)]
  let ?t = "sub c (branch x (sub r (ValueN w)) y (sub s (ValueN v)))"
  have "trie_insert db (ShortN k (ValueN w)) key (ValueN v) = Some ?t"
    by (rule trie_insert_split [OF sp(1-3) u])
  moreover have "canon ?t"
    using canon_branch [OF sp(3) u slot_sub_leaf [OF sp(6) assms(2)] slot_sub_leaf [OF sp(5) assms(4)]]
    by (intro canon_sub_branch [OF sp(4)]) (simp add: sub_not_nil)
  moreover have "expands db ?t ?t" by (intro expands_sub expands_branch) simp_all
  moreover have "lookup ?t = (lookup (ShortN k (ValueN w)))(key \<mapsto> v)" unfolding sp(1,2) by (rule lookup_split [OF sp(3) u])
  ultimately show ?thesis unfolding inserted_def by blast
qed

lemma lookup_Short_upd:
  assumes "lookup t' = (lookup t)(r := x)"
  shows "lookup (ShortN k t') = (lookup (ShortN k t))(k @ r := x)"
proof
  fix z
  show "lookup (ShortN k t') z = ((lookup (ShortN k t))(k @ r := x)) z"
  proof (cases "\<exists>y. z = k @ y")
    case True
    then obtain y where "z = k @ y" by blast
    then show ?thesis unfolding assms lookup_Short_append fun_upd_apply by (simp only: lookup_Short_append same_append_eq assms fun_upd_apply)
  next
    case False
    then have "take (length k) z \<noteq> k" by (metis append_take_drop_id)
    then show ?thesis using False by auto
  qed
qed

lemma insert_extension:
  assumes "nibs k" "k \<noteq> []" "canon (FullN cs)" "expands db n1 (FullN cs)" "tkey key" "v \<noteq> []"
    and IH: "\<And>r. key = k @ r \<Longrightarrow> tkey r \<Longrightarrow> inserted db n1 (FullN cs) r v"
  shows "inserted db (ShortN k n1) (ShortN k (FullN cs)) key v"
proof (cases "\<exists>r. key = k @ r")
  case True
  then obtain r where r: "key = k @ r" by blast
  then have "tkey r" using assms(5) tkey_append [OF assms(1)] by simp
  then obtain n2 cs' where 3: "trie_insert db n1 r (ValueN v) = Some n2" "expands db n2 (FullN cs')"
    "canon (FullN cs')" "lookup (FullN cs') = (lookup (FullN cs))(r \<mapsto> v)"
    using IH [OF r] unfolding inserted_def by blast
  have "lookup (ShortN k (FullN cs')) = (lookup (ShortN k (FullN cs)))(key \<mapsto> v)"
    unfolding r by (rule lookup_Short_upd [OF 3(4)])
  moreover have "trie_insert db (ShortN k n1) key (ValueN v) = Some (ShortN k n2)"
    using trie_insert_match [OF r] r assms(2) 3(1) by simp
  ultimately show ?thesis
    unfolding inserted_def using assms 3(2,3)
    by (intro exI [of _ "ShortN k n2"] exI [of _ "ShortN k (FullN cs')"]) simp
next
  case False
  obtain c x r y s where sp: "key = c @ y # s" "k = c @ x # r" "x \<noteq> y" "nibs c" "tkey (y # s)" "nibs (x # r)"
    using key_split [OF assms(5) _ False] assms(1) by metis
  note u = unat_key(2) [OF sp(6)] unat_key(1) [OF sp(5)]
  let ?f = "\<lambda>m. sub c (branch x (sub r m) y (sub s (ValueN v)))"
  have "trie_insert db (ShortN k n1) key (ValueN v) = Some (?f n1)"
    by (rule trie_insert_split [OF sp(1-3) u])
  moreover have "canon (?f (FullN cs))"
    using canon_branch [OF sp(3) u slot_sub_branch [OF sp(6) assms(3)] slot_sub_leaf [OF sp(5) assms(6)]]
    by (intro canon_sub_branch [OF sp(4)]) (simp add: sub_not_nil)
  moreover have "expands db (?f n1) (?f (FullN cs))" using assms(4) by (intro expands_sub expands_branch) simp_all
  moreover have "lookup (?f (FullN cs)) = (lookup (ShortN k (FullN cs)))(key \<mapsto> v)"
    unfolding sp(1,2) by (rule lookup_split [OF sp(3) u])
  ultimately show ?thesis unfolding inserted_def by blast
qed

text \<open>The children of a branch, loaded and expanded.\<close>

lemma branch_children:
  assumes "canon (FullN ts)" "list_all2 (expands db) cs ts" "tkey (x # rest)"
  shows "length ts = 17" "length cs = 17" "unat x < 17" "expands db (cs ! unat x) (ts ! unat x)"
    "slot_of rest (ts ! unat x)"
proof -
  show len: "length ts = 17" using assms(1) unfolding canon_Full by blast
  then show len': "length cs = 17" using list_all2_lengthD [OF assms(2)] by simp
  show x: "unat x < 17" and "slot_of rest (ts ! unat x)" using slot_of_tl [OF assms(1,3)] by blast+
  show "expands db (cs ! unat x) (ts ! unat x)" using list_all2_nthD [OF assms(2), of "unat x"] x len' by simp
qed

lemma lookup_branch_upd:
  assumes "length ts = 17" "unat x < 17" "lookup t1 = (lookup (ts ! unat x))(rest := y)"
  shows "lookup (FullN (ts[unat x := t1])) = (lookup (FullN ts))(x # rest := y)"
  unfolding fun_eq_iff lookup_Full_upd [OF assms(1,2)] assms(3)
  using assms(1,2) by (auto split: list.split)

lemma insert_branch:
  assumes "canon (FullN ts)" "list_all2 (expands db) cs ts" "tkey (x # rest)" "v \<noteq> []"
    and IH: "rest \<noteq> [] \<Longrightarrow> tkey rest \<Longrightarrow> canon_or_nil (ts ! unat x) \<Longrightarrow> expands db (cs ! unat x) (ts ! unat x) \<Longrightarrow>
      inserted db (cs ! unat x) (ts ! unat x) rest v"
  shows "inserted db (FullN cs) (FullN ts) (x # rest) v"
proof -
  note br = branch_children [OF assms(1-3)]
  have "\<exists>n1 t1. trie_insert db (cs ! unat x) rest (ValueN v) = Some n1 \<and> expands db n1 t1 \<and> t1 \<noteq> NilN \<and>
      slot_ok (unat x) t1 \<and> lookup t1 = (lookup (ts ! unat x))(rest \<mapsto> v)"
  proof (cases "rest = []")
    case True
    then have "x = 16" using assms(3) by (simp add: tkey_Cons)
    then show ?thesis
      using True br(5) assms(4)
      by (intro exI [of _ "ValueN v"]) (auto simp: trie_insert_unfold slot_ok_def slot_of_def fun_eq_iff)
  next
    case False
    then have rest: "x < 16" "tkey rest" using assms(3) by (simp_all add: tkey_Cons)
    have "inserted db (cs ! unat x) (ts ! unat x) rest v"
      using IH [OF False rest(2) _ br(4)] br(5) False by (simp add: slot_of_def)
    then obtain n1 t1 where "trie_insert db (cs ! unat x) rest (ValueN v) = Some n1" "expands db n1 t1" "canon t1"
      "lookup t1 = (lookup (ts ! unat x))(rest \<mapsto> v)"
      unfolding inserted_def by blast
    moreover from this have "t1 \<noteq> NilN" "slot_ok (unat x) t1"
      using unat_slot(1) [OF rest(1)] by (auto simp: slot_ok_def)
    ultimately show ?thesis by blast
  qed
  then obtain n1 t1 where 4: "trie_insert db (cs ! unat x) rest (ValueN v) = Some n1" "expands db n1 t1" "t1 \<noteq> NilN"
    "slot_ok (unat x) t1" "lookup t1 = (lookup (ts ! unat x))(rest \<mapsto> v)" by blast
  have "trie_insert db (FullN cs) (x # rest) (ValueN v) = Some (FullN (cs[unat x := n1]))"
    using br(2,3) 4(1) by (simp add: trie_insert_unfold index_def)
  moreover have "expands db (FullN (cs[unat x := n1])) (FullN (ts[unat x := t1]))"
    using assms(2) 4(2) by (simp add: list_all2_update_cong)
  moreover have "canon (FullN (ts[unat x := t1]))" by (rule canon_Full_upd [OF assms(1) br(3) 4(4,3)])
  ultimately show ?thesis
    unfolding inserted_def using lookup_branch_upd [OF br(1,3) 4(5)] by blast
qed

lemma insert_ok:
  assumes "canon_or_nil t" "expands db n t" "tkey key" "v \<noteq> []"
  shows "inserted db n t key v"
  using assms(1-3)
proof (induction "length key" arbitrary: key t n rule: less_induct)
  case less
  have ne: "key \<noteq> []" using less.prems(3) by auto
  obtain n' where n': "resolve db n = Some n'" "loaded n'" "expands db n' t"
    using expands_resolve [OF less.prems(2)] by blast
  have "inserted db n' t key v"
  proof (cases "t = NilN")
    case True
    then show ?thesis using expands_loaded(1) [OF n'(3,2)] insert_empty [OF less.prems(3) assms(4)] by simp
  next
    case False
    then have "canon t" using less.prems(1) by (simp add: canon_or_nil_def)
    then show ?thesis
    proof (cases rule: canon_cases)
      case (1 k w)
      have "n' = ShortN k (ValueN w)" using expands_loaded(3) [OF n'(3,2) 1(1)] expands_val by blast
      then show ?thesis using insert_leaf [OF 1(2,3) less.prems(3) assms(4)] 1(1) by simp
    next
      case (2 k cs)
      then obtain n1 where n1: "n' = ShortN k n1" "expands db n1 (FullN cs)"
        using expands_loaded(3) [OF n'(3,2) 2(1)] by blast
      have "inserted db n1 (FullN cs) r v" if "key = k @ r" "tkey r" for r
        using less.hyps [of r "FullN cs" n1] that 2(3,4) n1(2) by (simp add: canon_or_nil_def)
      then show ?thesis
        using insert_extension [OF 2(2-4) n1(2) less.prems(3) assms(4)] n1(1) 2(1) by simp
    next
      case (3 ts)
      then obtain cs where cs: "n' = FullN cs" "list_all2 (expands db) cs ts"
        using expands_loaded(4) [OF n'(3,2)] by blast
      obtain x rest where x: "key = x # rest" using ne by (cases key) auto
      have "canon (FullN ts)" using \<open>canon t\<close> 3 by simp
      then show ?thesis
        using insert_branch [OF _ cs(2) less.prems(3) [unfolded x] assms(4)] less.hyps [of rest] x cs(1) 3 by simp
    qed
  qed
  then show ?case unfolding inserted_def op_resolve(2) [OF n'(1,2) ne] .
qed

section \<open>Delete\<close>

text \<open>
  The keys on which \<open>delete\<close> panics: those whose value is a child of a branch, which the switch over
  the node types does not expect.
\<close>

fun branch_value :: "node \<Rightarrow> bytes \<Rightarrow> bool" where
  "branch_value (ShortN k n) key = (take (length k) key = k \<and> branch_value n (drop (length k) key))"
| "branch_value (FullN cs) key =
     (case key of [] \<Rightarrow> False
      | x # key \<Rightarrow> unat x < length cs \<and> (if key = [] then \<exists>v. cs ! unat x = ValueN v else branch_value (cs ! unat x) key))"
| "branch_value _ key = False"

definition removed :: "node_db option \<Rightarrow> node \<Rightarrow> node \<Rightarrow> bytes \<Rightarrow> bool" where
  "removed db n t key \<longleftrightarrow>
     (if branch_value t key then trie_delete db n key = None
      else \<exists>n' t'. trie_delete db n key = Some n' \<and> loaded n' \<and> expands db n' t' \<and> canon_or_nil t' \<and>
         lookup t' = (lookup t)(key := None))"

lemma trie_delete_Short:
  "\<not> (\<exists>r. key = k @ r) \<Longrightarrow> trie_delete db (ShortN k n) key = Some (ShortN k n)"
  "trie_delete db (ShortN k n) k = Some NilN"
  "r \<noteq> [] \<Longrightarrow> trie_delete db (ShortN k n) (k @ r) =
     Option.bind (trie_delete db n r) (\<lambda>child. case child of ShortN k' v' \<Rightarrow> Some (ShortN (k @ k') v') | _ \<Rightarrow> Some (ShortN k child))"
proof -
  show "trie_delete db (ShortN k n) key = Some (ShortN k n)" if no: "\<not> (\<exists>r. key = k @ r)"
  proof -
    have "prefixLen key k \<noteq> length k" using prefixLen_take [of key k] no by (metis append_take_drop_id take_all_iff order.refl)
    then have "prefixLen key k < length k" using prefixLen_le(2) [of key k] by simp
    then show ?thesis by (subst trie_delete.simps) (simp add: Let_def)
  qed
  have full: "prefixLen (k @ r) k = length k" for r using prefixLen_append [of k r "[]"] by simp
  show "trie_delete db (ShortN k n) k = Some NilN"
    using full [of "[]"] by (subst trie_delete.simps) (simp add: Let_def)
  show "trie_delete db (ShortN k n) (k @ r) =
     Option.bind (trie_delete db n r) (\<lambda>child. case child of ShortN k' v' \<Rightarrow> Some (ShortN (k @ k') v') | _ \<Rightarrow> Some (ShortN k child))"
    if "r \<noteq> []"
    using full [of r] that by (subst trie_delete.simps) (simp add: Let_def concat_keys_def cong: node.case_cong)
qed

lemma remove_empty: "removed db NilN NilN key"
proof -
  have "trie_delete db NilN key = Some NilN" by (subst trie_delete.simps) simp
  moreover have "lookup NilN = (lookup NilN)(key := None)" by (rule ext) simp
  moreover have "canon_or_nil NilN" "expands db NilN NilN" "\<not> branch_value NilN key" by (simp_all add: canon_or_nil_def)
  ultimately show ?thesis unfolding removed_def using loaded_simps(1) by metis
qed

lemma remove_leaf:
  assumes "tkey k" "w \<noteq> []" "tkey key"
  shows "removed db (ShortN k (ValueN w)) (ShortN k (ValueN w)) key"
proof (cases "key = k")
  case True
  have "lookup NilN = (lookup (ShortN k (ValueN w)))(key := None)"
    unfolding True by (rule ext) (simp only: lookup_leaf fun_upd_apply lookup.simps(4) split: if_split, simp)
  then show ?thesis
    unfolding removed_def True by (auto simp: trie_delete_Short canon_or_nil_def intro!: exI [of _ NilN])
next
  case False
  then have no: "\<not> (\<exists>r. key = k @ r)" using tkey_prefix [OF assms(1)] assms(3) by auto
  have "lookup (ShortN k (ValueN w)) = (lookup (ShortN k (ValueN w)))(key := None)"
    using False by (intro ext) (simp add: lookup_leaf del: lookup.simps)
  then show ?thesis
    unfolding removed_def using assms
    by (auto simp: trie_delete_Short(1) [OF no] canon_or_nil_def intro!: exI [of _ "ShortN k (ValueN w)"])
qed

text \<open>The keys of an extension are those below its branch.\<close>

lemma prefix_iff: "take (length k) key = k \<longleftrightarrow> (\<exists>r. key = k @ r)"
  by (metis append_eq_conv_conj append_take_drop_id)

lemma remove_merge:
  assumes "canon t1" "expands db n1 t1" "loaded n1" "nibs k" "k \<noteq> []"
  shows "\<exists>n' t'. (case n1 of ShortN k' v' \<Rightarrow> Some (ShortN (k @ k') v') | _ \<Rightarrow> Some (ShortN k n1)) = Some n' \<and>
     loaded n' \<and> expands db n' t' \<and> canon t' \<and> lookup t' = lookup (ShortN k t1)"
  using assms(1)
proof (cases rule: canon_cases)
  case (1 k' w)
  then have "n1 = ShortN k' (ValueN w)" using expands_loaded(3) [OF assms(2,3) 1(1)] expands_val by blast
  then show ?thesis
    using 1 tkey_append [OF assms(4)] lookup_Short_Short [of k k' "ValueN w"]
    by (intro exI [of _ "ShortN (k @ k') (ValueN w)"]) (simp del: lookup.simps)
next
  case (2 k' cs)
  then obtain m where "n1 = ShortN k' m" "expands db m (FullN cs)" using expands_loaded(3) [OF assms(2,3) 2(1)] by blast
  then show ?thesis
    using 2 assms(4,5) lookup_Short_Short [of k k' "FullN cs"]
    by (intro exI [of _ "ShortN (k @ k') m"] exI [of _ "ShortN (k @ k') (FullN cs)"]) (simp del: lookup.simps)
next
  case (3 cs)
  then obtain ms where "n1 = FullN ms" using expands_loaded(4) [OF assms(2,3)] by blast
  then show ?thesis
    using assms 3 by (intro exI [of _ "ShortN k n1"] exI [of _ "ShortN k t1"]) (simp del: lookup.simps)
qed

text \<open>A branch holds at least two keys, so one is left when one is deleted.\<close>

lemma branch_not_emptied:
  assumes "canon (FullN cs)"
  shows "(lookup (FullN cs))(r := None) \<noteq> lookup NilN"
proof
  assume eq: "(lookup (FullN cs))(r := None) = lookup NilN"
  obtain x y kx ky where xy: "x \<noteq> y" "lookup (FullN cs) (x # kx) \<noteq> None" "lookup (FullN cs) (y # ky) \<noteq> None"
    using canon_Full_two [OF assms] by blast
  have "x # kx = r" "y # ky = r"
    using eq xy(2,3) by (metis fun_upd_other lookup.simps(4))+
  then show False using xy(1) by auto
qed

lemma remove_extension:
  assumes "nibs k" "k \<noteq> []" "canon (FullN cs)" "expands db n1 (FullN cs)" "tkey key"
    and IH: "\<And>r. key = k @ r \<Longrightarrow> tkey r \<Longrightarrow> removed db n1 (FullN cs) r"
  shows "removed db (ShortN k n1) (ShortN k (FullN cs)) key"
proof (cases "\<exists>r. key = k @ r")
  case True
  then obtain r where r: "key = k @ r" by blast
  have tr: "tkey r" using assms(5) tkey_append [OF assms(1)] r by simp
  then have ne: "r \<noteq> []" by auto
  note ih = IH [OF r tr, unfolded removed_def]
  have bv: "branch_value (ShortN k (FullN cs)) key = branch_value (FullN cs) r" unfolding r by simp
  show ?thesis
  proof (cases "branch_value (FullN cs) r")
    case True
    then show ?thesis unfolding removed_def bv using ih trie_delete_Short(3) [OF ne] r by simp
  next
    case False
    then obtain n2 t2 where 2: "trie_delete db n1 r = Some n2" "loaded n2" "expands db n2 t2" "canon_or_nil t2"
      "lookup t2 = (lookup (FullN cs))(r := None)"
      using ih by auto
    have "canon t2" using branch_not_emptied [OF assms(3), of r] 2(4,5) unfolding canon_or_nil_def by metis
    then obtain n' t' where "(case n2 of ShortN k' v' \<Rightarrow> Some (ShortN (k @ k') v') | _ \<Rightarrow> Some (ShortN k n2)) = Some n'"
      "loaded n'" "expands db n' t'" "canon t'" "lookup t' = lookup (ShortN k t2)"
      using remove_merge [OF _ 2(3,2) assms(1,2)] by blast
    moreover have "lookup (ShortN k t2) = (lookup (ShortN k (FullN cs)))(key := None)"
      unfolding r by (rule lookup_Short_upd [OF 2(5)])
    ultimately show ?thesis
      unfolding removed_def bv using False r trie_delete_Short(3) [OF ne, of db k n1] 2(1)
      by (auto simp: canon_or_nil_def simp del: lookup.simps)
  qed
next
  case False
  then have no: "take (length k) key \<noteq> k" using prefix_iff by blast
  have "lookup (ShortN k (FullN cs)) = (lookup (ShortN k (FullN cs)))(key := None)"
    using no by (auto simp: fun_eq_iff)
  moreover have nbv: "\<not> branch_value (ShortN k (FullN cs)) key" using no by simp
  moreover have "expands db (ShortN k n1) (ShortN k (FullN cs))" "canon_or_nil (ShortN k (FullN cs))"
    using assms(1-4) by (simp_all add: canon_or_nil_def)
  ultimately show ?thesis
    unfolding removed_def if_not_P [OF nbv] using trie_delete_Short(1) [OF False] loaded_simps(3) by blast
qed

section \<open>Collapsing a branch\<close>

lemma only_child_none: "\<forall>c\<in>set cs. c = NilN \<Longrightarrow> only_child i pos cs = pos"
  by (induction cs arbitrary: i) simp_all

lemma only_child_more: "\<exists>c\<in>set cs. c \<noteq> NilN \<Longrightarrow> pos \<noteq> -1 \<Longrightarrow> only_child i pos cs = -2"
  by (induction cs arbitrary: i) auto

lemma only_child_one:
  assumes "p < length cs" "cs ! p \<noteq> NilN" "\<And>j. j < length cs \<Longrightarrow> j \<noteq> p \<Longrightarrow> cs ! j = NilN"
  shows "only_child i (-1) cs = int (i + p)"
  using assms
proof (induction cs arbitrary: i p)
  case (Cons c cs)
  show ?case
  proof (cases p)
    case 0
    have "cs ! j = NilN" if "j < length cs" for j using Cons.prems(3) [of "Suc j"] that 0 by simp
    then have "\<forall>c\<in>set cs. c = NilN" by (metis in_set_conv_nth)
    then show ?thesis using Cons.prems(2) 0 by (simp add: only_child_none)
  next
    case (Suc q)
    have "c = NilN" using Cons.prems(3) [of 0] Suc by simp
    moreover have "cs ! j = NilN" if "j < length cs" "j \<noteq> q" for j using Cons.prems(3) [of "Suc j"] that Suc by simp
    then have "only_child (i + 1) (-1) cs = int (i + 1 + q)" using Cons.prems(1,2) Suc by (intro Cons.IH) simp_all
    ultimately show ?thesis using Suc by simp
  qed
qed simp

lemma only_child_two:
  assumes "j < k" "k < length cs" "cs ! j \<noteq> NilN" "cs ! k \<noteq> NilN"
  shows "only_child i (-1) cs = -2"
  using assms
proof (induction cs arbitrary: i j k)
  case (Cons c cs)
  obtain k' where k: "k = Suc k'" using Cons.prems(1) by (cases k) auto
  have ex: "\<exists>c\<in>set cs. c \<noteq> NilN" using Cons.prems k by (metis Suc_less_eq length_Cons nth_Cons_Suc nth_mem)
  show ?case
  proof (cases "c = NilN")
    case False
    then show ?thesis using only_child_more [OF ex, of "int i"] by simp
  next
    case True
    then obtain j' where "j = Suc j'" using Cons.prems(3) by (cases j) auto
    then show ?thesis using Cons.IH [of j' k' "i + 1"] Cons.prems k True by simp
  qed
qed simp

text \<open>A branch with one child left.\<close>

lemma lookup_only_child:
  assumes "length ts = 17" "p < 17" "\<And>j. j < 17 \<Longrightarrow> j \<noteq> p \<Longrightarrow> ts ! j = NilN"
  shows "lookup (FullN ts) = lookup (ShortN [word_of_nat p] (ts ! p))"
proof
  fix z
  show "lookup (FullN ts) z = lookup (ShortN [word_of_nat p] (ts ! p)) z"
  proof (cases z)
    case (Cons x r)
    have "x = word_of_nat p \<longleftrightarrow> unat x = p" using assms(2) slot_byte [of p] by (auto simp: word_unat_eq_iff)
    then show ?thesis using assms Cons by auto
  qed simp
qed

definition collapse :: "node_db option \<Rightarrow> node list \<Rightarrow> node option" where
  "collapse db cs =
     (let pos = only_child 0 (-1) cs in
      if pos \<ge> 0 then
        if pos \<noteq> 16 then
          Option.bind (resolve db (cs ! nat pos)) (\<lambda>cnode.
            case cnode of
              ShortN k v \<Rightarrow> Some (ShortN (word_of_int pos # k) v)
            | _ \<Rightarrow> Some (ShortN [word_of_int pos] (cs ! nat pos)))
        else Some (ShortN [word_of_int pos] (cs ! nat pos))
      else Some (FullN cs))"

lemma trie_delete_Full:
  "trie_delete db (FullN cs) (x # rest) =
     Option.bind (index cs (unat x)) (\<lambda>c. Option.bind (trie_delete db c rest) (\<lambda>c. collapse db (cs[unat x := c])))"
  unfolding collapse_def Let_def by (subst trie_delete.simps) (simp add: index_def Let_def)

lemma collapse_one:
  assumes "list_all2 (expands db) cs ts" "length ts = 17" "p < 17" "slot_ok p (ts ! p)" "ts ! p \<noteq> NilN"
    and nil: "\<And>j. j < 17 \<Longrightarrow> j \<noteq> p \<Longrightarrow> ts ! j = NilN"
  shows "\<exists>n' t'. collapse db cs = Some n' \<and> loaded n' \<and> expands db n' t' \<and> canon t' \<and> lookup t' = lookup (FullN ts)"
proof -
  have len: "length cs = 17" using assms(1,2) list_all2_lengthD by force
  have ex: "expands db (cs ! j) (ts ! j)" if "j < 17" for j using list_all2_nthD [OF assms(1)] len that by simp
  have nil': "cs ! j = NilN \<longleftrightarrow> ts ! j = NilN" if "j < 17" for j using expands_nil_iff [OF ex [OF that]] .
  have pos: "only_child 0 (-1) cs = int p"
    using only_child_one [of p cs 0] len assms(3,5) nil nil' by simp
  have w: "(word_of_int (int p) :: byte) = word_of_nat p" by simp
  note lk = lookup_only_child [OF assms(2,3) nil]
  show ?thesis
  proof (cases "p = 16")
    case True
    then obtain v where v: "ts ! p = ValueN v" "v \<noteq> []" using assms(4,5) by (auto simp: slot_ok_def)
    then have "cs ! p = ValueN v" using ex [OF assms(3)] expands_val by simp
    then have "collapse db cs = Some (ShortN [16] (ValueN v))" using pos True by (simp add: collapse_def)
    then show ?thesis
      using v lk True by (intro exI [of _ "ShortN [16] (ValueN v)"]) (simp add: tkey_Cons del: lookup.simps)
  next
    case False
    then have c: "canon (ts ! p)" and p16: "p < 16" using assms(3-5) by (auto simp: slot_ok_def)
    have nb: "nibs [word_of_nat p]" using p16 slot_byte [of p] by (simp add: word_less_nat_alt)
    obtain m where m: "resolve db (cs ! p) = Some m" "loaded m" "expands db m (ts ! p)"
      using expands_resolve [OF ex [OF assms(3)]] by blast
    have col: "collapse db cs = (case m of ShortN k v \<Rightarrow> Some (ShortN (word_of_nat p # k) v)
        | _ \<Rightarrow> Some (ShortN [word_of_nat p] (cs ! p)))"
      using pos False m(1) by (simp add: collapse_def)
    show ?thesis
    proof (cases "\<exists>ts'. ts ! p = FullN ts'")
      case True
      then obtain ts' ms where "ts ! p = FullN ts'" "m = FullN ms" using expands_loaded(4) [OF m(3,2)] by blast
      then show ?thesis
        using col ex [OF assms(3)] c nb lk
        by (intro exI [of _ "ShortN [word_of_nat p] (cs ! p)"] exI [of _ "ShortN [word_of_nat p] (ts ! p)"])
           (simp del: lookup.simps)
    next
      case F: False
      obtain k u where u: "ts ! p = ShortN k u" using c F by (cases rule: canon_cases) auto
      then obtain mu where "m = ShortN k mu" using expands_loaded(3) [OF m(3,2)] by blast
      then have "collapse db cs = (case m of ShortN k' v' \<Rightarrow> Some (ShortN ([word_of_nat p] @ k') v')
          | _ \<Rightarrow> Some (ShortN [word_of_nat p] m))"
        using col by simp
      then show ?thesis
        using remove_merge [OF c m(3,2) nb] lk by (simp del: lookup.simps)
    qed
  qed
qed

lemma collapse_ok:
  assumes "canon (FullN ts0)" "list_all2 (expands db) cs ts" "ts = ts0[i := t1]" "i < 17"
    and "t1 = NilN \<or> slot_ok i t1"
  shows "\<exists>n' t'. collapse db cs = Some n' \<and> loaded n' \<and> expands db n' t' \<and> canon t' \<and> lookup t' = lookup (FullN ts)"
proof -
  have ts0: "length ts0 = 17" "\<forall>j<17. slot_ok j (ts0 ! j)" using assms(1) unfolding canon_Full by blast+
  have len: "length ts = 17" "length cs = 17" using ts0(1) assms(3) list_all2_lengthD [OF assms(2)] by simp_all
  have ok: "slot_ok j (ts ! j)" if "j < 17" for j
    using ts0 assms(3,4,5) that by (auto simp: nth_list_update slot_ok_def)
  obtain a b where ab: "a < b" "b < 17" "ts0 ! a \<noteq> NilN" "ts0 ! b \<noteq> NilN" using canon_Full_children [OF assms(1)] by blast
  define p where "p = (if a = i then b else a)"
  have p: "p < 17" "ts ! p \<noteq> NilN" using ab assms(3,4) ts0(1) by (auto simp: p_def nth_list_update)
  have nil': "cs ! j = NilN \<longleftrightarrow> ts ! j = NilN" if "j < 17" for j
    using expands_nil_iff [OF list_all2_nthD [OF assms(2), of j]] len that by simp
  show ?thesis
  proof (cases "\<exists>q<17. q \<noteq> p \<and> ts ! q \<noteq> NilN")
    case False
    then show ?thesis using collapse_one [OF assms(2) len(1) p(1) ok [OF p(1)] p(2)] by blast
  next
    case True
    then obtain q where q: "q < 17" "q \<noteq> p" "ts ! q \<noteq> NilN" by blast
    have two: "\<exists>j k. j < k \<and> k < 17 \<and> ts ! j \<noteq> NilN \<and> ts ! k \<noteq> NilN"
      using p q by (metis nat_neq_iff)
    then obtain j k where jk: "j < k" "k < 17" "ts ! j \<noteq> NilN" "ts ! k \<noteq> NilN" by blast
    have "canon (FullN ts)" unfolding canon_Full two_children_iff using two ok len by simp
    moreover have "only_child 0 (-1) cs = -2" using only_child_two [of j k cs 0] jk nil' len by simp
    ultimately show ?thesis
      using assms(2) by (intro exI [of _ "FullN cs"] exI [of _ "FullN ts"]) (simp add: collapse_def del: lookup.simps)
  qed
qed

lemma remove_branch:
  assumes "canon (FullN ts)" "list_all2 (expands db) cs ts" "tkey (x # rest)"
    and IH: "rest \<noteq> [] \<Longrightarrow> tkey rest \<Longrightarrow> canon_or_nil (ts ! unat x) \<Longrightarrow> expands db (cs ! unat x) (ts ! unat x) \<Longrightarrow>
      removed db (cs ! unat x) (ts ! unat x) rest"
  shows "removed db (FullN cs) (FullN ts) (x # rest)"
proof -
  note br = branch_children [OF assms(1-3)]
  have del: "trie_delete db (FullN cs) (x # rest) =
      Option.bind (trie_delete db (cs ! unat x) rest) (\<lambda>c. collapse db (cs[unat x := c]))"
    using br(2,3) by (simp add: trie_delete_Full index_def)
  show ?thesis
  proof (cases "branch_value (FullN ts) (x # rest)")
    case True
    then have "trie_delete db (cs ! unat x) rest = None"
    proof (cases "rest = []")
      case r: True
      then obtain v where "ts ! unat x = ValueN v" using True by auto
      then have "cs ! unat x = ValueN v" using br(4) expands_val by simp
      then show ?thesis using r by (subst trie_delete.simps) simp
    next
      case False
      have "tkey rest" using assms(3) False by (simp add: tkey_Cons)
      then have "removed db (cs ! unat x) (ts ! unat x) rest"
        using IH [OF False _ _ br(4)] br(5) False by (simp add: slot_of_def)
      moreover have "branch_value (ts ! unat x) rest" using True False by (simp split: if_splits)
      ultimately show ?thesis by (simp add: removed_def)
    qed
    then show ?thesis using True del by (simp add: removed_def)
  next
    case False
    have "\<exists>n1 t1. trie_delete db (cs ! unat x) rest = Some n1 \<and> expands db n1 t1 \<and> (t1 = NilN \<or> slot_ok (unat x) t1) \<and>
        lookup t1 = (lookup (ts ! unat x))(rest := None)"
    proof (cases "rest = []")
      case True
      then have "ts ! unat x = NilN" using False br(1,3,5) by (auto simp: slot_of_def)
      then show ?thesis
        using br(4) expands_nil_iff [OF br(4)] by (auto simp: trie_delete.simps [of db NilN] fun_eq_iff)
    next
      case r: False
      then have x: "x < 16" "tkey rest" using assms(3) by (simp_all add: tkey_Cons)
      have "\<not> branch_value (ts ! unat x) rest" using False r br(1,3) by simp
      moreover have "removed db (cs ! unat x) (ts ! unat x) rest"
        using IH [OF r x(2) _ br(4)] br(5) r by (simp add: slot_of_def)
      ultimately show ?thesis
        using unat_slot(1) [OF x(1)] by (auto simp: removed_def slot_ok_def canon_or_nil_def)
    qed
    then obtain n1 t1 where 1: "trie_delete db (cs ! unat x) rest = Some n1" "expands db n1 t1"
      "t1 = NilN \<or> slot_ok (unat x) t1" "lookup t1 = (lookup (ts ! unat x))(rest := None)" by blast
    have "list_all2 (expands db) (cs[unat x := n1]) (ts[unat x := t1])"
      using assms(2) 1(2) by (rule list_all2_update_cong)
    from collapse_ok [OF assms(1) this refl br(3) 1(3)] obtain n' t' where
      "collapse db (cs[unat x := n1]) = Some n'" "loaded n'" "expands db n' t'" "canon t'"
      "lookup t' = lookup (FullN (ts[unat x := t1]))" by blast
    then show ?thesis
      unfolding removed_def using False del 1(1) lookup_branch_upd [OF br(1,3) 1(4)]
      by (auto simp: canon_or_nil_def simp del: lookup.simps)
  qed
qed

lemma remove_ok:
  assumes "canon_or_nil t" "expands db n t" "tkey key"
  shows "removed db n t key"
  using assms
proof (induction "length key" arbitrary: key t n rule: less_induct)
  case less
  obtain n' where n': "resolve db n = Some n'" "loaded n'" "expands db n' t"
    using expands_resolve [OF less.prems(2)] by blast
  have "removed db n' t key"
  proof (cases "t = NilN")
    case True
    then show ?thesis using expands_loaded(1) [OF n'(3,2)] remove_empty by simp
  next
    case False
    then have "canon t" using less.prems(1) by (simp add: canon_or_nil_def)
    then show ?thesis
    proof (cases rule: canon_cases)
      case (1 k w)
      have "n' = ShortN k (ValueN w)" using expands_loaded(3) [OF n'(3,2) 1(1)] expands_val by blast
      then show ?thesis using remove_leaf [OF 1(2,3) less.prems(3)] 1(1) by simp
    next
      case (2 k cs)
      then obtain n1 where n1: "n' = ShortN k n1" "expands db n1 (FullN cs)"
        using expands_loaded(3) [OF n'(3,2) 2(1)] by blast
      have "removed db n1 (FullN cs) r" if "key = k @ r" "tkey r" for r
        using less.hyps [of r "FullN cs" n1] that 2(3,4) n1(2) by (simp add: canon_or_nil_def)
      then show ?thesis
        using remove_extension [OF 2(2-4) n1(2) less.prems(3)] n1(1) 2(1) by simp
    next
      case (3 ts)
      then obtain cs where cs: "n' = FullN cs" "list_all2 (expands db) cs ts"
        using expands_loaded(4) [OF n'(3,2)] by blast
      obtain x rest where x: "key = x # rest" using less.prems(3) by (cases key) auto
      have "canon (FullN ts)" using \<open>canon t\<close> 3 by simp
      then show ?thesis
        using remove_branch [OF _ cs(2) less.prems(3) [unfolded x]] less.hyps [of rest] x cs(1) 3 by simp
    qed
  qed
  then show ?case unfolding removed_def op_resolve(3) [OF n'(1,2)] .
qed

end
