(* ===== verification/Trie_Map.thy ===== *)
theory Trie_Map
  imports Trie_Ops
begin

text \<open>
  The trie and the trie with hashed keys as maps from byte strings to values, with the panics of
  \<open>Get\<close> and \<open>Delete\<close> stated over the map.
\<close>

section \<open>Where the panics are\<close>

text \<open>\<open>Get\<close> panics on a key that has no value but at which two longer keys part.\<close>

lemma extension_keys:
  assumes "nibs k" "lookup (ShortN k t) (h @ x # a) \<noteq> None" "lookup (ShortN k t) (h @ y # b) \<noteq> None" "x \<noteq> y"
  shows "\<exists>h'. h = k @ h' \<and> lookup t (h' @ x # a) \<noteq> None \<and> lookup t (h' @ y # b) \<noteq> None"
proof -
  obtain r where r: "h @ x # a = k @ r" "lookup t r \<noteq> None" using lookup_ShortE [OF assms(2)] by metis
  obtain s where s: "h @ y # b = k @ s" "lookup t s \<noteq> None" using lookup_ShortE [OF assms(3)] by metis
  have "\<exists>h'. h = k @ h'"
  proof (rule ccontr)
    assume "\<nexists>h'. h = k @ h'"
    then obtain u where "u \<noteq> []" "k = h @ u" using r(1) by (auto simp: append_eq_append_conv2)
    then have "x # a = u @ r" "y # b = u @ s" using r(1) s(1) by simp_all
    then show False using assms(4) \<open>u \<noteq> []\<close> by (cases u) auto
  qed
  then obtain h' where "h = k @ h'" by blast
  then show ?thesis using r s by (intro exI [of _ h']) auto
qed

lemma extension_key:
  assumes "nibs k" "take (length k) (h @ [16]) = k"
  obtains h' where "h = k @ h'"
proof -
  obtain r where r: "h @ [16] = k @ r" using assms(2) by (metis append_take_drop_id)
  have "r \<noteq> []"
  proof
    assume "r = []"
    then have "nibs (h @ [16])" using r assms(1) by simp
    then show False by simp
  qed
  then have "h = k @ butlast r" using r by (metis butlast_append butlast_snoc)
  then show ?thesis using that by blast
qed

lemma dead_end_iff:
  assumes "canon_or_nil t" "nibs h"
  shows "dead_end t (h @ [16]) \<longleftrightarrow> lookup t (h @ [16]) = None \<and>
    (\<exists>x y a b. x \<noteq> y \<and> lookup t (h @ x # a) \<noteq> None \<and> lookup t (h @ y # b) \<noteq> None)"
  using assms
proof (induction "length h" arbitrary: h t rule: less_induct)
  case less
  show ?case
  proof (cases "t = NilN")
    case False
    then have "canon t" using less.prems(1) by (simp add: canon_or_nil_def)
    then show ?thesis
    proof (cases rule: canon_cases)
      case (1 k v)
      then show ?thesis unfolding 1(1) lookup_leaf by auto
    next
      case (2 k cs)
      have IH: "dead_end (FullN cs) (h' @ [16]) \<longleftrightarrow> lookup (FullN cs) (h' @ [16]) = None \<and>
          (\<exists>x y a b. x \<noteq> y \<and> lookup (FullN cs) (h' @ x # a) \<noteq> None \<and> lookup (FullN cs) (h' @ y # b) \<noteq> None)"
        if "h = k @ h'" for h'
        using less.hyps [of h' "FullN cs"] that 2(3,4) less.prems(2) by (simp add: canon_or_nil_def)
      show ?thesis
      proof (cases "\<exists>h'. h = k @ h'")
        case True
        then obtain h' where h: "h = k @ h'" by blast
        have "lookup (ShortN k (FullN cs)) (h @ r) = lookup (FullN cs) (h' @ r)" for r
          unfolding h append_assoc lookup_Short_append ..
        then show ?thesis unfolding 2(1) using IH [OF h] h by (simp del: lookup.simps dead_end.simps(3))
      next
        case no: False
        then have "\<not> dead_end (ShortN k (FullN cs)) (h @ [16])"
          using extension_key [OF 2(2)] by (auto simp del: dead_end.simps(3))
        then show ?thesis unfolding 2(1) using extension_keys [OF 2(2), of "FullN cs" h] no by blast
      qed
    next
      case (3 cs)
      have cs: "length cs = 17" "\<forall>i<17. slot_ok i (cs ! i)" using \<open>canon t\<close> unfolding 3 canon_Full by blast+
      show ?thesis
      proof (cases h)
        case Nil
        have "slot_ok 16 (cs ! 16)" using cs(2) by simp
        then have "dead_end (cs ! 16) [] \<longleftrightarrow> lookup (cs ! 16) [] = None" by (auto simp: slot_ok_def)
        moreover have "\<exists>x y a b. x \<noteq> y \<and> lookup (FullN cs) (x # a) \<noteq> None \<and> lookup (FullN cs) (y # b) \<noteq> None"
          using canon_Full_two [of cs] \<open>canon t\<close> 3 by metis
        ultimately show ?thesis unfolding 3 Nil using cs(1) by (simp add: unat_slot(2) del: lookup.simps(3)) (simp add: unat_slot(2))
      next
        case (Cons z h')
        have z: "unat z < 16" "nibs h'" using less.prems(2) Cons unat_slot(1) by auto
        have "slot_ok (unat z) (cs ! unat z)" using cs(2) z(1) by simp
        then have "canon_or_nil (cs ! unat z)" using z(1) by (auto simp: slot_ok_def canon_or_nil_def)
        then show ?thesis
          unfolding 3 Cons using less.hyps [of h' "cs ! unat z"] Cons z cs(1) by simp
      qed
    qed
  qed simp
qed

text \<open>\<open>Delete\<close> panics on a key that has a value and is a proper prefix of another one.\<close>

lemma branch_value_iff:
  assumes "canon_or_nil t" "nibs h"
  shows "branch_value t (h @ [16]) \<longleftrightarrow> lookup t (h @ [16]) \<noteq> None \<and> (\<exists>x a. x \<noteq> 16 \<and> lookup t (h @ x # a) \<noteq> None)"
  using assms
proof (induction "length h" arbitrary: h t rule: less_induct)
  case less
  show ?case
  proof (cases "t = NilN")
    case False
    then have "canon t" using less.prems(1) by (simp add: canon_or_nil_def)
    then show ?thesis
    proof (cases rule: canon_cases)
      case (1 k v)
      then show ?thesis unfolding 1(1) lookup_leaf by auto
    next
      case (2 k cs)
      have IH: "branch_value (FullN cs) (h' @ [16]) \<longleftrightarrow> lookup (FullN cs) (h' @ [16]) \<noteq> None \<and>
          (\<exists>x a. x \<noteq> 16 \<and> lookup (FullN cs) (h' @ x # a) \<noteq> None)" if "h = k @ h'" for h'
        using less.hyps [of h' "FullN cs"] that 2(3,4) less.prems(2) by (simp add: canon_or_nil_def)
      show ?thesis
      proof (cases "\<exists>h'. h = k @ h'")
        case True
        then obtain h' where h: "h = k @ h'" by blast
        have "lookup (ShortN k (FullN cs)) (h @ r) = lookup (FullN cs) (h' @ r)" for r
          unfolding h append_assoc lookup_Short_append ..
        then show ?thesis unfolding 2(1) using IH [OF h] h by (simp del: lookup.simps branch_value.simps(2))
      next
        case no: False
        then have "\<not> branch_value (ShortN k (FullN cs)) (h @ [16])"
          using extension_key [OF 2(2)] by (auto simp del: branch_value.simps(2))
        then show ?thesis unfolding 2(1) using extension_keys [OF 2(2), of "FullN cs" h 16 "[]"] no by blast
      qed
    next
      case (3 cs)
      have cs: "length cs = 17" "\<forall>i<17. slot_ok i (cs ! i)" using \<open>canon t\<close> unfolding 3 canon_Full by blast+
      show ?thesis
      proof (cases h)
        case Nil
        have "slot_ok 16 (cs ! 16)" using cs(2) by simp
        then have "(\<exists>v. cs ! 16 = ValueN v) \<longleftrightarrow> lookup (cs ! 16) [] \<noteq> None" by (auto simp: slot_ok_def)
        moreover have "\<exists>x a. x \<noteq> 16 \<and> lookup (FullN cs) (x # a) \<noteq> None"
          using canon_Full_two [of cs] \<open>canon t\<close> 3 by metis
        ultimately show ?thesis unfolding 3 Nil using cs(1) by (simp add: unat_slot(2) del: lookup.simps(3)) (simp add: unat_slot(2))
      next
        case (Cons z h')
        have z: "unat z < 16" "nibs h'" using less.prems(2) Cons unat_slot(1) by auto
        have "slot_ok (unat z) (cs ! unat z)" using cs(2) z(1) by simp
        then have "canon_or_nil (cs ! unat z)" using z(1) by (auto simp: slot_ok_def canon_or_nil_def)
        then show ?thesis
          unfolding 3 Cons using less.hyps [of h' "cs ! unat z"] Cons z cs(1) by simp
      qed
    qed
  qed simp
qed

section \<open>The map of a trie\<close>

text \<open>The map over the nibbles of the keys, and the tries that hold a map.\<close>

definition hex_map :: "(bytes \<rightharpoonup> bytes) \<Rightarrow> (bytes \<rightharpoonup> bytes)" where
  "hex_map m k = (if compactHexDecode (decodeCompact k) = k then m (decodeCompact k) else None)"

definition trie_map :: "trie \<Rightarrow> (bytes \<rightharpoonup> bytes) \<Rightarrow> bool" where
  "trie_map t m \<longleftrightarrow> (\<exists>tree. expands (t_db t) (t_root t) tree \<and> canon_or_nil tree \<and> lookup tree = hex_map m)"

lemma hex_map_key [simp]: "hex_map m (compactHexDecode key) = m key"
  by (simp add: hex_map_def decodeCompact_HexDecode)

lemma hex_map_upd: "hex_map (m(key := v)) = (hex_map m)(compactHexDecode key := v)"
  by (auto simp: hex_map_def fun_eq_iff decodeCompact_HexDecode)

lemma hex_map_Some: "hex_map m k = Some v \<Longrightarrow> \<exists>key. k = compactHexDecode key \<and> m key = Some v"
  unfolding hex_map_def by (metis option.distinct(1))

lemma hex_map_empty: "hex_map Map.empty = Map.empty"
  by (auto simp: hex_map_def)

definition nibbles :: "bytes \<Rightarrow> bytes" where
  "nibbles str = concat (map (\<lambda>b. [b div 16, b mod 16]) str)"

lemma nibbles_simps [simp]: "nibbles [] = []" "nibbles (b # str) = b div 16 # b mod 16 # nibbles str"
  by (simp_all add: nibbles_def)

lemma compactHexDecode_nibbles: "compactHexDecode str = nibbles str @ [16]"
  by (simp add: nibbles_def compactHexDecode_def)

lemma nibs_nibbles: "nibs (nibbles str)"
  using tkey_compactHexDecode [of str] by (simp add: compactHexDecode_nibbles)

lemma nibbles_append: "nibbles (a @ b) = nibbles a @ nibbles b"
  by (simp add: nibbles_def)

text \<open>A key of the map that starts with the nibbles of a string is the string or extends it.\<close>

lemma nibbles_prefix:
  assumes "nibbles key @ x # a = nibbles str @ [16]"
  shows "x = 16 \<and> str = key \<or> (\<exists>b r. str = key @ b # r \<and> x = b div 16)"
  using assms
proof (induction key arbitrary: str)
  case Nil
  then show ?case by (cases str) auto
next
  case (Cons c key)
  then obtain d str' where str: "str = d # str'" by (cases str) auto
  have "c div 16 = d div 16" "c mod 16 = d mod 16" using Cons.prems str by simp_all
  then have "c = d" by (metis div_mult_mod_eq)
  then show ?case using Cons.IH [of str'] Cons.prems str by simp
qed

lemma hex_map_extension:
  assumes "hex_map m (nibbles key @ x # a) \<noteq> None"
  shows "x = 16 \<and> m key \<noteq> None \<or> (\<exists>b r. m (key @ b # r) \<noteq> None \<and> x = b div 16)"
proof -
  obtain str where str: "nibbles key @ x # a = compactHexDecode str" "m str \<noteq> None"
    using hex_map_Some assms by blast
  then have "x = 16 \<and> str = key \<or> (\<exists>b r. str = key @ b # r \<and> x = b div 16)"
    using nibbles_prefix [of key x a str] by (simp add: compactHexDecode_nibbles)
  then show ?thesis using str(2) by blast
qed

lemma nibbles_extension: "nibbles key @ b div 16 # b mod 16 # nibbles r @ [16] = compactHexDecode (key @ b # r)"
  by (simp add: compactHexDecode_nibbles nibbles_append)

text \<open>The keys on which the two operations panic, over the map.\<close>

definition Get_panics :: "(bytes \<rightharpoonup> bytes) \<Rightarrow> bytes \<Rightarrow> bool" where
  "Get_panics m key \<longleftrightarrow> m key = None \<and>
     (\<exists>b r c s. m (key @ b # r) \<noteq> None \<and> m (key @ c # s) \<noteq> None \<and> b div 16 \<noteq> c div 16)"

definition Delete_panics :: "(bytes \<rightharpoonup> bytes) \<Rightarrow> bytes \<Rightarrow> bool" where
  "Delete_panics m key \<longleftrightarrow> m key \<noteq> None \<and> (\<exists>b r. m (key @ b # r) \<noteq> None)"

lemma dead_end_map:
  assumes "canon_or_nil t" "lookup t = hex_map m"
  shows "dead_end t (compactHexDecode key) \<longleftrightarrow> Get_panics m key"
proof -
  have "(\<exists>x y a b. x \<noteq> y \<and> hex_map m (nibbles key @ x # a) \<noteq> None \<and> hex_map m (nibbles key @ y # b) \<noteq> None) \<longleftrightarrow>
    (\<exists>b r c s. m (key @ b # r) \<noteq> None \<and> m (key @ c # s) \<noteq> None \<and> b div 16 \<noteq> c div 16)" (is "?l \<longleftrightarrow> ?r")
    if key: "m key = None"
  proof
    assume ?l
    then show ?r using hex_map_extension [of m key] key by metis
  next
    assume ?r
    then obtain b r c s where "m (key @ b # r) \<noteq> None" "m (key @ c # s) \<noteq> None" "b div 16 \<noteq> c div 16" by blast
    then have "hex_map m (nibbles key @ b div 16 # b mod 16 # nibbles r @ [16]) \<noteq> None"
      "hex_map m (nibbles key @ c div 16 # c mod 16 # nibbles s @ [16]) \<noteq> None" "b div 16 \<noteq> c div 16"
      unfolding nibbles_extension by simp_all
    then show ?l by blast
  qed
  then show ?thesis
    using dead_end_iff [OF assms(1) nibs_nibbles, of key, unfolded assms(2)] hex_map_key [of m key]
    unfolding Get_panics_def compactHexDecode_nibbles by metis
qed

lemma branch_value_map:
  assumes "canon_or_nil t" "lookup t = hex_map m"
  shows "branch_value t (compactHexDecode key) \<longleftrightarrow> Delete_panics m key"
proof -
  have "(\<exists>x a. x \<noteq> 16 \<and> hex_map m (nibbles key @ x # a) \<noteq> None) \<longleftrightarrow> (\<exists>b r. m (key @ b # r) \<noteq> None)" (is "?l \<longleftrightarrow> ?r")
  proof
    assume ?l
    then show ?r using hex_map_extension [of m key] by metis
  next
    assume ?r
    then obtain b r where br: "m (key @ b # r) \<noteq> None" by blast
    then have "hex_map m (nibbles key @ b div 16 # b mod 16 # nibbles r @ [16]) \<noteq> None"
      unfolding nibbles_extension by simp
    moreover have "b div 16 \<noteq> 16" using nibs_nibbles [of "[b]"] by auto
    ultimately show ?l by blast
  qed
  then show ?thesis
    using branch_value_iff [OF assms(1) nibs_nibbles, of key, unfolded assms(2)] hex_map_key [of m key]
    unfolding Delete_panics_def compactHexDecode_nibbles by metis
qed

text \<open>The operations over the map.\<close>

lemma trie_map_empty: "trie_map \<lparr>t_root = NilN, t_db = db\<rparr> Map.empty"
  by (auto simp: trie_map_def canon_or_nil_def hex_map_empty fun_eq_iff)

lemma trie_Get_map:
  assumes "trie_map t m"
  shows "trie_Get t key = (if Get_panics m key then None else Some (m key))"
proof -
  obtain tree where tree: "expands (t_db t) (t_root t) tree" "canon_or_nil tree" "lookup tree = hex_map m"
    using assms unfolding trie_map_def by blast
  have "slot_of (compactHexDecode key) tree"
    using tree(2) tkey_compactHexDecode [of key] by (auto simp: slot_of_def)
  from Get_from_ok [OF this tree(1)] show ?thesis
    unfolding trie_Get_def dead_end_map [OF tree(2,3)] tree(3) hex_map_key .
qed

lemma trie_Update_map:
  assumes "trie_map t m" "v \<noteq> []"
  shows "\<exists>t'. trie_Update t key v = Some t' \<and> trie_map t' (m(key \<mapsto> v)) \<and> t_db t' = t_db t"
proof -
  obtain tree where tree: "expands (t_db t) (t_root t) tree" "canon_or_nil tree" "lookup tree = hex_map m"
    using assms unfolding trie_map_def by blast
  obtain n t' where n: "trie_insert (t_db t) (t_root t) (compactHexDecode key) (ValueN v) = Some n"
    "expands (t_db t) n t'" "canon t'" "lookup t' = hex_map (m(key \<mapsto> v))"
    using insert_ok [OF tree(2,1) tkey_compactHexDecode assms(2), of key] tree(3)
    unfolding inserted_def hex_map_upd by metis
  then show ?thesis
    using assms(2) by (auto simp: trie_Update_def trie_map_def canon_or_nil_def)
qed

lemma trie_Delete_map:
  assumes "trie_map t m"
  shows "if Delete_panics m key then trie_Delete t key = None
    else \<exists>t'. trie_Delete t key = Some t' \<and> trie_map t' (m(key := None)) \<and> t_db t' = t_db t"
proof -
  obtain tree where tree: "expands (t_db t) (t_root t) tree" "canon_or_nil tree" "lookup tree = hex_map m"
    using assms unfolding trie_map_def by blast
  note r = remove_ok [OF tree(2,1) tkey_compactHexDecode, of key, unfolded removed_def
      branch_value_map [OF tree(2,3)] tree(3)]
  show ?thesis
  proof (cases "Delete_panics m key")
    case True
    then show ?thesis using r by (simp add: trie_Delete_def)
  next
    case False
    then obtain n t' where "trie_delete (t_db t) (t_root t) (compactHexDecode key) = Some n"
      "expands (t_db t) n t'" "canon_or_nil t'" "lookup t' = hex_map (m(key := None))"
      using r unfolding hex_map_upd by auto
    then show ?thesis using False by (auto simp: trie_Delete_def trie_map_def)
  qed
qed

lemma trie_Update_empty: "trie_Update t key [] = trie_Delete t key"
  by (simp add: trie_Update_def trie_Delete_def)

text \<open>Without a database a trie has no hashes, and the map determines it.\<close>

lemma expands_no_db: "expands None n t \<Longrightarrow> n = t"
proof (induction rule: expands.induct)
  case (exp_full cs ts)
  then have "list_all2 (=) cs ts" by (rule list_all2_mono) simp
  then show ?case by (simp add: list.rel_eq)
qed (simp_all add: resolveHash_def)

lemma trie_map_unique:
  assumes "trie_map t m" "trie_map t' m" "t_db t = None" "t_db t' = None"
  shows "t_root t = t_root t'"
proof -
  have "canon_or_nil (t_root s) \<and> lookup (t_root s) = hex_map m" if "trie_map s m" "t_db s = None" for s
    using that expands_no_db unfolding trie_map_def by metis
  then show ?thesis using canon_unique assms by metis
qed

section \<open>Properties\<close>

text \<open>
  C10. On a trie that holds the map m, whatever part of it is still in the database, Get returns the
  value of the key, or nil; Update with a value stores it; Delete removes the key. Get panics exactly
  when the key has no value and two stored keys extend it with different first nibbles, Delete exactly
  when the key has a value and a stored key extends it; Update never panics on a non-empty value.
\<close>

theorem trie_refines_map:
  assumes "trie_map t m" "v \<noteq> []"
  shows "trie_Get t key = (if Get_panics m key then None else Some (m key)) \<and>
    (\<exists>t'. trie_Update t key v = Some t' \<and> trie_map t' (m(key \<mapsto> v))) \<and>
    (if Delete_panics m key then trie_Delete t key = None
     else \<exists>t'. trie_Delete t key = Some t' \<and> trie_map t' (m(key := None)))"
  using trie_Get_map [OF assms(1), of key] trie_Update_map [OF assms, of key] trie_Delete_map [OF assms(1), of key]
  by (auto split: if_splits)

definition sample_fork :: trie where
  "sample_fork = \<lparr>t_root = FullN ((replicate 17 NilN)[1 := ShortN [2, 16] (ValueN [7]), 16 := ValueN [8]]), t_db = None\<rparr>"

lemma sample_fork_map: "trie_map sample_fork [[] \<mapsto> [8], [0x12] \<mapsto> [7]]"
proof -
  let ?e = "\<lparr>t_root = NilN, t_db = None\<rparr>"
  have "trie_Update ?e [] [8] = Some \<lparr>t_root = ShortN [16] (ValueN [8]), t_db = None\<rparr>"
    by (simp add: trie_Update_def compactHexDecode_def trie_insert.simps)
  then have 1: "trie_map \<lparr>t_root = ShortN [16] (ValueN [8]), t_db = None\<rparr> [[] \<mapsto> [8]]"
    using trie_Update_map [OF trie_map_empty [of None], of "[8]" "[]"] by simp
  have "compactHexDecode [0x12] = [1, 2, 16]" by code_simp
  then have "trie_Update \<lparr>t_root = ShortN [16] (ValueN [8]), t_db = None\<rparr> [0x12] [7] = Some sample_fork"
    by (simp add: trie_Update_def trie_insert.simps index_def sample_fork_def list_update_swap [of 16 "Suc 0"])
  then show ?thesis using trie_Update_map [OF 1, of "[7]" "[0x12]"] by simp
qed

theorem trie_refines_map_witness:
  "trie_Get sample_fork [0x12] = Some (Some [7]) \<and> trie_Delete sample_fork [] = None \<and>
   (\<exists>t'. trie_Delete sample_fork [0x12] = Some t' \<and> trie_map t' [[] \<mapsto> [8]])"
proof -
  let ?m = "[[] \<mapsto> [8], [0x12 :: byte] \<mapsto> [7 :: byte]]"
  have "\<not> Get_panics ?m [0x12]" "Delete_panics ?m []" "\<not> Delete_panics ?m [0x12]"
    by (auto simp: Get_panics_def Delete_panics_def)
  then show ?thesis
    using trie_refines_map [OF sample_fork_map, of "[1]" "[0x12]"] trie_refines_map [OF sample_fork_map, of "[1]" "[]"]
    by (auto simp: fun_upd_twist)
qed

end
