(* ===== verification/Secure_Trie.thy ===== *)
theory Secure_Trie
  imports Trie_Map
begin

text \<open>
  The interface through which the rest of the program uses tries, a store of byte strings under
  keys of which none extends another, and its providers: the trie on keys of one length and the
  trie with hashed keys of \<^verbatim>\<open>src/trie/secure_trie.go\<close>.
\<close>

section \<open>Stores\<close>

text \<open>
  \<open>holds\<close> relates a store to the map of its contents and \<open>keys\<close> are the keys the client uses. Both
  operations return on them; an empty value removes the key.
\<close>

definition put :: "(bytes \<rightharpoonup> bytes) \<Rightarrow> bytes \<Rightarrow> bytes \<Rightarrow> (bytes \<rightharpoonup> bytes)" where
  "put m k v = m(k := if v = [] then None else Some v)"

text \<open>A sequence of updates, on a store and on a map.\<close>

primrec updates :: "('s \<Rightarrow> bytes \<Rightarrow> bytes \<Rightarrow> 's option) \<Rightarrow> 's \<Rightarrow> (bytes \<times> bytes) list \<Rightarrow> 's option" where
  "updates upd s [] = Some s"
| "updates upd s (kv # kvs) = do { s \<leftarrow> upd s (fst kv) (snd kv); updates upd s kvs }"

primrec puts :: "(bytes \<rightharpoonup> bytes) \<Rightarrow> (bytes \<times> bytes) list \<Rightarrow> (bytes \<rightharpoonup> bytes)" where
  "puts m [] = m"
| "puts m (kv # kvs) = puts (put m (fst kv) (snd kv)) kvs"

locale key_store =
  fixes holds :: "'s \<Rightarrow> (bytes \<rightharpoonup> bytes) \<Rightarrow> bool"
    and keys :: "bytes set"
    and get :: "'s \<Rightarrow> bytes \<Rightarrow> bytes option option"
    and update :: "'s \<Rightarrow> bytes \<Rightarrow> bytes \<Rightarrow> 's option"
  assumes get_law: "holds s m \<Longrightarrow> k \<in> keys \<Longrightarrow> get s k = Some (m k)"
    and update_law: "holds s m \<Longrightarrow> k \<in> keys \<Longrightarrow> \<exists>s'. update s k v = Some s' \<and> holds s' (put m k v)"
begin

lemma updates_hold:
  assumes "holds s m" "fst ` set kvs \<subseteq> keys"
  shows "\<exists>s'. updates update s kvs = Some s' \<and> holds s' (puts m kvs)"
  using assms
proof (induction kvs arbitrary: s m)
  case (Cons kv kvs)
  obtain s1 where "update s (fst kv) (snd kv) = Some s1" "holds s1 (put m (fst kv) (snd kv))"
    using update_law [OF Cons.prems(1), of "fst kv" "snd kv"] Cons.prems(2) by auto
  then show ?case using Cons.IH [of s1] Cons.prems(2) by auto
qed simp

lemma read_back:
  assumes "holds s m" "fst ` set kvs \<subseteq> keys" "k \<in> keys"
  shows "\<exists>s'. updates update s kvs = Some s' \<and> get s' k = Some (puts m kvs k)"
  using updates_hold [OF assms(1,2)] get_law assms(3) by blast

end

section \<open>Keys of which none extends another\<close>

definition prefix_free :: "bytes set \<Rightarrow> bool" where
  "prefix_free K \<longleftrightarrow> (\<forall>k\<in>K. \<forall>b r. k @ b # r \<notin> K)"

definition trie_map_on :: "bytes set \<Rightarrow> trie \<Rightarrow> (bytes \<rightharpoonup> bytes) \<Rightarrow> bool" where
  "trie_map_on K t m \<longleftrightarrow> trie_map t m \<and> dom m \<subseteq> K"

lemma prefix_free_no_panic:
  assumes "prefix_free K" "dom m \<subseteq> K" "k \<in> K"
  shows "\<not> Get_panics m k" "\<not> Delete_panics m k"
proof -
  have "m (k @ b # r) = None" for b r
    using assms unfolding prefix_free_def by blast
  then show "\<not> Get_panics m k" "\<not> Delete_panics m k"
    by (simp_all add: Get_panics_def Delete_panics_def)
qed

lemma put_map_dom: "dom m \<subseteq> K \<Longrightarrow> k \<in> K \<Longrightarrow> dom (put m k v) \<subseteq> K"
  by (auto simp: put_def split: if_splits)

lemma trie_Get_on:
  assumes "prefix_free K" "trie_map_on K t m" "k \<in> K"
  shows "trie_Get t k = Some (m k)"
  using trie_Get_map [of t m k] prefix_free_no_panic [OF assms(1) _ assms(3)] assms(2)
  by (simp add: trie_map_on_def)

lemma trie_Delete_on:
  assumes "prefix_free K" "trie_map_on K t m" "k \<in> K"
  shows "\<exists>t'. trie_Delete t k = Some t' \<and> trie_map_on K t' (m(k := None)) \<and> t_db t' = t_db t"
proof -
  have "\<not> Delete_panics m k"
    using prefix_free_no_panic(2) [OF assms(1) _ assms(3)] assms(2) by (simp add: trie_map_on_def)
  then show ?thesis
    using trie_Delete_map [of t m k] assms(2) by (auto simp: trie_map_on_def)
qed

lemma trie_Update_on:
  assumes "prefix_free K" "trie_map_on K t m" "k \<in> K"
  shows "\<exists>t'. trie_Update t k v = Some t' \<and> trie_map_on K t' (put m k v) \<and> t_db t' = t_db t"
proof (cases "v = []")
  case True
  then show ?thesis
    using trie_Delete_on [OF assms] by (simp add: trie_Update_empty put_def)
next
  case False
  then show ?thesis
    using trie_Update_map [of t m v k] put_map_dom [of m K k v] assms(2,3)
    by (auto simp: trie_map_on_def put_def)
qed

lemma prefix_free_length: "prefix_free {k. length k = n}"
  by (simp add: prefix_free_def)

interpretation fixed_keys: key_store "trie_map_on {k. length k = n}" "{k. length k = n}" trie_Get trie_Update
  for n :: nat
  using trie_Get_on [OF prefix_free_length] trie_Update_on [OF prefix_free_length]
  by unfold_locales blast+

section \<open>Hashed keys\<close>

text \<open>
  \<open>secure_map cr K t m\<close>: the trie holds \<open>m\<close> under the hashes of its keys, and the database has their
  preimages. \<open>K\<close> are the keys in use, on which the hash does not collide.
\<close>

definition secure_map :: "crypto \<Rightarrow> bytes set \<Rightarrow> trie \<Rightarrow> (bytes \<rightharpoonup> bytes) \<Rightarrow> bool" where
  "secure_map cr K t m \<longleftrightarrow> crypto_ok cr \<and> inj_on (keccak256 cr) K \<and> dom m \<subseteq> K \<and>
     (\<exists>m' db. trie_map t m' \<and> dom m' \<subseteq> keccak256 cr ` K \<and> (\<forall>k\<in>K. m' (keccak256 cr k) = m k) \<and>
        t_db t = Some db \<and> (\<forall>k\<in>dom m. db (secKey (keccak256 cr k)) = Some k))"

text \<open>The preimages are stored away from the nodes, under keys that are longer than a hash.\<close>

lemma expands_cong:
  assumes "expands (Some db) n t" "\<And>h. length h = 32 \<Longrightarrow> db' h = db h"
  shows "expands (Some db') n t"
  using assms(1)
proof (induction rule: expands.induct)
  case (exp_full cs ts)
  then have "list_all2 (expands (Some db')) cs ts" by (rule list_all2_mono) simp
  then show ?case by (rule expands.exp_full)
next
  case (exp_hash h n t)
  then show ?case using assms(2) by (intro expands.exp_hash [of h _ n]) (auto simp: resolveHash_def)
qed (auto intro: expands.intros)

lemma length_secKey: "length (secKey k) = 11 + length k"
  by (simp add: secKey_def secureKeyPrefix_def)

lemma trie_map_preimage:
  assumes "trie_map t m" "t_db t = Some db" "length hk = 32"
  shows "trie_map (t\<lparr>t_db := Some (db(secKey hk \<mapsto> k))\<rparr>) m"
proof -
  have "(db(secKey hk \<mapsto> k)) h = db h" if "length h = 32" for h
    using that assms(3) length_secKey [of hk] by auto
  then show ?thesis
    using assms(1,2) expands_cong [of db _ _ "db(secKey hk \<mapsto> k)"] unfolding trie_map_def by auto
qed

lemma secure_keys:
  assumes "crypto_ok cr"
  shows "prefix_free (keccak256 cr ` K)" "length (keccak256 cr k) = 32"
  using assms by (auto simp: prefix_free_def crypto_ok_def) (metis length_append less_add_same_cancel1 length_greater_0_conv list.distinct(1) nat_neq_iff)

lemma secKey_inject: "secKey a = secKey b \<longleftrightarrow> a = b"
  by (simp add: secKey_def)

text \<open>A change of the trie at the hash of a key, seen from the keys.\<close>

lemma secure_change:
  assumes "inj_on f K" "k \<in> K" "\<forall>k\<in>K. m' (f k) = m k" "dom m' \<subseteq> f ` K"
  shows "\<forall>j\<in>K. put m' (f k) v (f j) = put m k v j" "dom (put m' (f k) v) \<subseteq> f ` K"
  using assms put_map_dom [of m' "f ` K" "f k" v] by (auto simp: put_def inj_on_def)

lemma SecureTrie_Get_ok:
  assumes "secure_map cr K t m" "k \<in> K"
  shows "SecureTrie_Get cr t k = Some (m k)"
proof -
  obtain m' where m': "crypto_ok cr" "trie_map t m'" "dom m' \<subseteq> keccak256 cr ` K" "\<forall>k\<in>K. m' (keccak256 cr k) = m k"
    using assms(1) unfolding secure_map_def by blast
  then show ?thesis
    using trie_Get_on [OF secure_keys(1) [OF m'(1), of K], of t m' "keccak256 cr k"] assms(2)
    by (simp add: SecureTrie_Get_def hashKey_def trie_map_on_def)
qed

lemma SecureTrie_Update_ok:
  assumes "secure_map cr K t m" "k \<in> K"
  shows "\<exists>t'. SecureTrie_Update cr t k v = Some t' \<and> secure_map cr K t' (put m k v) \<and>
    SecureTrie_GetKey t' (keccak256 cr k) = Some (Some k)"
proof -
  let ?f = "keccak256 cr"
  obtain m' db where m': "crypto_ok cr" "inj_on ?f K" "dom m \<subseteq> K" "trie_map t m'" "dom m' \<subseteq> ?f ` K"
    "\<forall>k\<in>K. m' (?f k) = m k" "t_db t = Some db" "\<forall>k\<in>dom m. db (secKey (?f k)) = Some k"
    using assms(1) unfolding secure_map_def by blast
  note keys = secure_keys(1) [OF m'(1), of K] secure_keys(2) [OF m'(1)]
  obtain t1 where t1: "trie_Update t (?f k) v = Some t1" "trie_map_on (?f ` K) t1 (put m' (?f k) v)" "t_db t1 = Some db"
    using trie_Update_on [OF keys(1), of t m' "?f k" v] m' assms(2) by (auto simp: trie_map_on_def)
  define t' where "t' = t1\<lparr>t_db := Some (db(secKey (?f k) \<mapsto> k))\<rparr>"
  have "trie_map t' (put m' (?f k) v)"
    using trie_map_preimage [OF _ t1(3) keys(2)] t1(2) unfolding t'_def trie_map_on_def by blast
  moreover have "\<forall>j\<in>dom (put m k v). (db(secKey (?f k) \<mapsto> k)) (secKey (?f j)) = Some j"
    using m'(2,3,8) assms(2) by (auto simp: put_def secKey_inject inj_on_def split: if_splits)
  ultimately have "secure_map cr K t' (put m k v)"
    using m'(1,2) secure_change [OF m'(2) assms(2) m'(6,5), of v] put_map_dom [OF m'(3) assms(2), of v]
    unfolding secure_map_def t'_def by auto
  then show ?thesis
    using t1 by (simp add: SecureTrie_Update_def hashKey_def Let_def SecureTrie_GetKey_def flip: t'_def) (simp add: t'_def)
qed

lemma SecureTrie_Delete_ok:
  assumes "secure_map cr K t m" "k \<in> K"
  shows "\<exists>t'. SecureTrie_Delete cr t k = Some t' \<and> secure_map cr K t' (m(k := None))"
proof -
  let ?f = "keccak256 cr"
  obtain m' db where m': "crypto_ok cr" "inj_on ?f K" "dom m \<subseteq> K" "trie_map t m'" "dom m' \<subseteq> ?f ` K"
    "\<forall>k\<in>K. m' (?f k) = m k" "t_db t = Some db" "\<forall>k\<in>dom m. db (secKey (?f k)) = Some k"
    using assms(1) unfolding secure_map_def by blast
  obtain t' where t': "trie_Delete t (?f k) = Some t'" "trie_map_on (?f ` K) t' (m'(?f k := None))" "t_db t' = Some db"
    using trie_Delete_on [OF secure_keys(1) [OF m'(1), of K], of t m' "?f k"] m' assms(2) by (auto simp: trie_map_on_def)
  have "\<forall>j\<in>K. (m'(?f k := None)) (?f j) = (m(k := None)) j"
    using m'(2,6) assms(2) by (auto simp: inj_on_def)
  moreover have "\<forall>j\<in>dom (m(k := None)). db (secKey (?f j)) = Some j" "dom (m(k := None)) \<subseteq> K" using m'(3,8) by auto
  ultimately have "secure_map cr K t' (m(k := None))"
    using m'(1,2) t'(2,3) unfolding secure_map_def trie_map_on_def by blast
  then show ?thesis using t'(1) by (simp add: SecureTrie_Delete_def hashKey_def)
qed

interpretation hashed_keys: key_store "secure_map cr K" K "SecureTrie_Get cr" "SecureTrie_Update cr" for cr K
  using SecureTrie_Get_ok SecureTrie_Update_ok by unfold_locales blast+

section \<open>Properties\<close>

lemma updates_map:
  assumes "trie_map s m" "updates trie_Update s kvs = Some t"
  shows "trie_map t (puts m kvs) \<and> t_db t = t_db s"
  using assms
proof (induction kvs arbitrary: s m)
  case (Cons kv kvs)
  obtain s1 where s1: "trie_Update s (fst kv) (snd kv) = Some s1" "updates trie_Update s1 kvs = Some t"
    using Cons.prems(2) by (auto split: bind_splits)
  have "trie_map s1 (put m (fst kv) (snd kv)) \<and> t_db s1 = t_db s"
  proof (cases "snd kv = []")
    case True
    then show ?thesis
      using s1(1) trie_Delete_map [OF Cons.prems(1), of "fst kv"] by (auto simp: trie_Update_empty put_def split: if_splits)
  next
    case False
    then show ?thesis
      using s1(1) trie_Update_map [OF Cons.prems(1), of "snd kv" "fst kv"] by (auto simp: put_def)
  qed
  then show ?case using Cons.IH [of s1 "put m (fst kv) (snd kv)"] s1(2) by simp
qed simp

text \<open>
  C12. The root hash is a function of the contents: two sequences of updates and deletions of an
  empty trie without a database that end with the same map give the same root hash, whatever their
  order and whatever was written in between.
\<close>

theorem root_of_contents:
  assumes "updates trie_Update \<lparr>t_root = NilN, t_db = None\<rparr> kvs = Some t"
    "updates trie_Update \<lparr>t_root = NilN, t_db = None\<rparr> kvs' = Some t'"
    "puts Map.empty kvs = puts Map.empty kvs'"
  shows "trie_Hash cr t = trie_Hash cr t'"
proof -
  have "trie_map t (puts Map.empty kvs) \<and> t_db t = None" "trie_map t' (puts Map.empty kvs) \<and> t_db t' = None"
    using updates_map [OF trie_map_empty assms(1)] updates_map [OF trie_map_empty assms(2)] assms(3) by simp_all
  then have "t_root t = t_root t'" using trie_map_unique by blast
  then show ?thesis by (simp add: trie_Hash_def)
qed

theorem root_of_contents_witness:
  "\<forall>cr. \<exists>t t'. updates trie_Update \<lparr>t_root = NilN, t_db = None\<rparr> [([1], [5]), ([2], [6])] = Some t \<and>
     updates trie_Update \<lparr>t_root = NilN, t_db = None\<rparr> [([3], [9]), ([2], [6]), ([1], [5]), ([3], [])] = Some t' \<and>
     trie_Hash cr t = trie_Hash cr t'"
proof
  fix cr
  let ?e = "\<lparr>t_root = NilN, t_db = None\<rparr>" and ?a = "[([1], [5]), ([2], [6])] :: (bytes \<times> bytes) list"
  let ?b = "[([3], [9]), ([2], [6]), ([1], [5]), ([3], [])] :: (bytes \<times> bytes) list"
  have e: "trie_map_on {k. length k = 1} ?e Map.empty" by (simp add: trie_map_on_def trie_map_empty)
  obtain t t' where "updates trie_Update ?e ?a = Some t" "updates trie_Update ?e ?b = Some t'"
    using fixed_keys.updates_hold [OF e, of ?a] fixed_keys.updates_hold [OF e, of ?b] by auto
  moreover have "puts Map.empty ?a = puts Map.empty ?b" by (auto simp: put_def fun_eq_iff)
  ultimately show "\<exists>t t'. updates trie_Update ?e ?a = Some t \<and> updates trie_Update ?e ?b = Some t' \<and> trie_Hash cr t = trie_Hash cr t'"
    using root_of_contents [of ?a t ?b t' cr] by metis
qed

text \<open>
  C11. The trie with hashed keys is a map without panics: after any sequence of updates on keys whose
  hashes are distinct, all of which return, every key reads as the value last written, and deleting a
  key removes it alone. The preimage of each key written is found under its hash.
\<close>

theorem secure_trie_refines_map:
  assumes "secure_map cr K t m" "fst ` set kvs \<subseteq> K" "k \<in> K"
  shows "\<exists>t'. updates (SecureTrie_Update cr) t kvs = Some t' \<and> secure_map cr K t' (puts m kvs) \<and>
    SecureTrie_Get cr t' k = Some (puts m kvs k) \<and>
    (puts m kvs k \<noteq> None \<longrightarrow> SecureTrie_GetKey t' (hashKey cr k) = Some (Some k)) \<and>
    (\<exists>t''. SecureTrie_Delete cr t' k = Some t'' \<and> secure_map cr K t'' ((puts m kvs)(k := None)))"
proof -
  obtain t' where t': "updates (SecureTrie_Update cr) t kvs = Some t'" "secure_map cr K t' (puts m kvs)"
    using hashed_keys.updates_hold [OF assms(1,2)] by blast
  have "SecureTrie_GetKey t' (hashKey cr k) = Some (Some k)" if "puts m kvs k \<noteq> None"
    using t'(2) that by (auto simp: secure_map_def SecureTrie_GetKey_def hashKey_def)
  then show ?thesis
    using t' SecureTrie_Get_ok [OF t'(2) assms(3)] SecureTrie_Delete_ok [OF t'(2) assms(3)] by blast
qed

end
