(* ===== verification/Trie_Commit.thy ===== *)
theory Trie_Commit
  imports Secure_Trie Rlp_Facts
begin

text \<open>
  Committing a trie to the database and loading it again. The nodes that are stored decode to nodes
  that expand to the same tree, as long as the hash has no collision between the encodings that are
  written and those that the database already has.
\<close>

section \<open>Databases that grow\<close>

lemma expands_mono:
  assumes "expands (Some db) n t" "db \<subseteq>\<^sub>m db'"
  shows "expands (Some db') n t"
  using assms(1)
proof (induction rule: expands.induct)
  case (exp_full cs ts)
  then have "list_all2 (expands (Some db')) cs ts" by (rule list_all2_mono) simp
  then show ?case by (rule expands.exp_full)
next
  case (exp_hash h n t)
  have "db h \<noteq> None" using exp_hash(2,3) by (auto simp: resolveHash_def is_stored_def split: option.splits)
  then have "db' h = db h" using assms(2) by (auto simp: map_le_def dom_def)
  then show ?case using exp_hash by (intro expands.exp_hash [of h _ n]) (simp_all add: resolveHash_def)
qed (auto intro: expands.intros)

text \<open>The lengths that the splitting of encoded values can handle.\<close>

definition in_size :: "bytes \<Rightarrow> bool" where
  "in_size b \<longleftrightarrow> length b + 9 < 2 ^ 64"

lemma in_size_append: "in_size (a @ b) \<Longrightarrow> in_size a \<and> in_size b"
  by (simp add: in_size_def)

lemma in_size_mono: "length a \<le> length b \<Longrightarrow> in_size b \<Longrightarrow> in_size a"
  by (simp add: in_size_def)

lemmas in_size_Split = Split_string [folded in_size_def] Split_list [folded in_size_def]
lemmas in_size_Count = CountValues_from_rlp [folded in_size_def]

lemma EncodeToBytes_in_size: "encodable v \<Longrightarrow> in_size (rlp v) \<Longrightarrow> EncodeToBytes v = Inr (rlp v)"
  unfolding in_size_def by (subst EncodeToBytes_eq) auto

section \<open>What decodes to what\<close>

text \<open>
  \<open>decodes P e\<close>: the encoding \<open>e\<close> of a node decodes, whatever follows it, to a node with the property
  \<open>P\<close>; \<open>ref_decodes\<close> says the same of the reference to a child. \<open>node_dec\<close> and \<open>ref_dec\<close> say that the
  decoded node expands to a tree.
\<close>

definition decodes :: "(node \<Rightarrow> bool) \<Rightarrow> bytes \<Rightarrow> bool" where
  "decodes P e \<longleftrightarrow> (\<forall>fuel rest. length e \<le> fuel \<longrightarrow> in_size (e @ rest) \<longrightarrow>
     (\<exists>d. decodeNode_fuel fuel (e @ rest) = Some (Inr d) \<and> is_stored d \<and> P d))"

definition ref_decodes :: "(node \<Rightarrow> bool) \<Rightarrow> bytes \<Rightarrow> bool" where
  "ref_decodes P e \<longleftrightarrow> (\<forall>fuel rest. length e \<le> fuel \<longrightarrow> in_size (e @ rest) \<longrightarrow>
     (\<exists>d. decodeRef (decodeNode_fuel fuel) (e @ rest) = Some (Inr (d, rest)) \<and> P d))"

abbreviation node_dec :: "node_db \<Rightarrow> bytes \<Rightarrow> node \<Rightarrow> bool" where
  "node_dec db e t \<equiv> decodes (\<lambda>d. expands (Some db) d t) e"

abbreviation ref_dec :: "node_db \<Rightarrow> bytes \<Rightarrow> node \<Rightarrow> bool" where
  "ref_dec db e t \<equiv> ref_decodes (\<lambda>d. expands (Some db) d t) e"

lemma decodes_mono: "decodes P e \<Longrightarrow> (\<And>d. P d \<Longrightarrow> Q d) \<Longrightarrow> decodes Q e"
  unfolding decodes_def by meson

lemma node_dec_mono: "node_dec db e t \<Longrightarrow> db \<subseteq>\<^sub>m db' \<Longrightarrow> node_dec db' e t"
  unfolding decodes_def using expands_mono by meson

lemma ref_dec_mono: "ref_dec db e t \<Longrightarrow> db \<subseteq>\<^sub>m db' \<Longrightarrow> ref_dec db' e t"
  unfolding ref_decodes_def using expands_mono by meson

lemma string_kind_not_List [simp]: "string_kind b \<noteq> List"
  by (simp add: string_kind_def)

lemma ref_decodes_nil: "P NilN \<Longrightarrow> ref_decodes P (rlp_string [])"
  unfolding ref_decodes_def by (auto simp: decodeRef_def in_size_Split string_kind_def)

lemma ref_decodes_hash: "length h = 32 \<Longrightarrow> P (HashN h) \<Longrightarrow> ref_decodes P (rlp_string h)"
  unfolding ref_decodes_def by (auto simp: decodeRef_def in_size_Split string_kind_def)

lemma ref_decodes_embedded:
  assumes "decodes P (rlp_list c)" "length (rlp_list c) \<le> 32"
  shows "ref_decodes P (rlp_list c)"
  unfolding ref_decodes_def
proof (intro allI impI)
  fix fuel rest
  assume h: "length (rlp_list c) \<le> fuel" "in_size (rlp_list c @ rest)"
  obtain d where "decodeNode_fuel fuel (rlp_list c @ rest) = Some (Inr d)" "P d"
    using assms(1) h unfolding decodes_def by blast
  then show "\<exists>d. decodeRef (decodeNode_fuel fuel) (rlp_list c @ rest) = Some (Inr (d, rest)) \<and> P d"
    using assms(2) in_size_Split(2) [OF h(2)] by (auto simp: decodeRef_def Let_def)
qed

text \<open>The two kinds of stored nodes.\<close>

lemma SplitString_rlp: "in_size (rlp_string b @ rest) \<Longrightarrow> SplitString (rlp_string b @ rest) = Some (Inr (b, rest))"
  by (simp add: SplitString_def in_size_Split)

lemma SplitList_rlp: "in_size (rlp_list c @ rest) \<Longrightarrow> SplitList (rlp_list c @ rest) = Some (Inr (c, rest))"
  by (simp add: SplitList_def in_size_Split)

lemma length_rlp_list_gt: "length c < length (rlp_list c)"
  by (simp add: rlp_list_def rlp_header_def Let_def)

lemma decode_list:
  assumes "length (rlp_list c) \<le> fuel" "in_size (rlp_list c @ rest)"
  shows "\<exists>f. length c \<le> f \<and> in_size c \<and>
    (CountValues c = Some (Inr 2) \<longrightarrow>
       decodeNode_fuel fuel (rlp_list c @ rest) = decodeShort (decodeNode_fuel f) c) \<and>
    (CountValues c = Some (Inr 17) \<longrightarrow>
       decodeNode_fuel fuel (rlp_list c @ rest) = decodeFull (decodeNode_fuel f) c)"
proof -
  have "length c < fuel" using assms(1) length_rlp_list_gt [of c] by linarith
  then obtain f where f: "fuel = Suc f" "length c \<le> f" by (cases fuel) auto
  have c: "in_size c" using in_size_append [OF assms(2)] in_size_mono [of c "rlp_list c"] length_rlp_list_gt [of c] by simp
  have ne: "(length (rlp_list c @ rest) = 0) = False" using length_rlp_list_gt [of c] by auto
  show ?thesis
    unfolding f(1) decodeNode_fuel.simps(2) ne if_False SplitList_rlp [OF assms(2)]
    using f(2) c by (intro exI [of _ f]) simp
qed

lemma node_val_not_raw [simp]: "\<not> is_raw (node_val n)" "\<not> is_raw (VBytes b)"
  by (cases n) (simp_all add: is_raw_def)

lemma encodable_node [simp]: "encodable (node_val n)"
  by (induction n) simp_all

lemma hasTerm_tkey: "tkey k \<Longrightarrow> hasTerm k = Some True" "nibs k \<Longrightarrow> k \<noteq> [] \<Longrightarrow> hasTerm k = Some False"
  by (auto simp: hasTerm_def tkey_def nibs_def dest!: last_in_set)

lemma decodes_short:
  assumes "compactEncode k = Some ck" "compactDecode ck = Some k"
    and "tkey k \<and> (\<exists>b. v = ValueN b \<and> P (ValueN b)) \<or> nibs k \<and> k \<noteq> [] \<and> ref_decodes P (rlp (node_val v))"
  shows "decodes (\<lambda>d. \<exists>c. d = ShortN k c \<and> P c) (rlp (node_val (ShortN ck v)))"
  unfolding decodes_def
proof (intro allI impI)
  fix fuel rest
  let ?c = "rlp_string ck @ rlp (node_val v)"
  assume "length (rlp (node_val (ShortN ck v))) \<le> fuel" "in_size (rlp (node_val (ShortN ck v)) @ rest)"
  then have h: "length (rlp_list ?c) \<le> fuel" "in_size (rlp_list ?c @ rest)" by simp_all
  have eq: "concat (map rlp [VBytes ck, node_val v]) = ?c" by simp
  obtain f where f: "length ?c \<le> f" "in_size ?c" "CountValues ?c = Some (Inr 2) \<longrightarrow>
      decodeNode_fuel fuel (rlp_list ?c @ rest) = decodeShort (decodeNode_fuel f) ?c"
    using decode_list [OF h] by blast
  have "CountValues ?c = Some (Inr 2)"
    using in_size_Count [of "[VBytes ck, node_val v]" 0, unfolded eq, OF _ f(2)] by (simp add: CountValues_def)
  with f(3) have f3: "decodeNode_fuel fuel (rlp_list ?c @ rest) = decodeShort (decodeNode_fuel f) ?c" by blast
  have s: "SplitString ?c = Some (Inr (ck, rlp (node_val v)))" using SplitString_rlp [OF f(2)] .
  from assms(3) show "\<exists>d. decodeNode_fuel fuel (rlp (node_val (ShortN ck v)) @ rest) = Some (Inr d) \<and> is_stored d \<and>
      (\<exists>c. d = ShortN k c \<and> P c)"
  proof (elim disjE conjE exE)
    fix b assume b: "tkey k" "v = ValueN b" "P (ValueN b)"
    have "SplitString (rlp (node_val v)) = Some (Inr (b, []))"
      using SplitString_rlp [of b "[]"] in_size_append [OF f(2)] b by simp
    then show ?thesis using f3 s assms(2) hasTerm_tkey(1) [OF b(1)] b by (simp add: decodeShort_def is_stored_def)
  next
    assume r: "nibs k" "k \<noteq> []" "ref_decodes P (rlp (node_val v))"
    obtain d where "decodeRef (decodeNode_fuel f) (rlp (node_val v) @ []) = Some (Inr (d, []))" "P d"
    proof -
      have "length (rlp (node_val v)) \<le> f" "in_size (rlp (node_val v) @ [])"
        using f(1) in_size_append [OF f(2)] by simp_all
      then show thesis using that r(3) unfolding ref_decodes_def by blast
    qed
    then show ?thesis
      using f3 s assms(2) hasTerm_tkey(2) [OF r(1,2)] by (simp add: decodeShort_def is_stored_def)
  qed
qed

lemma decodeRefs_ok:
  assumes "list_all2 (\<lambda>e t. ref_decodes (P t) e) es ts" "length (concat es) \<le> fuel" "in_size (concat es @ rest)"
  shows "\<exists>ds. decodeRefs (decodeNode_fuel fuel) (length es) (concat es @ rest) = Some (Inr (ds, rest)) \<and>
    list_all2 (\<lambda>d t. P t d) ds ts"
  using assms
proof (induction es ts rule: list_all2_induct)
  case (Cons e es t ts)
  obtain d where d: "decodeRef (decodeNode_fuel fuel) (e @ concat es @ rest) = Some (Inr (d, concat es @ rest))" "P t d"
  proof -
    have "length e \<le> fuel" "in_size (e @ concat es @ rest)" using Cons(4,5) by simp_all
    then show thesis using that Cons(1) unfolding ref_decodes_def by blast
  qed
  obtain ds where "decodeRefs (decodeNode_fuel fuel) (length es) (concat es @ rest) = Some (Inr (ds, rest))"
    "list_all2 (\<lambda>d t. P t d) ds ts"
  proof -
    have "length (concat es) \<le> fuel" "in_size (concat es @ rest)"
      using Cons(4,5) in_size_append [of e "concat es @ rest"] by simp_all
    then show thesis using that Cons(3) by blast
  qed
  then show ?case using d by (intro exI [of _ "d # ds"]) simp
qed simp

lemma decodes_full:
  assumes "length rs = 16" "list_all2 (\<lambda>r t. ref_decodes (P t) (rlp (node_val r))) rs ts"
  shows "decodes (\<lambda>d. \<exists>ds. d = FullN (ds @ [if v = [] then NilN else ValueN v]) \<and> list_all2 (\<lambda>d t. P t d) ds ts)
    (rlp (node_val (FullN (rs @ [ValueN v]))))"
  unfolding decodes_def
proof (intro allI impI)
  fix fuel rest
  let ?es = "map (rlp \<circ> node_val) rs"
  let ?c = "concat ?es @ rlp_string v"
  let ?n = "FullN (rs @ [ValueN v])"
  have n: "rlp (node_val ?n) = rlp_list ?c" by (simp add: comp_def)
  assume "length (rlp (node_val ?n)) \<le> fuel" "in_size (rlp (node_val ?n) @ rest)"
  then have h: "length (rlp_list ?c) \<le> fuel" "in_size (rlp_list ?c @ rest)" unfolding n .
  have eq: "concat (map rlp (map node_val rs @ [VBytes v])) = ?c" by (simp add: comp_def)
  obtain f where f: "length ?c \<le> f" "in_size ?c" "CountValues ?c = Some (Inr 17) \<longrightarrow>
      decodeNode_fuel fuel (rlp_list ?c @ rest) = decodeFull (decodeNode_fuel f) ?c"
    using decode_list [OF h] by blast
  have "CountValues ?c = Some (Inr 17)"
    using in_size_Count [of "map node_val rs @ [VBytes v]" 0, unfolded eq, OF _ f(2)] assms(1)
    by (simp add: CountValues_def)
  with f(3) have f3: "decodeNode_fuel fuel (rlp_list ?c @ rest) = decodeFull (decodeNode_fuel f) ?c" by blast
  have "list_all2 (\<lambda>e t. ref_decodes (P t) e) ?es ts" using assms(2) by (simp add: list_all2_map1 comp_def)
  moreover have "length (concat ?es) \<le> f" using f(1) unfolding length_append by linarith
  ultimately obtain ds where ds:
    "decodeRefs (decodeNode_fuel f) 16 ?c = Some (Inr (ds, rlp_string v))" "list_all2 (\<lambda>d t. P t d) ds ts"
    using decodeRefs_ok [of P ?es ts f "rlp_string v"] f(2) unfolding length_map assms(1) by blast
  have "SplitString (rlp_string v) = Some (Inr (v, []))"
    using SplitString_rlp [of v "[]"] in_size_append [OF f(2)] by simp
  then have "decodeNode_fuel fuel (rlp (node_val ?n) @ rest) =
      Some (Inr (FullN (ds @ [if v = [] then NilN else ValueN v])))"
    unfolding n f3 decodeFull_def using ds(1) by simp
  then show "\<exists>d. decodeNode_fuel fuel (rlp (node_val ?n) @ rest) = Some (Inr d) \<and> is_stored d \<and>
      (\<exists>ds. d = FullN (ds @ [if v = [] then NilN else ValueN v]) \<and> list_all2 (\<lambda>d t. P t d) ds ts)"
    using ds(2) by (simp add: is_stored_def)
qed

lemma node_dec_short:
  assumes "compactEncode k = Some ck" "ck \<noteq> []" "compactDecode ck = Some k"
    and "tkey k \<and> (\<exists>b. v = ValueN b \<and> t = ValueN b) \<or> nibs k \<and> k \<noteq> [] \<and> ref_dec db (rlp (node_val v)) t"
  shows "node_dec db (rlp (node_val (ShortN ck v))) (ShortN k t)"
proof (rule decodes_mono [OF decodes_short [OF assms(1,3)]])
  show "tkey k \<and> (\<exists>b. v = ValueN b \<and> expands (Some db) (ValueN b) t) \<or> nibs k \<and> k \<noteq> [] \<and> ref_dec db (rlp (node_val v)) t"
    using assms(4) by auto
qed auto

lemma node_dec_full:
  assumes "length rs = 16" "list_all2 (\<lambda>r t. ref_dec db (rlp (node_val r)) t) rs ts"
    and "v = [] \<and> t = NilN \<or> v \<noteq> [] \<and> t = ValueN v"
  shows "node_dec db (rlp (node_val (FullN (rs @ [ValueN v])))) (FullN (ts @ [t]))"
  by (rule decodes_mono [OF decodes_full [OF assms(1), of "\<lambda>t d. expands (Some db) d t" ts]])
     (use assms(2,3) in \<open>auto intro!: list_all2_appendI\<close>)

section \<open>Storing nodes\<close>

text \<open>The encodings of the nodes of a trie, loaded ones only, as the hasher computes them.\<close>

fun subnodes :: "node \<Rightarrow> node set" where
  "subnodes (ShortN k c) = insert (ShortN k c) (subnodes c)"
| "subnodes (FullN cs) = insert (FullN cs) (\<Union>c\<in>set cs. subnodes c)"
| "subnodes _ = {}"

definition node_encs :: "crypto \<Rightarrow> node \<Rightarrow> bytes set" where
  "node_encs cr n = {rlp (node_val r) |r m. m \<in> subnodes n \<and> replaceChildren cr m None = Some (r, None)}"

text \<open>A database to which the encodings of \<open>U\<close> can be added without overwriting anything.\<close>

definition commit_ok :: "crypto \<Rightarrow> bytes set \<Rightarrow> node_db \<Rightarrow> bool" where
  "commit_ok cr U db \<longleftrightarrow> inj_on (keccak256 cr) U \<and>
     (\<forall>e\<in>U. in_size e \<and> (db (keccak256 cr e) = None \<or> db (keccak256 cr e) = Some e))"

lemma commit_ok_put:
  assumes "commit_ok cr U db" "e \<in> U"
  shows "db \<subseteq>\<^sub>m db(keccak256 cr e \<mapsto> e)" "commit_ok cr U (db(keccak256 cr e \<mapsto> e))"
  using assms by (auto simp: commit_ok_def map_le_def inj_on_def dom_def)

lemma node_encs_child:
  "node_encs cr c \<subseteq> node_encs cr (ShortN k c)" "c \<in> set cs \<Longrightarrow> node_encs cr c \<subseteq> node_encs cr (FullN cs)"
  by (auto simp: node_encs_def)

lemma node_encs_self: "is_stored n \<Longrightarrow> replaceChildren cr n None = Some (r, None) \<Longrightarrow> rlp (node_val r) \<in> node_encs cr n"
proof -
  assume "is_stored n" "replaceChildren cr n None = Some (r, None)"
  moreover from this have "n \<in> subnodes n" by (cases n) (simp_all add: is_stored_def)
  ultimately show ?thesis unfolding node_encs_def by blast
qed

definition stored :: "crypto \<Rightarrow> bytes set \<Rightarrow> node \<Rightarrow> node \<Rightarrow> bool" where
  "stored cr U n t \<longleftrightarrow> (\<forall>db. expands (Some db) n t \<longrightarrow> commit_ok cr U db \<longrightarrow>
     (\<exists>r db'. replaceChildren cr n (Some db) = Some (r, Some db') \<and> replaceChildren cr n None = Some (r, None) \<and>
        db \<subseteq>\<^sub>m db' \<and> commit_ok cr U db' \<and> is_stored r \<and> node_dec db' (rlp (node_val r)) t))"

lemma rlp_stored: "is_stored r \<Longrightarrow> \<exists>c. rlp (node_val r) = rlp_list c"
  by (cases r) (auto simp: is_stored_def)

text \<open>A node whose encoding is stored is found again under its hash.\<close>

lemma expands_stored:
  assumes "crypto_ok cr" "node_dec db e t" "in_size e" "db (keccak256 cr e) = Some e"
  shows "expands (Some db) (HashN (keccak256 cr e)) t"
proof -
  obtain d where d: "decodeNode_fuel (length e + 1) (e @ []) = Some (Inr d)" "is_stored d" "expands (Some db) d t"
    using assms(2,3) unfolding decodes_def by (metis append_Nil2 le_add1)
  then have "resolveHash (Some db) (keccak256 cr e) = Some d"
    using assms(4) by (simp add: resolveHash_def mustDecodeNode_def decodeNode_def)
  then show ?thesis using d(2,3) assms(1) by (intro expands.exp_hash) (simp_all add: crypto_ok_def)
qed

lemma hasher_store_ok:
  assumes "crypto_ok cr" "commit_ok cr U db" "is_stored r" "rlp (node_val r) \<in> U" "node_dec db (rlp (node_val r)) t"
  shows "\<exists>v db'. hasher_store cr r (Some db) force = Some (v, Some db') \<and> hasher_store cr r None force = Some (v, None) \<and>
    db \<subseteq>\<^sub>m db' \<and> commit_ok cr U db' \<and> ref_dec db' (rlp (node_val v)) t \<and> v \<noteq> NilN \<and>
    (force \<longrightarrow> v = HashN (keccak256 cr (rlp (node_val r))) \<and> expands (Some db') v t)"
proof -
  let ?e = "rlp (node_val r)"
  have e: "in_size ?e" using assms(2,4) by (simp add: commit_ok_def)
  have store: "hasher_store cr r d force = Some (if length ?e < 32 \<and> \<not> force then (r, d)
      else (HashN (keccak256 cr ?e), map_option (\<lambda>db. db(keccak256 cr ?e \<mapsto> ?e)) d))" for d
    using assms(3) EncodeToBytes_in_size [OF encodable_node e]
    by (cases r) (simp_all add: hasher_store_def is_stored_def Let_def)
  show ?thesis
  proof (cases "length ?e < 32 \<and> \<not> force")
    case True
    obtain c where c: "?e = rlp_list c" using rlp_stored [OF assms(3)] by blast
    have "ref_dec db ?e t" using ref_decodes_embedded [of _ c] assms(5) True unfolding c by simp
    moreover have "r \<noteq> NilN" using assms(3) by (auto simp: is_stored_def)
    ultimately show ?thesis using True assms(2) unfolding store by simp
  next
    case False
    let ?db = "db(keccak256 cr ?e \<mapsto> ?e)"
    note p = commit_ok_put [OF assms(2,4)]
    have x: "expands (Some ?db) (HashN (keccak256 cr ?e)) t"
      using expands_stored [OF assms(1) node_dec_mono [OF assms(5) p(1)] e] by simp
    moreover have "ref_dec ?db (rlp_string (keccak256 cr ?e)) t"
      using ref_decodes_hash x assms(1) by (simp add: crypto_ok_def)
    ultimately show ?thesis using p unfolding store if_not_P [OF False] by simp
  qed
qed

lemma hash_child_ok:
  assumes "crypto_ok cr" "commit_ok cr U db" "expands (Some db) c t" "canon t" "node_encs cr c \<subseteq> U"
    and "is_stored c \<Longrightarrow> stored cr U c t"
  shows "\<exists>v db'. hasher_hash cr c (Some db) False = Some (v, Some db') \<and> hasher_hash cr c None False = Some (v, None) \<and>
    db \<subseteq>\<^sub>m db' \<and> commit_ok cr U db' \<and> ref_dec db' (rlp (node_val v)) t \<and> v \<noteq> NilN"
proof (cases "is_stored c")
  case True
  obtain r db1 where r: "replaceChildren cr c (Some db) = Some (r, Some db1)" "replaceChildren cr c None = Some (r, None)"
    "db \<subseteq>\<^sub>m db1" "commit_ok cr U db1" "is_stored r" "node_dec db1 (rlp (node_val r)) t"
    using assms(6) [OF True] assms(2,3) unfolding stored_def by blast
  have "rlp (node_val r) \<in> U" using node_encs_self [OF True r(2)] assms(5) by blast
  from hasher_store_ok [OF assms(1) r(4,5) this r(6), of False] obtain v db' where
    "hasher_store cr r (Some db1) False = Some (v, Some db')" "hasher_store cr r None False = Some (v, None)"
    "db1 \<subseteq>\<^sub>m db'" "commit_ok cr U db'" "ref_dec db' (rlp (node_val v)) t" "v \<noteq> NilN" by blast
  then show ?thesis using r(1,2) map_le_trans [OF r(3)] by (auto simp: hasher_hash_def)
next
  case False
  then obtain h where h: "c = HashN h" "length h = 32"
    using assms(3,4) by (cases c) (auto simp: is_stored_def elim: expands_HashE)
  then show ?thesis
    using ref_decodes_hash [OF h(2)] assms(2,3) by (auto simp: hasher_hash_def hasher_store_def)
qed

lemma replace_range_16:
  assumes "crypto_ok cr" "commit_ok cr U db" "list_all2 (expands (Some db)) cs ts" "i + length cs \<le> 16"
    and "\<forall>t\<in>set ts. canon_or_nil t" "\<forall>c\<in>set cs. node_encs cr c \<subseteq> U"
    and "\<forall>c\<in>set cs. \<forall>t. is_stored c \<longrightarrow> canon t \<longrightarrow> stored cr U c t"
  shows "\<exists>rs db'. replace_range cr i cs (Some db) = Some (rs, Some db') \<and> replace_range cr i cs None = Some (rs, None) \<and>
    db \<subseteq>\<^sub>m db' \<and> commit_ok cr U db' \<and> list_all2 (\<lambda>r t. ref_dec db' (rlp (node_val r)) t) rs ts"
  using assms(2-)
proof (induction cs arbitrary: ts i db)
  case (Cons c cs)
  obtain t ts' where ts: "ts = t # ts'" "expands (Some db) c t" "list_all2 (expands (Some db)) cs ts'"
    using Cons.prems(2) by (auto simp: list_all2_Cons1)
  let ?hd = "\<lambda>db. if c = NilN then Some (ValueN [], db) else hasher_hash cr c db False"
  obtain v db1 where v: "?hd (Some db) = Some (v, Some db1)" "?hd None = Some (v, None)"
    "db \<subseteq>\<^sub>m db1" "commit_ok cr U db1" "ref_dec db1 (rlp (node_val v)) t"
  proof (cases "c = NilN")
    case True
    then have "t = NilN" using ts(2) by simp
    then show thesis using that [of "ValueN []" db] True Cons.prems(1) ref_decodes_nil by simp
  next
    case False
    then have "canon t" using Cons.prems(4) ts expands_nil_iff [OF ts(2)] by (auto simp: canon_or_nil_def)
    then obtain v db1 where "hasher_hash cr c (Some db) False = Some (v, Some db1)" "hasher_hash cr c None False = Some (v, None)"
      "db \<subseteq>\<^sub>m db1" "commit_ok cr U db1" "ref_dec db1 (rlp (node_val v)) t"
      using hash_child_ok [OF assms(1) Cons.prems(1) ts(2)] Cons.prems(5,6) by fastforce
    then show thesis using that False by simp
  qed
  have "list_all2 (expands (Some db1)) cs ts'"
    using ts(3) by (rule list_all2_mono) (rule expands_mono [OF _ v(3)])
  from Cons.IH [OF v(4) this, of "i + 1"] obtain rs db' where rs:
    "replace_range cr (i + 1) cs (Some db1) = Some (rs, Some db')" "replace_range cr (i + 1) cs None = Some (rs, None)"
    "db1 \<subseteq>\<^sub>m db'" "commit_ok cr U db'" "list_all2 (\<lambda>r t. ref_dec db' (rlp (node_val r)) t) rs ts'"
    using Cons.prems(3-6) ts(1) by auto
  have "replace_range cr i (c # cs) d = do { (v, d) \<leftarrow> ?hd d; (rs, d) \<leftarrow> replace_range cr (i + 1) cs d; Some (v # rs, d) }" for d
    using Cons.prems(3) by (simp add: hasher_hash_def)
  then show ?case
    using v(1,2) rs ref_dec_mono [OF v(5) rs(3)] map_le_trans [OF v(3) rs(3)] ts(1) by simp
qed simp

lemma replace_range_snoc:
  "replace_range cr i (cs @ [c]) db =
     do { (rs, db) \<leftarrow> replace_range cr i cs db;
          (vs, db) \<leftarrow> replace_range cr (i + length cs) [c] db;
          Some (rs @ vs, db) }"
  by (induction cs arbitrary: i db) (auto simp: case_prod_beta split: bind_splits)

lemma stored_full:
  assumes "crypto_ok cr" "canon (FullN ts)" "node_encs cr (FullN cs) \<subseteq> U"
    and "\<forall>c\<in>set cs. \<forall>t. is_stored c \<longrightarrow> canon t \<longrightarrow> stored cr U c t"
  shows "stored cr U (FullN cs) (FullN ts)"
  unfolding stored_def
proof (intro allI impI)
  fix db
  assume "expands (Some db) (FullN cs) (FullN ts)" and ok: "commit_ok cr U db"
  then have all: "list_all2 (expands (Some db)) cs ts" by simp
  have ts: "length ts = 17" "\<forall>i<17. slot_ok i (ts ! i)" using assms(2) unfolding canon_Full by blast+
  have len: "length cs = 17" using all ts(1) by (simp add: list_all2_lengthD)
  obtain cs' c where cs: "cs = cs' @ [c]" "length cs' = 16" using len by (cases cs rule: rev_cases) auto
  obtain ts' t where t: "ts = ts' @ [t]" "length ts' = 16" using ts(1) by (cases ts rule: rev_cases) auto
  have x: "list_all2 (expands (Some db)) cs' ts'" "expands (Some db) c t"
    using all cs t by (simp_all add: list_all2_append)
  have cn: "canon_or_nil u" if u: "u \<in> set ts'" for u
  proof -
    obtain i where i: "i < 16" "u = ts' ! i" using u t(2) by (auto simp: in_set_conv_nth)
    have "slot_ok i (ts ! i)" using i(1) ts(2) by simp
    then show ?thesis using i t by (auto simp: slot_ok_def canon_or_nil_def nth_append)
  qed
  have "\<forall>c\<in>set cs'. node_encs cr c \<subseteq> U" using node_encs_child(2) [of _ cs cr] assms(3) cs(1) by fastforce
  moreover have "\<forall>c\<in>set cs'. \<forall>t. is_stored c \<longrightarrow> canon t \<longrightarrow> stored cr U c t" using assms(4) cs(1) by simp
  ultimately obtain rs db' where rs: "replace_range cr 0 cs' (Some db) = Some (rs, Some db')" "replace_range cr 0 cs' None = Some (rs, None)"
    "db \<subseteq>\<^sub>m db'" "commit_ok cr U db'" "list_all2 (\<lambda>r t. ref_dec db' (rlp (node_val r)) t) rs ts'"
    using replace_range_16 [OF assms(1) ok x(1), of 0] cs(2) cn by auto
  have "slot_ok 16 (ts ! 16)" using ts(2) by simp
  then have "t = NilN \<or> (\<exists>v. t = ValueN v \<and> v \<noteq> [])" using t by (simp add: slot_ok_def nth_append)
  then obtain v where v: "v = [] \<and> t = NilN \<or> v \<noteq> [] \<and> t = ValueN v" by blast
  then have c: "c = (if v = [] then NilN else ValueN v)"
    using x(2) expands_nil_iff [OF x(2)] expands_val by auto
  have "replace_range cr 16 [c] d = Some ([ValueN v], d)" for d using c by simp
  then have r: "replaceChildren cr (FullN cs) (Some db) = Some (FullN (rs @ [ValueN v]), Some db')"
    "replaceChildren cr (FullN cs) None = Some (FullN (rs @ [ValueN v]), None)"
    using rs(1,2) cs by (simp_all add: replace_range_snoc del: replace_range.simps)
  have "length rs = 16" using rs(5) t(2) by (simp add: list_all2_lengthD)
  then have "node_dec db' (rlp (node_val (FullN (rs @ [ValueN v])))) (FullN ts)"
    using node_dec_full [OF _ rs(5) v] unfolding t(1) by blast
  then show "\<exists>r db'. replaceChildren cr (FullN cs) (Some db) = Some (r, Some db') \<and>
      replaceChildren cr (FullN cs) None = Some (r, None) \<and> db \<subseteq>\<^sub>m db' \<and> commit_ok cr U db' \<and> is_stored r \<and>
      node_dec db' (rlp (node_val r)) (FullN ts)"
    using r rs(3,4) by (intro exI [of _ "FullN (rs @ [ValueN v])"] exI [of _ db']) (simp add: is_stored_def)
qed

lemma stored_leaf:
  assumes "canon (ShortN k (ValueN v))"
  shows "stored cr U (ShortN k (ValueN v)) (ShortN k (ValueN v))"
proof -
  obtain ck where ck: "compactEncode k = Some ck" "ck \<noteq> []" "compactDecode ck = Some k"
    using compactDecode_Encode [of k] assms by auto
  have "node_dec db (rlp (node_val (ShortN ck (ValueN v)))) (ShortN k (ValueN v))" for db
    using node_dec_short [OF ck, of "ValueN v" "ValueN v" db] assms by simp
  then show ?thesis using ck(1) by (auto simp: stored_def is_stored_def)
qed

lemma stored_extension:
  assumes "crypto_ok cr" "canon (ShortN k (FullN ts))" "node_encs cr (ShortN k c) \<subseteq> U"
    and "is_stored c \<Longrightarrow> stored cr U c (FullN ts)"
  shows "stored cr U (ShortN k c) (ShortN k (FullN ts))"
  unfolding stored_def
proof (intro allI impI)
  fix db
  assume "expands (Some db) (ShortN k c) (ShortN k (FullN ts))" and ok: "commit_ok cr U db"
  then have x: "expands (Some db) c (FullN ts)" by simp
  have k: "nibs k" "k \<noteq> []" "canon (FullN ts)" using assms(2) by simp_all
  obtain ck where ck: "compactEncode k = Some ck" "ck \<noteq> []" "compactDecode ck = Some k"
    using compactDecode_Encode [of k] k by auto
  have "node_encs cr c \<subseteq> U" using assms(3) node_encs_child(1) by blast
  from hash_child_ok [OF assms(1) ok x k(3) this assms(4)] obtain v db' where v:
    "hasher_hash cr c (Some db) False = Some (v, Some db')" "hasher_hash cr c None False = Some (v, None)"
    "db \<subseteq>\<^sub>m db'" "commit_ok cr U db'" "ref_dec db' (rlp (node_val v)) (FullN ts)" "v \<noteq> NilN" by blast
  have "\<nexists>b. c = ValueN b" using x by auto
  then have "replaceChildren cr (ShortN k c) d =
      do { (v, d) \<leftarrow> hasher_hash cr c d False; Some (ShortN ck (if v = NilN then ValueN [] else v), d) }" for d
    using ck(1) by (cases c) (simp_all add: hasher_hash_def)
  then have "replaceChildren cr (ShortN k c) (Some db) = Some (ShortN ck v, Some db')"
    "replaceChildren cr (ShortN k c) None = Some (ShortN ck v, None)" using v(1,2,6) by simp_all
  moreover have "node_dec db' (rlp (node_val (ShortN ck v))) (ShortN k (FullN ts))"
    using node_dec_short [OF ck, of v "FullN ts" db'] k v(5) by blast
  ultimately show "\<exists>r db'. replaceChildren cr (ShortN k c) (Some db) = Some (r, Some db') \<and>
      replaceChildren cr (ShortN k c) None = Some (r, None) \<and> db \<subseteq>\<^sub>m db' \<and> commit_ok cr U db' \<and> is_stored r \<and>
      node_dec db' (rlp (node_val r)) (ShortN k (FullN ts))"
    using v(3,4) by (intro exI [of _ "ShortN ck v"] exI [of _ db']) (simp add: is_stored_def del: rlp.simps node_val.simps)
qed

lemma stored_ok:
  assumes "crypto_ok cr" "canon t" "is_stored n" "node_encs cr n \<subseteq> U"
  shows "stored cr U n t"
  using assms(2-)
proof (induction n arbitrary: t)
  case (FullN cs)
  show ?case
  proof (cases t)
    case t: (FullN ts)
    have "stored cr U c u" if c: "c \<in> set cs" "is_stored c" "canon u" for c u
    proof (rule FullN.IH [OF c(1,3,2)])
      show "node_encs cr c \<subseteq> U" using node_encs_child(2) [OF c(1)] FullN.prems(3) by (rule order.trans)
    qed
    then show ?thesis using stored_full [OF assms(1) _ FullN.prems(3)] FullN.prems(1) unfolding t by simp
  qed (simp_all add: stored_def)
next
  case (ShortN k c)
  have encs: "node_encs cr c \<subseteq> U" using node_encs_child(1) ShortN.prems(3) by (rule order.trans)
  from ShortN.prems(1) show ?case
  proof (cases rule: canon_cases)
    case (1 k' v)
    have "expands (Some db) (ShortN k c) t \<longleftrightarrow> k = k' \<and> c = ValueN v" for db
      unfolding 1(1) using expands_val by auto
    moreover have "canon (ShortN k' (ValueN v))" using ShortN.prems(1) unfolding 1(1) .
    ultimately show ?thesis using stored_leaf [of k' v cr U] unfolding 1(1) stored_def by simp
  next
    case (2 k' ts)
    show ?thesis
    proof (cases "k = k'")
      case True
      have "canon (ShortN k (FullN ts))" using 2 True by simp
      from stored_extension [OF assms(1) this ShortN.prems(3)] ShortN.IH [OF 2(4) _ encs]
      show ?thesis unfolding 2(1) True by blast
    next
      case False
      then show ?thesis unfolding 2(1) by (simp add: stored_def)
    qed
  next
    case (3 cs)
    then show ?thesis by (simp add: stored_def)
  qed
qed (simp_all add: is_stored_def)

section \<open>Committing\<close>

lemma hashRoot_ok:
  assumes "crypto_ok cr" "expands (Some db) n t" "canon t" "commit_ok cr U db" "node_encs cr n \<subseteq> U"
  shows "\<exists>h db'. hashRoot cr n (Some db) = Some (HashN h, Some db') \<and> hashRoot cr n None = Some (HashN h, None) \<and>
    length h = 32 \<and> db \<subseteq>\<^sub>m db' \<and> commit_ok cr U db' \<and> expands (Some db') (HashN h) t"
proof (cases "is_stored n")
  case True
  obtain r db1 where r: "replaceChildren cr n (Some db) = Some (r, Some db1)" "replaceChildren cr n None = Some (r, None)"
    "db \<subseteq>\<^sub>m db1" "commit_ok cr U db1" "is_stored r" "node_dec db1 (rlp (node_val r)) t"
    using stored_ok [OF assms(1,3) True assms(5)] assms(2,4) unfolding stored_def by blast
  have "rlp (node_val r) \<in> U" using node_encs_self [OF True r(2)] assms(5) by blast
  from hasher_store_ok [OF assms(1) r(4,5) this r(6), of True] obtain v db' where
    "hasher_store cr r (Some db1) True = Some (v, Some db')" "hasher_store cr r None True = Some (v, None)"
    "db1 \<subseteq>\<^sub>m db'" "v = HashN (keccak256 cr (rlp (node_val r)))" "commit_ok cr U db'" "expands (Some db') v t" by blast
  moreover have "n \<noteq> NilN" using True by (auto simp: is_stored_def)
  ultimately show ?thesis
    using r(1,2) map_le_trans [OF r(3)] assms(1) by (auto simp: hashRoot_def hasher_hash_def crypto_ok_def)
next
  case False
  then obtain h where h: "n = HashN h" "length h = 32"
    using assms(2,3) by (cases n) (auto simp: is_stored_def elim: expands_HashE)
  then show ?thesis using assms(2,4) by (simp add: hashRoot_def hasher_hash_def hasher_store_def)
qed

lemma Hash_Bytes_BytesToHash:
  assumes "length h = 32"
  shows "Hash_Bytes (BytesToHash h) = h"
proof (rule be_nat_inject)
  show l: "length (Hash_Bytes (BytesToHash h)) = length h" using assms by (simp add: length_Hash_Bytes)
  have "be_nat b < 2 ^ 256" if "length b = 32" for b :: bytes using be_nat_bound [of b] that by simp
  then have u: "unat (BytesToHash b) = be_nat b" if "length b = 32" for b :: bytes
    using that by (simp add: BytesToHash_be_nat unat_of_nat take_bit_nat_eq_self)
  show "be_nat (Hash_Bytes (BytesToHash h)) = be_nat h"
    using u [of h] u [of "Hash_Bytes (BytesToHash h)"] l assms by (simp add: BytesToHash_Hash_Bytes)
qed

lemma trie_New_stored:
  assumes "expands (Some db) (HashN h) t" "length h = 32" "BytesToHash h \<noteq> 0" "BytesToHash h \<noteq> emptyRoot"
  shows "trie_New (BytesToHash h) (Some db) = Some (Inr \<lparr>t_root = HashN h, t_db = Some db\<rparr>)"
proof -
  obtain n where n: "resolveHash (Some db) h = Some n" "is_stored n" using assms(1) by (blast elim: expands_HashE)
  then obtain e where e: "db h = Some e" "mustDecodeNode e = Some n"
    by (auto simp: resolveHash_def is_stored_def split: option.splits)
  then have "e \<noteq> []" by (auto simp: mustDecodeNode_def decodeNode_def)
  moreover have "Hash_Bytes (BytesToHash h) = h" using assms(2) Hash_Bytes_BytesToHash by blast
  ultimately show ?thesis using assms(3,4) e(1) by (simp add: trie_New_def)
qed

section \<open>Hashes and contents\<close>

lemma nonempty_canon:
  assumes "canon_or_nil tree" "lookup tree = hex_map m" "m \<noteq> Map.empty"
  shows "canon tree"
proof -
  obtain key v where "m key = Some v" using assms(3) by (auto simp: fun_eq_iff)
  then have "lookup tree (compactHexDecode key) = Some v" using assms(2) by simp
  then show ?thesis using assms(1) by (auto simp: canon_or_nil_def)
qed

text \<open>A node expands to one tree.\<close>

lemma list_all2_unique:
  assumes "list_all2 (\<lambda>x y. \<forall>z. P x z \<longrightarrow> y = z) xs ys" "list_all2 P xs zs"
  shows "ys = zs"
  using assms by (induction xs ys arbitrary: zs rule: list_all2_induct) (auto simp: list_all2_Cons1)

lemma expands_unique: "expands db n t \<Longrightarrow> expands db n t' \<Longrightarrow> t = t'"
proof (induction arbitrary: t' rule: expands.induct)
  case (exp_full cs ts)
  obtain ts' where ts': "t' = FullN ts'" "list_all2 (expands db) cs ts'"
    using exp_full.prems by (blast dest: expands_simps(4) [THEN iffD1])
  have "list_all2 (\<lambda>x y. \<forall>z. expands db x z \<longrightarrow> y = z) cs ts"
    using exp_full(1) by (rule list_all2_mono) blast
  then show ?case using list_all2_unique [OF _ ts'(2)] ts'(1) by blast
next
  case (exp_hash h n t)
  from exp_hash.prems obtain n' where "resolveHash db h = Some n'" "expands db n' t'" by (rule expands_HashE)
  then show ?case using exp_hash(2,5) by simp
next
  case (exp_short n t k)
  then show ?case by (blast dest: expands_simps(3) [THEN iffD1])
qed (simp_all only: expands_simps)

lemma expands_any_db: "expands None n t \<Longrightarrow> expands db n t"
proof (induction rule: expands.induct)
  case (exp_full cs ts)
  then have "list_all2 (expands db) cs ts" by (rule list_all2_mono) simp
  then show ?case by (rule expands.exp_full)
qed (auto simp: resolveHash_def intro: expands.intros)

lemma hashRoot_inject:
  assumes "crypto_ok cr" "expands None n t" "canon t" "expands None n' t'" "canon t'"
    and "commit_ok cr (node_encs cr n \<union> node_encs cr n') Map.empty"
    and "hashRoot cr n None = hashRoot cr n' None"
  shows "t = t'"
proof -
  let ?U = "node_encs cr n \<union> node_encs cr n'"
  obtain h db where 1: "hashRoot cr n None = Some (HashN h, None)" "commit_ok cr ?U db" "expands (Some db) (HashN h) t"
    using hashRoot_ok [OF assms(1) expands_any_db [OF assms(2)] assms(3,6) Un_upper1] by blast
  obtain h' db' where 2: "hashRoot cr n' None = Some (HashN h', None)" "db \<subseteq>\<^sub>m db'" "expands (Some db') (HashN h') t'"
    using hashRoot_ok [OF assms(1) expands_any_db [OF assms(4)] assms(5) 1(2) Un_upper2] by blast
  have "h' = h" using 1(1) 2(1) assms(7) by simp
  then show ?thesis using expands_unique [OF expands_mono [OF 1(3) 2(2)]] 2(3) by blast
qed

lemma hashRoot_BytesToHash:
  assumes "crypto_ok cr" "expands None n t" "canon t" "commit_ok cr (node_encs cr n) Map.empty"
  shows "\<exists>h. hashRoot cr n None = Some (HashN h, None) \<and> length h = 32"
  using hashRoot_ok [OF assms(1) expands_any_db [OF assms(2)] assms(3,4) order.refl] by blast

lemma commit_ok_subset: "commit_ok cr U db \<Longrightarrow> V \<subseteq> U \<Longrightarrow> commit_ok cr V db"
  by (auto simp: commit_ok_def intro: inj_on_subset)

lemma trie_map_tree:
  assumes "trie_map t m" "t_db t = None" "m \<noteq> Map.empty"
  shows "\<exists>tree. expands None (t_root t) tree \<and> canon tree \<and> lookup tree = hex_map m"
proof -
  obtain tree where tree: "expands None (t_root t) tree" "canon_or_nil tree" "lookup tree = hex_map m"
    using assms(1,2) unfolding trie_map_def by auto
  then show ?thesis using nonempty_canon [OF tree(2,3) assms(3)] by blast
qed

lemma trie_Hash_defined:
  assumes "crypto_ok cr" "trie_map t m" "t_db t = None" "m \<noteq> Map.empty" "commit_ok cr (node_encs cr (t_root t)) Map.empty"
  shows "\<exists>h. trie_Hash cr t = Some h"
proof -
  obtain tree where "expands None (t_root t) tree" "canon tree" using trie_map_tree [OF assms(2-4)] by blast
  then obtain h where "hashRoot cr (t_root t) None = Some (HashN h, None)"
    using hashRoot_BytesToHash [OF assms(1) _ _ assms(5)] by blast
  then show ?thesis by (simp add: trie_Hash_def)
qed

lemma trie_Hash_inject:
  assumes "crypto_ok cr" "trie_map t m" "t_db t = None" "m \<noteq> Map.empty" "trie_map t' m'" "t_db t' = None" "m' \<noteq> Map.empty"
    and ok: "commit_ok cr (node_encs cr (t_root t) \<union> node_encs cr (t_root t')) Map.empty"
    and "trie_Hash cr t = trie_Hash cr t'"
  shows "m = m'"
proof -
  obtain a where a: "expands None (t_root t) a" "canon a" "lookup a = hex_map m" using trie_map_tree [OF assms(2-4)] by blast
  obtain b where b: "expands None (t_root t') b" "canon b" "lookup b = hex_map m'" using trie_map_tree [OF assms(5-7)] by blast
  obtain h where h: "hashRoot cr (t_root t) None = Some (HashN h, None)" "length h = 32"
    using hashRoot_BytesToHash [OF assms(1) a(1,2) commit_ok_subset [OF ok Un_upper1]] by blast
  obtain h' where h': "hashRoot cr (t_root t') None = Some (HashN h', None)" "length h' = 32"
    using hashRoot_BytesToHash [OF assms(1) b(1,2) commit_ok_subset [OF ok Un_upper2]] by blast
  have "BytesToHash h = BytesToHash h'" using assms(9) h(1) h'(1) by (simp add: trie_Hash_def)
  then have "h = h'" using Hash_Bytes_BytesToHash h(2) h'(2) by metis
  then have "a = b" using hashRoot_inject [OF assms(1) a(1,2) b(1,2) ok] h(1) h'(1) by simp
  then have "hex_map m = hex_map m'" using a(3) b(3) by simp
  then have "hex_map m (compactHexDecode key) = hex_map m' (compactHexDecode key)" for key by simp
  then show ?thesis unfolding hex_map_key by (rule ext)
qed

section \<open>Properties\<close>

text \<open>
  C13. Committing a trie and loading it again by the hash that the commit returns gives a trie with
  the same map, whatever part of the trie was loaded before, and the nodes that the database had
  are kept. The hash is the one that Hash computes without writing anything. The encodings of the
  nodes must not collide under the hash, with each other or with the contents of the database, and
  the hash must not be one of the two that stand for the empty trie.
\<close>

theorem commit_reload:
  assumes "crypto_ok cr" "trie_map t m" "t_db t = Some db" "m \<noteq> Map.empty"
    and "commit_ok cr (node_encs cr (t_root t)) db"
    and "trie_Hash cr t \<noteq> Some 0" "trie_Hash cr t \<noteq> Some emptyRoot"
  shows "\<exists>h t' db'. trie_Commit cr t = Some (h, t') \<and> trie_Hash cr t = Some h \<and> t_db t' = Some db' \<and> db \<subseteq>\<^sub>m db' \<and>
    trie_map t' m \<and> (\<exists>t''. trie_New h (Some db') = Some (Inr t'') \<and> trie_map t'' m)"
proof -
  obtain tree where tree: "expands (Some db) (t_root t) tree" "canon_or_nil tree" "lookup tree = hex_map m"
    using assms(2,3) unfolding trie_map_def by auto
  have "canon tree" using nonempty_canon [OF tree(2,3) assms(4)] .
  from hashRoot_ok [OF assms(1) tree(1) this assms(5) order.refl] obtain h db' where h:
    "hashRoot cr (t_root t) (Some db) = Some (HashN h, Some db')" "hashRoot cr (t_root t) None = Some (HashN h, None)"
    "length h = 32" "db \<subseteq>\<^sub>m db'" "expands (Some db') (HashN h) tree" by blast
  have hash: "trie_Hash cr t = Some (BytesToHash h)" using h(2) by (simp add: trie_Hash_def)
  have "trie_Commit cr t = Some (BytesToHash h, t\<lparr>t_root := HashN h, t_db := Some db'\<rparr>)"
    using h(1) assms(3) by (simp add: trie_Commit_def CommitTo_def)
  moreover have "trie_New (BytesToHash h) (Some db') = Some (Inr \<lparr>t_root = HashN h, t_db = Some db'\<rparr>)"
    using trie_New_stored [OF h(5,3)] assms(6,7) hash by simp
  ultimately show ?thesis using hash h(4,5) tree(2,3) unfolding trie_map_def by auto
qed

end
