(* ===== verification/Blocks.thy ===== *)
theory Blocks
  imports Transaction Bloom Trie_Commit
begin

text \<open>
  Headers and blocks, \<^verbatim>\<open>src/core/types/block.go\<close>, and the root hash of a list,
  \<^verbatim>\<open>src/core/types/derive_sha.go\<close>. The numbers of a header are set; copies of headers and lists are
  values, and the caches of a block (hash, size) hold what the methods compute.
\<close>

section \<open>Headers\<close>

definition EncodeNonce :: "uint64 \<Rightarrow> bytes" where
  "EncodeNonce i = map (\<lambda>k. ucast (drop_bit k i)) [56, 48, 40, 32, 24, 16, 8, 0]"

definition Nonce_Uint64 :: "bytes \<Rightarrow> uint64" where
  "Nonce_Uint64 n = word_of_nat (be_nat n)"

record header =
  hd_ParentHash :: hash
  hd_UncleHash :: hash
  hd_Coinbase :: address
  hd_Root :: hash
  hd_TxHash :: hash
  hd_ReceiptHash :: hash
  hd_Bloom :: bloom
  hd_Difficulty :: int
  hd_Number :: int
  hd_GasLimit :: int
  hd_GasUsed :: int
  hd_Time :: int
  hd_Extra :: bytes
  hd_MixDigest :: hash
  hd_Nonce :: bytes

text \<open>The fields that both hashes of a header cover, and the whole header.\<close>

definition header_fields :: "header \<Rightarrow> rlp_val list" where
  "header_fields h =
     [VByteArray (Hash_Bytes (hd_ParentHash h)), VByteArray (Hash_Bytes (hd_UncleHash h)),
      VByteArray (Address_Bytes (hd_Coinbase h)), VByteArray (Hash_Bytes (hd_Root h)),
      VByteArray (Hash_Bytes (hd_TxHash h)), VByteArray (Hash_Bytes (hd_ReceiptHash h)),
      VByteArray (hd_Bloom h), VBig (Some (hd_Difficulty h)), VBig (Some (hd_Number h)),
      VBig (Some (hd_GasLimit h)), VBig (Some (hd_GasUsed h)), VBig (Some (hd_Time h)), VBytes (hd_Extra h)]"

definition header_val :: "header \<Rightarrow> rlp_val" where
  "header_val h = VList (header_fields h @ [VByteArray (Hash_Bytes (hd_MixDigest h)), VByteArray (hd_Nonce h)])"

definition Header_Hash :: "crypto \<Rightarrow> header \<Rightarrow> hash" where
  "Header_Hash cr h = rlpHash cr (header_val h)"

definition HashNoNonce :: "crypto \<Rightarrow> header \<Rightarrow> hash" where
  "HashNoNonce cr h = rlpHash cr (VList (header_fields h))"

definition CalcUncleHash :: "crypto \<Rightarrow> header list \<Rightarrow> hash" where
  "CalcUncleHash cr uncles = rlpHash cr (VList (map header_val uncles))"

section \<open>Root hashes of lists\<close>

text \<open>
  The loop of \<open>DeriveSha\<close> over the indices of a list, on a trie without a database; \<open>getRlp\<close> is the
  method \<open>GetRlp\<close> of the list.
\<close>

definition index_key :: "nat \<Rightarrow> bytes" where
  "index_key i = (case EncodeToBytes (VUint (word_of_nat i)) of Inr b \<Rightarrow> b | Inl err \<Rightarrow> [])"

primrec derive_loop :: "(nat \<Rightarrow> bytes option) \<Rightarrow> nat list \<Rightarrow> trie \<Rightarrow> trie option" where
  "derive_loop getRlp [] t = Some t"
| "derive_loop getRlp (i # ixs) t =
     do { v \<leftarrow> getRlp i; t \<leftarrow> trie_Update t (index_key i) v; derive_loop getRlp ixs t }"

definition DeriveSha :: "crypto \<Rightarrow> nat \<Rightarrow> (nat \<Rightarrow> bytes option) \<Rightarrow> hash option" where
  "DeriveSha cr n getRlp = do { t \<leftarrow> derive_loop getRlp [0..<n] \<lparr>t_root = NilN, t_db = None\<rparr>; trie_Hash cr t }"

section \<open>Blocks\<close>

record block =
  bl_header :: header
  bl_uncles :: "header list"
  bl_transactions :: "txdata list"

definition Block_Hash :: "crypto \<Rightarrow> block \<Rightarrow> hash" where
  "Block_Hash cr b = rlpHash cr (header_val (bl_header b))"

definition Block_Transaction :: "crypto \<Rightarrow> block \<Rightarrow> hash \<Rightarrow> txdata option" where
  "Block_Transaction cr b h = find (\<lambda>tx. tx_Hash cr tx = h) (bl_transactions b)"

definition tx_root :: "crypto \<Rightarrow> txdata list \<Rightarrow> hash option" where
  "tx_root cr txs = DeriveSha cr (length txs) (Transactions_GetRlp txs)"

definition receipt_root :: "crypto \<Rightarrow> receipt list \<Rightarrow> hash option" where
  "receipt_root cr rs = DeriveSha cr (length rs) (Receipts_GetRlp rs)"

text \<open>
  \<open>NewBlock\<close>. The hash of the empty list is computed when the program starts. Where there are no
  receipts the bloom filter of the given header is kept.
\<close>

definition NewBlock :: "crypto \<Rightarrow> header \<Rightarrow> txdata list \<Rightarrow> header list \<Rightarrow> receipt list \<Rightarrow> block option" where
  "NewBlock cr h txs uncles receipts =
     do { th \<leftarrow> (if txs = [] then tx_root cr [] else tx_root cr txs);
          h \<leftarrow> (if receipts = [] then do { r \<leftarrow> tx_root cr []; Some (h\<lparr>hd_TxHash := th, hd_ReceiptHash := r\<rparr>) }
                else do { r \<leftarrow> receipt_root cr receipts;
                          b \<leftarrow> CreateBloom cr receipts;
                          Some (h\<lparr>hd_TxHash := th, hd_ReceiptHash := r, hd_Bloom := b\<rparr>) });
          let h = h\<lparr>hd_UncleHash := (if uncles = [] then CalcUncleHash cr [] else CalcUncleHash cr uncles)\<rparr> in
          Some \<lparr>bl_header = h, bl_uncles = uncles, bl_transactions = txs\<rparr> }"

definition NewBlockWithHeader :: "header \<Rightarrow> block" where
  "NewBlockWithHeader h = \<lparr>bl_header = h, bl_uncles = [], bl_transactions = []\<rparr>"

definition WithMiningResult :: "block \<Rightarrow> uint64 \<Rightarrow> hash \<Rightarrow> block" where
  "WithMiningResult b nonce mixDigest =
     b\<lparr>bl_header := (bl_header b)\<lparr>hd_Nonce := EncodeNonce nonce, hd_MixDigest := mixDigest\<rparr>\<rparr>"

definition WithBody :: "block \<Rightarrow> txdata list \<Rightarrow> header list \<Rightarrow> block" where
  "WithBody b txs uncles = \<lparr>bl_header = bl_header b, bl_uncles = uncles, bl_transactions = txs\<rparr>"

section \<open>The keys of a derived trie\<close>







section \<open>What the root of a list stands for\<close>















section \<open>Properties\<close>


end
