(* ===== verification/Applications.thy ===== *)
theory Applications
  imports Sample Blocks
begin

text \<open>
  The properties of transactions, of the tries and of the root of a list of transactions at concrete inputs.
\<close>

definition sample_signer :: crypto where
  "sample_signer = sample_crypto\<lparr>RecoverPubkey := (\<lambda>h s. Some (4 # replicate 64 0))\<rparr>"

lemma sample_signer_ok: "crypto_ok sample_signer"
  using sample_crypto_ok by (simp add: crypto_ok_def sample_signer_def)

definition sample_tx :: txdata where
  "sample_tx = NewTransaction 0 5 (Some 10) (Some 21000) (Some 1) []"

theorem sign_recover_witness:
  "\<exists>tx'. SignECDSA sample_signer (\<lambda>h. Inr (replicate 31 0 @ [1] @ replicate 31 0 @ [1, 0]) :: unit + bytes) sample_tx = Some (Inr tx') \<and>
     tx_From sample_signer tx' = Some (Inr 1)"
proof -
  let ?sig = "replicate 31 0 @ [1] @ replicate 31 0 @ [1, 0 :: byte]" and ?pub = "4 # replicate 64 (0 :: byte)"
  have "0 < be_nat (take 32 ?sig)" "int (be_nat (take 32 ?sig)) < secp256k1n"
    "0 < be_nat (take 32 (drop 32 ?sig))" "int (be_nat (take 32 (drop 32 ?sig))) < secp256k1n"
    by (simp_all add: secp256k1n_def be_nat_append)
  then obtain tx' where "SignECDSA sample_signer (\<lambda>h. Inr ?sig :: unit + bytes) sample_tx = Some (Inr tx')"
    "tx_From sample_signer tx' = Some (Inr (BytesToAddress (drop 12 (Sha3 sample_signer (drop 1 ?pub)))))"
    using sign_recover [OF sample_signer_ok, of "\<lambda>h. Inr ?sig :: unit + bytes" sample_tx ?sig ?pub]
    by (auto simp: sample_signer_def nth_append)
  moreover have "BytesToAddress (drop 12 (Sha3 sample_signer (drop 1 ?pub))) = 1"
    by (simp add: Sha3_def sample_signer_def sample_crypto_def sample_keccak_def BytesToAddress_def be_nat_append)
  ultimately show ?thesis by auto
qed

text \<open>Two transactions whose encodings differ in the byte that the sample digest depends on.\<close>

lemma rlp_sample_tx:
  "rlp (tx_EncodeRLP (NewTransaction 0 a (Some 10) (Some 21000) (Some 1) [])) =
     [0xDF, 0x80, 1, 0x82, 0x52, 0x08, 0x94] @ Address_Bytes a @ [10, 0x80, 0x80, 0x80, 0x80]"
proof -
  have b: "big_Bytes 1 = [1]" "big_Bytes 10 = [10]" "big_Bytes 21000 = [0x52, 0x08]"
    by (simp_all add: big_Bytes_def le_bytes.simps)
  have s: "rlp_string [] = [0x80]" "rlp_string [1] = [1]" "rlp_string [10] = [10]" "rlp_string [0x52, 0x08] = [0x82, 0x52, 0x08]"
    "rlp_string (Address_Bytes a) = 0x94 # Address_Bytes a"
    by (simp_all add: rlp_string_def rlp_header_def)
  have t: "tx_strings (NewTransaction 0 a (Some 10) (Some 21000) (Some 1) []) = [[], [1], [0x52, 0x08], Address_Bytes a, [10], [], [], [], []]"
    by (simp add: tx_strings_def NewTransaction_def recipient_bytes_def b)
  show ?thesis
    unfolding rlp_tx t by (simp add: s rlp_list_def rlp_header_def)
qed

theorem tx_hash_identifies_witness:
  "tx_Hash sample_crypto (NewTransaction 0 5 (Some 10) (Some 21000) (Some 1) []) \<noteq>
   tx_Hash sample_crypto (NewTransaction 0 (2 ^ 40) (Some 10) (Some 21000) (Some 1) [])"
proof -
  let ?t = "\<lambda>a. NewTransaction 0 a (Some 10) (Some 21000) (Some 1) []"
  have b: "Address_Bytes 5 ! 14 = 0" "Address_Bytes (2 ^ 40) ! 14 = 1"
    by (simp_all add: Address_Bytes_def big_Bytes_def le_bytes.simps LeftPadBytes_def copy_into_def overwrite_def slice_def nth_append)
  have "Sha3Hash sample_crypto (rlp (tx_EncodeRLP (?t a))) = (if Address_Bytes a ! 14 = 0 then 1 else 0)" for a
    by (simp add: rlp_sample_tx Sha3Hash_def sample_crypto_def sample_keccak_def nth_append BytesToHash_def be_nat_append)
  then have inj: "inj_on (Sha3Hash sample_crypto) {rlp (tx_EncodeRLP (?t 5)), rlp (tx_EncodeRLP (?t (2 ^ 40)))}"
    using b by (auto simp: inj_on_def)
  have "?t 5 \<noteq> ?t (2 ^ 40)" by (simp add: NewTransaction_def)
  moreover have "tx_numbers_ok (?t a)" for a
    by (simp add: tx_numbers_ok_def NewTransaction_def)
  moreover have "length (rlp (tx_EncodeRLP (?t a))) + 9 < 2 ^ 64" for a
    by (simp add: rlp_sample_tx)
  ultimately show ?thesis using tx_hash_identifies [OF _ _ _ _ inj] by blast
qed

theorem secure_trie_refines_map_witness:
  "\<exists>t'. updates (SecureTrie_Update sample_crypto) \<lparr>t_root = NilN, t_db = Some Map.empty\<rparr> [([], [7]), (replicate 22 0, [8]), ([], [9])] = Some t' \<and>
     SecureTrie_Get sample_crypto t' [] = Some (Some [9]) \<and>
     SecureTrie_GetKey t' (hashKey sample_crypto []) = Some (Some [])"
proof -
  let ?K = "{[], replicate 22 0} :: bytes set" and ?kvs = "[([], [7]), (replicate 22 0, [8]), ([], [9])] :: (bytes \<times> bytes) list"
  let ?e = "\<lparr>t_root = NilN, t_db = Some Map.empty\<rparr>"
  have "inj_on (keccak256 sample_crypto) ?K"
    by (simp add: sample_crypto_def sample_keccak_def)
  then have "secure_map sample_crypto ?K ?e Map.empty"
    using sample_crypto_ok trie_map_empty [of "Some Map.empty"] by (auto simp: secure_map_def intro!: exI [of _ Map.empty])
  then show ?thesis
    using secure_trie_refines_map [of sample_crypto ?K ?e Map.empty ?kvs "[]"] by (auto simp: put_def)
qed

text \<open>A trie with one leaf.\<close>

definition sample_leaf :: trie where
  "sample_leaf = \<lparr>t_root = ShortN [16] (ValueN (replicate 22 0)), t_db = Some Map.empty\<rparr>"

lemma sample_leaf_map: "trie_map sample_leaf [[] \<mapsto> replicate 22 0]"
proof -
  have "trie_Update \<lparr>t_root = NilN, t_db = Some Map.empty\<rparr> [] (replicate 22 0) = Some sample_leaf"
    by (simp add: trie_Update_def compactHexDecode_def trie_insert.simps sample_leaf_def)
  then show ?thesis using trie_Update_map [OF trie_map_empty [of "Some Map.empty"], of "replicate 22 0" "[]"] by simp
qed

lemma sample_leaf_enc:
  "replaceChildren cr (t_root sample_leaf) None = Some (ShortN [0x20] (ValueN (replicate 22 0)), None)"
  "rlp (node_val (ShortN [0x20] (ValueN (replicate 22 0)))) = [0xD8, 0x20, 0x96] @ replicate 22 0"
proof -
  have "compactEncode [16] = Some [0x20]" by code_simp
  then show "replaceChildren cr (t_root sample_leaf) None = Some (ShortN [0x20] (ValueN (replicate 22 0)), None)"
    by (simp add: sample_leaf_def)
qed (simp add: rlp_list_def rlp_string_def rlp_header_def)

theorem commit_reload_witness:
  "\<exists>t' db'. trie_Commit sample_crypto sample_leaf = Some (1, t') \<and> t_db t' = Some db' \<and>
     (\<exists>t''. trie_New 1 (Some db') = Some (Inr t'') \<and> trie_map t'' [[] \<mapsto> replicate 22 0])"
proof -
  let ?n = "ShortN [0x20] (ValueN (replicate 22 0))" and ?e = "[0xD8, 0x20, 0x96] @ replicate 22 (0 :: byte)"
  have "subnodes (t_root sample_leaf) = {t_root sample_leaf}" by (simp add: sample_leaf_def)
  then have "node_encs sample_crypto (t_root sample_leaf) = {?e}"
    unfolding node_encs_def using sample_leaf_enc(1) [of sample_crypto] sample_leaf_enc(2) by auto
  then have ok: "commit_ok sample_crypto (node_encs sample_crypto (t_root sample_leaf)) Map.empty"
    by (simp add: commit_ok_def in_size_def)
  have small: "length (rlp (node_val ?n)) < 2 ^ 64" unfolding sample_leaf_enc(2) by simp
  then have enc: "EncodeToBytes (node_val ?n) = Inr ?e"
    using EncodeToBytes_eq [OF small] sample_leaf_enc(2) by (simp only: encodable_node if_True)
  have "keccak256 sample_crypto ?e = replicate 31 0 @ [1]"
    by (simp add: sample_crypto_def sample_keccak_def)
  then have "trie_Hash sample_crypto sample_leaf = Some (BytesToHash (replicate 31 0 @ [1]))"
    using sample_leaf_enc(1) [of sample_crypto] enc
    by (simp add: trie_Hash_def hashRoot_def hasher_hash_def hasher_store_def sample_leaf_def del: append_Cons replaceChildren.simps node_val.simps)
  then have h: "trie_Hash sample_crypto sample_leaf = Some 1" by (simp add: BytesToHash_be_nat be_nat_append)
  show ?thesis
    using commit_reload [OF sample_crypto_ok sample_leaf_map _ _ ok] h by (auto simp: sample_leaf_def emptyRoot_def)
qed


abbreviation "pay_bytes a \<equiv> [0xDF, 0x80, 1, 0x82, 0x52, 0x08, 0x94] @ Address_Bytes a @ [10, 0x80, 0x80, 0x80, 0x80]"





end
