(* ===== verification/State_Transition.thy ===== *)
theory State_Transition
  imports Exec Transaction
begin

text \<open>
  The application of a message to the state: \<^verbatim>\<open>src/core/state_transition.go\<close> and the gas pool of a
  block, \<^verbatim>\<open>src/core/gaspool.go\<close>.

  A \<open>StateTransition\<close> holds the gas pool, the gas left, the gas bought and the state; its other
  fields repeat the message and the environment. The gas counter is passed to the virtual machine
  by pointer, so after a call it is what the call hands back. The account that \<open>from\<close> returns is
  named by its address, and every access through it goes to the object that the state holds.
\<close>

section \<open>Messages and errors\<close>

record message =
  msg_From :: "sig_error + address"
  msg_To :: "address option"
  msg_GasPrice :: int
  msg_Gas :: int
  msg_Value :: int
  msg_Nonce :: uint64
  msg_Data :: bytes

datatype core_error =
    SenderErr sig_error
  | InsufficientFunds address int int
  | GasLimitErr int int
  | NonceErr uint64 uint64
  | VmErr vm_error
  | InvalidTxErr core_error

definition IsGasLimitErr :: "core_error \<Rightarrow> bool" where
  "IsGasLimitErr err = (case err of GasLimitErr have want \<Rightarrow> True | _ \<Rightarrow> False)"

definition IsValueTransferErr :: "vm_error \<Rightarrow> bool" where
  "IsValueTransferErr err = (case err of ValueTransferErr val has \<Rightarrow> True | _ \<Rightarrow> False)"

definition MessageCreatesContract :: "message \<Rightarrow> bool" where
  "MessageCreatesContract msg = (msg_To msg = None)"

definition IntrinsicGas :: "bytes \<Rightarrow> int" where
  "IntrinsicGas data =
     (let igas = TxGas in
      if length data > 0 then
        let nz = fold (\<lambda>byt nz. if byt \<noteq> 0 then nz + 1 else nz) data (0 :: int);
            igas = igas + nz * TxDataNonZeroGas in
        igas + (int (length data) - nz) * TxDataZeroGas
      else igas)"

section \<open>The gas pool\<close>

definition AddGas :: "int \<Rightarrow> int \<Rightarrow> int" where
  "AddGas gp amount = gp + amount"

definition SubGas :: "int \<Rightarrow> int \<Rightarrow> core_error + int" where
  "SubGas gp amount = (if gp < amount then Inl (GasLimitErr gp amount) else Inr (gp - amount))"

section \<open>State transitions\<close>

record state_transition =
  sx_gp :: int
  sx_gas :: int
  sx_initialGas :: int
  sx_world :: world

abbreviation sx_db :: "state_transition \<Rightarrow> statedb" where
  "sx_db st \<equiv> w_db (sx_world st)"

definition sx_set_db :: "statedb \<Rightarrow> state_transition \<Rightarrow> state_transition" where
  "sx_set_db db st = st\<lparr>sx_world := (sx_world st)\<lparr>w_db := db\<rparr>\<rparr>"

text \<open>The account at an address, created where there is none: the shared part of \<open>from\<close> and \<open>to\<close>.\<close>

definition account_or_new :: "statedb \<Rightarrow> address \<Rightarrow> statedb" where
  "account_or_new db a =
     (case Exist db a of (ex, db) \<Rightarrow> if \<not> ex then CreateAccount db a else snd (GetStateObject db a))"

definition st_from :: "message \<Rightarrow> state_transition \<Rightarrow> (core_error + address) \<times> state_transition" where
  "st_from msg st =
     (case msg_From msg of
        Inl err \<Rightarrow> (Inl (SenderErr err), st)
      | Inr f \<Rightarrow> (Inr f, sx_set_db (account_or_new (sx_db st) f) st))"

definition st_to :: "message \<Rightarrow> state_transition \<Rightarrow> address option \<times> state_transition" where
  "st_to msg st =
     (case msg_To msg of
        None \<Rightarrow> (None, st)
      | Some to \<Rightarrow> (Some to, sx_set_db (account_or_new (sx_db st) to) st))"

definition st_useGas :: "int \<Rightarrow> state_transition \<Rightarrow> core_error + state_transition" where
  "st_useGas amount st =
     (if sx_gas st < amount then Inl (VmErr OutOfGasError) else Inr (st\<lparr>sx_gas := sx_gas st - amount\<rparr>))"

definition st_addGas :: "int \<Rightarrow> state_transition \<Rightarrow> state_transition" where
  "st_addGas amount st = st\<lparr>sx_gas := sx_gas st + amount\<rparr>"

definition buyGas :: "message \<Rightarrow> state_transition \<Rightarrow> (core_error option \<times> state_transition) option" where
  "buyGas msg st =
     (let mgas = msg_Gas msg; mgval = mgas * msg_GasPrice msg in
      case st_from msg st of
        (Inl err, st) \<Rightarrow> Some (Some err, st)
      | (Inr sender, st) \<Rightarrow>
          (let (b, db) = GetBalance (sx_db st) sender; st = sx_set_db db st in
           if b < mgval then Some (Some (InsufficientFunds sender mgval b), st)
           else
             case SubGas (sx_gp st) mgas of
               Inl err \<Rightarrow> Some (Some err, st)
             | Inr gp \<Rightarrow>
                 (let st = (st_addGas mgas (st\<lparr>sx_gp := gp\<rparr>))\<lparr>sx_initialGas := mgas\<rparr> in
                  do { db \<leftarrow> Account_SubBalance (sx_db st) sender mgval;
                       Some (None, sx_set_db db st) })))"

definition preCheck :: "message \<Rightarrow> state_transition \<Rightarrow> (core_error option \<times> state_transition) option" where
  "preCheck msg st =
     (case st_from msg st of
        (Inl err, st) \<Rightarrow> Some (Some err, st)
      | (Inr sender, st) \<Rightarrow>
          (let (n, db) = GetNonce (sx_db st) sender; st = sx_set_db db st in
           if n \<noteq> msg_Nonce msg then Some (Some (NonceErr (msg_Nonce msg) n), st)
           else
             do { (err, st) \<leftarrow> buyGas msg st;
                  case err of
                    None \<Rightarrow> Some (None, st)
                  | Some err \<Rightarrow>
                      Some (Some (if IsGasLimitErr err then err else InvalidTxErr err), st) }))"

definition gasUsed :: "state_transition \<Rightarrow> int" where
  "gasUsed st = sx_initialGas st - sx_gas st"

text \<open>
  \<open>refundGas\<close>. Where the counter of the state is the smaller number, \<open>BigMin\<close> returns the counter
  itself, and \<open>refund.Mul\<close> overwrites it in the state with the amount that is paid.
\<close>

definition refundGas :: "message \<Rightarrow> state_transition \<Rightarrow> state_transition option" where
  "refundGas msg st =
     (case st_from msg st of
        (Inl err, st) \<Rightarrow> None
      | (Inr sender, st) \<Rightarrow>
          do { db \<leftarrow> Account_AddBalance (sx_db st) sender (sx_gas st * msg_GasPrice msg);
               let uhalf = gasUsed st div 2;
                   counter = GetRefund db;
                   rfnd = BigMin uhalf counter;
                   st = st\<lparr>sx_gas := sx_gas st + rfnd\<rparr>;
                   paid = rfnd * msg_GasPrice msg;
                   db = (if uhalf > counter then db\<lparr>refund := paid\<rparr> else db);
                   st = sx_set_db (AddBalance db sender paid) st in
               Some (st\<lparr>sx_gp := AddGas (sx_gp st) (sx_gas st)\<rparr>) })"

text \<open>The creation of a contract and the call of the recipient, with the state they leave.\<close>

definition st_create :: "vm_env \<Rightarrow> message \<Rightarrow> address \<Rightarrow> state_transition \<Rightarrow>
    (bytes \<times> vm_error option \<times> state_transition) option" where
  "st_create vmenv msg sender st =
     do { r \<leftarrow> env_Create vmenv (env_Depth vmenv) ((sx_world st)\<lparr>w_dests := Map.empty\<rparr>) sender (msg_Data msg)
                (sx_gas st) (msg_GasPrice msg) (msg_Value msg);
          let st = st\<lparr>sx_gas := res_gas r, sx_world := res_world r\<rparr> in
          if res_err r = None then
            let dataGas = int (length (res_ret r)) * CreateDataGas in
            case st_useGas dataGas st of
              Inr st \<Rightarrow> Some (res_ret r, None, sx_set_db (SetCode (sx_db st) (res_addr r) (res_ret r)) st)
            | Inl err \<Rightarrow> Some ([], None, st)
          else Some (res_ret r, res_err r, st) }"

definition st_call :: "vm_env \<Rightarrow> message \<Rightarrow> address \<Rightarrow> state_transition \<Rightarrow>
    (bytes \<times> vm_error option \<times> state_transition) option" where
  "st_call vmenv msg sender st =
     (let (n, db) = GetNonce (sx_db st) sender;
          st = sx_set_db (SetNonce db sender (n + 1)) st in
      case st_to msg st of
        (None, st) \<Rightarrow> None
      | (Some to, st) \<Rightarrow>
          do { r \<leftarrow> env_Call vmenv (env_Depth vmenv) ((sx_world st)\<lparr>w_dests := Map.empty\<rparr>) sender to (msg_Data msg)
                     (sx_gas st) (msg_GasPrice msg) (msg_Value msg);
               Some (res_ret r, res_err r, st\<lparr>sx_gas := res_gas r, sx_world := res_world r\<rparr>) })"

definition transitionDb :: "vm_env \<Rightarrow> message \<Rightarrow> state_transition \<Rightarrow>
    ((core_error + bytes \<times> int) \<times> state_transition) option" where
  "transitionDb vmenv msg st =
     do { (err, st) \<leftarrow> preCheck msg st;
          case err of
            Some err \<Rightarrow> Some (Inl err, st)
          | None \<Rightarrow>
              (case st_from msg st of
                 (Inl err, st) \<Rightarrow> None
               | (Inr sender, st) \<Rightarrow>
                   (case st_useGas (IntrinsicGas (msg_Data msg)) st of
                      Inl err \<Rightarrow> Some (Inl (InvalidTxErr err), st)
                    | Inr st \<Rightarrow>
                        do { (ret, err, st) \<leftarrow>
                               (if MessageCreatesContract msg then st_create vmenv msg sender st
                                else st_call vmenv msg sender st);
                             if (case err of Some e \<Rightarrow> IsValueTransferErr e | None \<Rightarrow> False)
                             then Some (Inl (InvalidTxErr (VmErr (the err))), st)
                             else
                               do { st \<leftarrow> refundGas msg st;
                                    let db = AddBalance (sx_db st) (env_Coinbase vmenv) (gasUsed st * msg_GasPrice msg);
                                        st = sx_set_db db st in
                                    Some (Inr (ret, gasUsed st), st) } })) }"

definition ApplyMessage :: "vm_env \<Rightarrow> world \<Rightarrow> message \<Rightarrow> int \<Rightarrow>
    ((core_error + bytes \<times> int) \<times> state_transition) option" where
  "ApplyMessage env w msg gp =
     transitionDb env msg \<lparr>sx_gp = gp, sx_gas = 0, sx_initialGas = 0, sx_world = w\<rparr>"

end
