(* ===== verification/State_Transition_Facts.thy ===== *)
theory State_Transition_Facts
  imports State_Transition Exec_Facts
begin

text \<open>
  The application of a message is defined, keeps the invariant of the state and creates no value:
  what the sender pays for gas is what the refund, the unused gas and the coinbase get. The checks
  that precede the execution are decided by the nonce, the balance and the gas pool, in this order.
\<close>

section \<open>Crediting accounts\<close>

lemma total_supply_AddBalance: "total_supply (AddBalance db a v) = total_supply db + v"
  using total_supply_upd [of "AddBalance db a v" db a "bal db a + v"] by (simp add: bal_simps)

lemma db_step_credit:
  assumes "db_step db0 db" "0 \<le> v" "total_supply db + v \<le> total_supply db0" "total_supply db0 < 2 ^ 256"
  shows "db_step db0 (AddBalance db a v)"
proof -
  have "total_supply db + v < 2 ^ 256" using assms(3,4) by linarith
  then show ?thesis
    using assms by (auto simp: db_step_def db_ok_def bal_simps total_supply_AddBalance)
qed

lemma Account_AddBalance_ok:
  assumes "exists_acct db a"
  obtains db' where "Account_AddBalance db a v = Some db'" "bal db' = (bal db)(a := bal db a + v)"
    "exists_acct db' = exists_acct db" "code_of db' = code_of db" "refund db' = refund db"
    "same_frame db db'"
proof -
  obtain db' where r: "Account_AddBalance db a v = Some db'" using sdb.credit_defined [OF assms] by blast
  have "same_frame db db'" using live_Account(6) [OF r, of db] by simp
  then show ?thesis
    using that [OF r sdb.credit_balance [OF r] sdb.credit_present [OF r] code_Account(2) [OF r] refund_Account(2) [OF r]]
    by blast
qed

lemma Account_SubBalance_ok:
  assumes "exists_acct db a"
  obtains db' where "Account_SubBalance db a v = Some db'" "bal db' = (bal db)(a := bal db a - v)"
    "exists_acct db' = exists_acct db" "code_of db' = code_of db" "refund db' = refund db"
    "same_frame db db'"
proof -
  obtain db' where r: "Account_SubBalance db a v = Some db'" using sdb.debit_defined [OF assms] by blast
  have "same_frame db db'" using live_Account(5) [OF r, of db] by simp
  then show ?thesis
    using that [OF r sdb.debit_balance [OF r] sdb.debit_present [OF r] code_Account(1) [OF r] refund_Account(1) [OF r]]
    by blast
qed

lemma account_or_new_eq: "account_or_new db a = to_account db False a"
  by (simp add: account_or_new_def to_account_def)

lemmas account_or_new_ok = to_account_ok [of _ False, folded account_or_new_eq]

section \<open>The checks before the execution\<close>

text \<open>The nonce that the checks see: an account that does not exist yet is created first.\<close>

definition nonce_of :: "statedb \<Rightarrow> address \<Rightarrow> uint64" where
  "nonce_of db a = (case live db a of Some so \<Rightarrow> so_nonce so | None \<Rightarrow> db_StartingNonce db)"

lemma nonce_account_or_new: "fst (GetNonce (account_or_new db a) a) = nonce_of db a"
proof -
  have "db_StartingNonce (snd (Exist db a)) = db_StartingNonce db"
    using frame_queries(1) [of db db a] by (simp add: same_frame_def)
  then show ?thesis
    by (simp add: account_or_new_def case_prod_beta live_simps nonce_of_def created_def fresh_def so_SetNonce_def
        split: option.split)
qed

definition precheck_error :: "message \<Rightarrow> address \<Rightarrow> int \<Rightarrow> statedb \<Rightarrow> core_error option" where
  "precheck_error msg s gp db =
     (let cost = msg_Gas msg * msg_GasPrice msg in
      if nonce_of db s \<noteq> msg_Nonce msg then Some (NonceErr (msg_Nonce msg) (nonce_of db s))
      else if bal db s < cost then Some (InvalidTxErr (InsufficientFunds s cost (bal db s)))
      else if gp < msg_Gas msg then Some (GasLimitErr gp (msg_Gas msg))
      else None)"

text \<open>What the transition has after the checks.\<close>

definition bought :: "message \<Rightarrow> address \<Rightarrow> state_transition \<Rightarrow> state_transition \<Rightarrow> bool" where
  "bought msg s st st' \<longleftrightarrow>
     sx_gp st' = sx_gp st - msg_Gas msg \<and> sx_gas st' = sx_gas st + msg_Gas msg \<and>
     sx_initialGas st' = msg_Gas msg \<and> db_step (sx_db st) (sx_db st') \<and> exists_acct (sx_db st') s \<and>
     bal (sx_db st') = (bal (sx_db st))(s := bal (sx_db st) s - msg_Gas msg * msg_GasPrice msg)"

definition untouched :: "state_transition \<Rightarrow> state_transition \<Rightarrow> bool" where
  "untouched st st' \<longleftrightarrow>
     sx_gp st' = sx_gp st \<and> sx_gas st' = sx_gas st \<and> db_step (sx_db st) (sx_db st') \<and>
     bal (sx_db st') = bal (sx_db st)"

lemma sx_set_db_simps [simp]:
  "sx_db (sx_set_db db st) = db" "sx_gp (sx_set_db db st) = sx_gp st" "sx_gas (sx_set_db db st) = sx_gas st"
  "sx_initialGas (sx_set_db db st) = sx_initialGas st"
  by (simp_all add: sx_set_db_def)

lemma st_from_ok:
  assumes "msg_From msg = Inr s" "db_ok (sx_db st)"
  obtains st' where "st_from msg st = (Inr s, st')" "untouched st st'" "exists_acct (sx_db st') s"
    "sx_initialGas st' = sx_initialGas st" "sx_db st' = account_or_new (sx_db st) s"
  using assms account_or_new_ok [OF assms(2), of s] by (simp add: st_from_def untouched_def)

lemma untouched_trans: "untouched a b \<Longrightarrow> untouched b c \<Longrightarrow> untouched a c"
  by (auto simp: untouched_def intro: db_step_trans)

lemma untouched_ok: "untouched st st' \<Longrightarrow> db_ok (sx_db st')"
  by (simp add: untouched_def db_step_def)

lemma untouched_query:
  assumes "untouched st st'" "db_step (sx_db st') db" "bal db = bal (sx_db st')"
  shows "untouched st (sx_set_db db st')"
  using assms by (auto simp: untouched_def intro: db_step_trans)

text \<open>A debit that the balance covers.\<close>

lemma db_step_debit:
  assumes "db_ok db" "bal db' = (bal db)(s := bal db s - v)" "0 \<le> v" "v \<le> bal db s"
    and "exists_acct db' = exists_acct db" "code_of db' = code_of db" "refund db' = refund db" "same_frame db db'"
  shows "db_step db db'" "total_supply db' = total_supply db - v"
proof -
  show "total_supply db' = total_supply db - v" using total_supply_upd [OF assms(2)] by simp
  then show "db_step db db'" using assms by (auto simp: db_step_def db_ok_def)
qed

lemma buyGas_ok:
  assumes "msg_From msg = Inr s" "db_ok (sx_db st)" "0 \<le> msg_Gas msg" "0 \<le> msg_GasPrice msg"
  defines "cost \<equiv> msg_Gas msg * msg_GasPrice msg"
  obtains st' where "untouched st st'" "bal (sx_db st) s < cost"
      "buyGas msg st = Some (Some (InsufficientFunds s cost (bal (sx_db st) s)), st')"
  | st' where "untouched st st'" "cost \<le> bal (sx_db st) s" "sx_gp st < msg_Gas msg"
      "buyGas msg st = Some (Some (GasLimitErr (sx_gp st) (msg_Gas msg)), st')"
  | st' where "bought msg s st st'" "cost \<le> bal (sx_db st) s" "msg_Gas msg \<le> sx_gp st"
      "buyGas msg st = Some (None, st')"
proof -
  obtain st1 where 1: "st_from msg st = (Inr s, st1)" "untouched st st1" "exists_acct (sx_db st1) s"
    using st_from_ok [OF assms(1,2)] by metis
  let ?db = "snd (GetBalance (sx_db st1) s)" and ?st = "sx_set_db (snd (GetBalance (sx_db st1) s)) st1"
  have b: "fst (GetBalance (sx_db st1) s) = bal (sx_db st) s" using 1(2) by (simp add: bal_simps untouched_def)
  have st: "untouched st ?st"
    using untouched_query [OF 1(2) db_step_queries(2) [OF untouched_ok [OF 1(2)]]] by (simp add: bal_simps)
  have eq: "buyGas msg st =
      (if bal (sx_db st) s < cost then Some (Some (InsufficientFunds s cost (bal (sx_db st) s)), ?st)
       else if sx_gp st < msg_Gas msg then Some (Some (GasLimitErr (sx_gp st) (msg_Gas msg)), ?st)
       else map_option (\<lambda>db. (None, sx_set_db db ((st_addGas (msg_Gas msg) (?st\<lparr>sx_gp := sx_gp st - msg_Gas msg\<rparr>))
              \<lparr>sx_initialGas := msg_Gas msg\<rparr>))) (Account_SubBalance ?db s cost))"
    using 1(1,2) b
    by (simp add: buyGas_def Let_def case_prod_beta cost_def SubGas_def untouched_def st_addGas_def
        split: option.split bind_split)
  have ex: "exists_acct ?db s" using 1(3) by (simp add: bal_simps)
  obtain db where db: "Account_SubBalance ?db s cost = Some db" "bal db = (bal ?db)(s := bal ?db s - cost)"
    "exists_acct db = exists_acct ?db" "code_of db = code_of ?db" "refund db = refund ?db" "same_frame ?db db"
    using Account_SubBalance_ok [OF ex] by metis
  let ?st' = "sx_set_db db ((st_addGas (msg_Gas msg) (?st\<lparr>sx_gp := sx_gp st - msg_Gas msg\<rparr>))\<lparr>sx_initialGas := msg_Gas msg\<rparr>)"
  have "bought msg s st ?st'" if "cost \<le> bal (sx_db st) s"
  proof -
    have bal: "bal ?db = bal (sx_db st)" using st by (simp add: untouched_def)
    have "0 \<le> cost" using assms(3,4) by (simp add: cost_def)
    then have "db_step ?db db"
      using db_step_debit(1) [OF _ db(2) _ _ db(3-6)] untouched_ok [OF st] that bal by simp
    then have "db_step (sx_db st) db" using st by (auto simp: untouched_def intro: db_step_trans)
    then show ?thesis
      using st ex db(2,3) bal by (simp add: bought_def untouched_def st_addGas_def cost_def)
  qed
  then show ?thesis using that st eq db(1) by (cases "bal (sx_db st) s < cost"; cases "sx_gp st < msg_Gas msg") auto
qed

lemma preCheck_ok:
  assumes "msg_From msg = Inr s" "db_ok (sx_db st)" "0 \<le> msg_Gas msg" "0 \<le> msg_GasPrice msg"
  obtains err st' where "preCheck msg st = Some (Some err, st')" "untouched st st'"
      "precheck_error msg s (sx_gp st) (sx_db st) = Some err"
  | st' where "preCheck msg st = Some (None, st')" "bought msg s st st'"
      "precheck_error msg s (sx_gp st) (sx_db st) = None"
proof -
  obtain st1 where 1: "st_from msg st = (Inr s, st1)" "untouched st st1" "exists_acct (sx_db st1) s"
    "sx_db st1 = account_or_new (sx_db st) s"
    using st_from_ok [OF assms(1,2)] by metis
  let ?st = "sx_set_db (snd (GetNonce (sx_db st1) s)) st1"
  have n: "fst (GetNonce (sx_db st1) s) = nonce_of (sx_db st) s" using 1(4) nonce_account_or_new by simp
  have st: "untouched st ?st"
    using untouched_query [OF 1(2) db_step_queries(3) [OF untouched_ok [OF 1(2)]]] by (simp add: bal_simps)
  have eq: "preCheck msg st =
      (if nonce_of (sx_db st) s \<noteq> msg_Nonce msg
       then Some (Some (NonceErr (msg_Nonce msg) (nonce_of (sx_db st) s)), ?st)
       else map_option (\<lambda>(err, st). (map_option (\<lambda>err. if IsGasLimitErr err then err else InvalidTxErr err) err, st))
              (buyGas msg ?st))"
    using 1(1) n
    by (simp add: preCheck_def Let_def case_prod_beta split: bind_split option.split)
  have "bal (sx_db ?st) = bal (sx_db st)" "sx_gp ?st = sx_gp st" using st by (simp_all add: untouched_def)
  note same = this
  have chk: "precheck_error msg s (sx_gp st) (sx_db st) =
      (if nonce_of (sx_db st) s \<noteq> msg_Nonce msg then Some (NonceErr (msg_Nonce msg) (nonce_of (sx_db st) s))
       else if bal (sx_db st) s < msg_Gas msg * msg_GasPrice msg
         then Some (InvalidTxErr (InsufficientFunds s (msg_Gas msg * msg_GasPrice msg) (bal (sx_db st) s)))
       else if sx_gp st < msg_Gas msg then Some (GasLimitErr (sx_gp st) (msg_Gas msg)) else None)"
    by (simp add: precheck_error_def Let_def)
  show ?thesis
  proof (cases "nonce_of (sx_db st) s = msg_Nonce msg")
    case False
    then show ?thesis using that(1) [of _ ?st] eq st chk by simp
  next
    case True
    from buyGas_ok [OF assms(1) untouched_ok [OF st] assms(3,4)] show ?thesis
    proof cases
      case (1 st')
      then show ?thesis
        using that(1) [of _ st'] eq chk True same untouched_trans [OF st] by (simp add: IsGasLimitErr_def)
    next
      case (2 st')
      then show ?thesis
        using that(1) [of _ st'] eq chk True same untouched_trans [OF st] by (simp add: IsGasLimitErr_def)
    next
      case (3 st')
      have "bought msg s st st'"
        using 3(1) st by (auto simp: bought_def untouched_def intro: db_step_trans)
      then show ?thesis using that(2) [of st'] eq chk True same 3 by simp
    qed
  qed
qed

section \<open>The execution\<close>

text \<open>What the execution leaves of a state: less gas, and a state that the virtual machine may reach.\<close>

definition executed :: "state_transition \<Rightarrow> state_transition \<Rightarrow> bool" where
  "executed st st' \<longleftrightarrow>
     sx_gp st' = sx_gp st \<and> sx_initialGas st' = sx_initialGas st \<and>
     0 \<le> sx_gas st' \<and> sx_gas st' \<le> sx_gas st \<and> db_step (sx_db st) (sx_db st')"

definition exec_pre :: "int \<Rightarrow> message \<Rightarrow> address \<Rightarrow> state_transition \<Rightarrow> bool" where
  "exec_pre N msg s st \<longleftrightarrow>
     call_pre N (sx_db st) s (msg_Data msg) (sx_gas st) (msg_GasPrice msg) (msg_Value msg)"

lemma calls_ok_Call:
  assumes "calls_ok N env" and "call_pre N (w_db w) caller input gas price value"
  obtains r where "env_Call env (env_Depth env) w caller addr input gas price value = Some r"
    "call_post (w_db w) gas r"
  using assms unfolding calls_ok_def by meson

lemma st_create_ok:
  assumes env: "calls_ok N vmenv" and pre: "exec_pre N msg s st"
  shows "\<exists>ret err st'. st_create vmenv msg s st = Some (ret, err, st') \<and> executed st st'"
proof -
  let ?w = "(sx_world st)\<lparr>w_dests := Map.empty\<rparr>"
  have "call_pre N (w_db ?w) s (msg_Data msg) (sx_gas st) (msg_GasPrice msg) (msg_Value msg)"
    using pre by (simp add: exec_pre_def)
  then obtain r where r: "env_Create vmenv (env_Depth vmenv) ?w s (msg_Data msg)
      (sx_gas st) (msg_GasPrice msg) (msg_Value msg) = Some r" "call_post (w_db ?w) (sx_gas st) r"
    by (rule calls_ok_Create [OF env])
  have db: "db_step (sx_db st) (w_db (res_world r))" and len: "int (length (res_ret r)) < 2 ^ 63"
    and gas: "0 \<le> res_gas r" "res_gas r \<le> sx_gas st"
    using r(2) by (simp_all add: call_post_def)
  have "db_step (sx_db st) (SetCode (w_db (res_world r)) (res_addr r) (res_ret r))"
    using db db_step_setters(6) [OF db_step_ok [OF db] len] by (rule db_step_trans)
  then show ?thesis
    using r(1) db gas by (auto simp: st_create_def Let_def st_useGas_def executed_def)
qed

lemma st_call_ok:
  assumes env: "calls_ok N vmenv" and pre: "exec_pre N msg s st" and "msg_To msg = Some to"
  shows "\<exists>ret err st'. st_call vmenv msg s st = Some (ret, err, st') \<and> executed st st'"
proof -
  have pre': "db_ok (sx_db st)" "exists_acct (sx_db st) s"
    using pre by (simp_all add: exec_pre_def call_pre_def)
  let ?q = "snd (GetNonce (sx_db st) s)"
  let ?db1 = "SetNonce ?q s (fst (GetNonce (sx_db st) s) + 1)"
  let ?db = "account_or_new ?db1 to"
  have q: "db_step (sx_db st) ?q" by (rule db_step_queries(3) [OF pre'(1)])
  have 1: "db_step (sx_db st) ?db1"
    using q db_step_setters(1) [OF db_step_ok [OF q]] by (rule db_step_trans)
  have 2: "db_step (sx_db st) ?db"
    using 1 account_or_new_ok(1) [OF db_step_ok [OF 1]] by (rule db_step_trans)
  let ?st = "sx_set_db ?db (sx_set_db ?db1 st)"
  let ?w = "(sx_world ?st)\<lparr>w_dests := Map.empty\<rparr>"
  have "call_pre N (w_db ?w) s (msg_Data msg) (sx_gas st) (msg_GasPrice msg) (msg_Value msg)"
    using pre db_step_ok [OF 2] db_step_exists [OF 2 pre'(2)] by (simp add: exec_pre_def call_pre_def)
  then obtain r where r: "env_Call vmenv (env_Depth vmenv) ?w s to (msg_Data msg)
      (sx_gas st) (msg_GasPrice msg) (msg_Value msg) = Some r" "call_post (w_db ?w) (sx_gas st) r"
    by (rule calls_ok_Call [OF env])
  have "db_step (sx_db st) (w_db (res_world r))" "0 \<le> res_gas r" "res_gas r \<le> sx_gas st"
    using r(2) db_step_trans [OF 2] by (simp_all add: call_post_def)
  then show ?thesis
    using r(1) assms(3) by (simp add: st_call_def case_prod_beta st_to_def executed_def)
qed

section \<open>The refund\<close>

text \<open>Writing the refund counter touches no account.\<close>

lemma refund_update [simp]:
  "bal (db\<lparr>refund := x\<rparr>) = bal db" "exists_acct (db\<lparr>refund := x\<rparr>) = exists_acct db"
  "code_of (db\<lparr>refund := x\<rparr>) = code_of db" "same_frame d (db\<lparr>refund := x\<rparr>) = same_frame d db"
  "total_supply (db\<lparr>refund := x\<rparr>) = total_supply db"
proof -
  have "live (db\<lparr>refund := x\<rparr>) = live db" by (rule live_cong) simp_all
  then show b: "bal (db\<lparr>refund := x\<rparr>) = bal db" and "exists_acct (db\<lparr>refund := x\<rparr>) = exists_acct db"
    "code_of (db\<lparr>refund := x\<rparr>) = code_of db"
    by (simp_all add: bal_def exists_acct_def code_of_def fun_eq_iff)
  show "total_supply (db\<lparr>refund := x\<rparr>) = total_supply db" by (rule total_supply_cong) (rule b)
qed (simp add: same_frame_def)

lemma db_step_refund: "db_step db0 db \<Longrightarrow> 0 \<le> x \<Longrightarrow> db_step db0 (db\<lparr>refund := x\<rparr>)"
  by (simp add: db_step_def db_ok_def)

lemma db_step_Account_credit:
  assumes "db_step db0 db" "bal db' = (bal db)(a := bal db a + v)" "0 \<le> v"
    and "total_supply db + v \<le> total_supply db0" "total_supply db0 < 2 ^ 256"
    and "exists_acct db' = exists_acct db" "code_of db' = code_of db" "refund db' = refund db" "same_frame db db'"
  shows "db_step db0 db'" "total_supply db' = total_supply db + v"
proof -
  show T: "total_supply db' = total_supply db + v" using total_supply_upd [OF assms(2)] by simp
  have "same_frame db0 db'" using assms(1,9) by (auto simp: db_step_def intro: same_frame_trans)
  moreover have "total_supply db' < 2 ^ 256" using T assms(4,5) by linarith
  ultimately show "db_step db0 db'"
    using T assms(1-4,6-8) by (auto simp: db_step_def db_ok_def)
qed

text \<open>The last two steps of the refund: the counter is paid out, and overwritten where it is the minimum.\<close>

definition pay_refund :: "statedb \<Rightarrow> bool \<Rightarrow> address \<Rightarrow> int \<Rightarrow> statedb" where
  "pay_refund db aliased sender paid = AddBalance (if aliased then db\<lparr>refund := paid\<rparr> else db) sender paid"

lemma pay_refund_ok:
  assumes "db_step db0 db" "0 \<le> v" "total_supply db + v \<le> total_supply db0" "total_supply db0 < 2 ^ 256"
  shows "db_step db0 (pay_refund db al s v)" "total_supply (pay_refund db al s v) = total_supply db + v"
  using db_step_credit [OF db_step_refund [OF assms(1,2)], of v s] db_step_credit [OF assms] assms
  by (simp_all add: pay_refund_def total_supply_AddBalance)

lemma refundGas_eq:
  assumes "st_from msg st = (Inr s, st1)"
    and "Account_AddBalance (sx_db st1) s (sx_gas st1 * msg_GasPrice msg) = Some db"
  defines "r \<equiv> min (gasUsed st1 div 2) (refund db)"
  shows "refundGas msg st = Some ((sx_set_db (pay_refund db (gasUsed st1 div 2 > refund db) s (r * msg_GasPrice msg))
      (st1\<lparr>sx_gas := sx_gas st1 + r\<rparr>))\<lparr>sx_gp := sx_gp st1 + (sx_gas st1 + r)\<rparr>)"
  using assms by (simp add: refundGas_def Let_def GetRefund_def BigMin_min pay_refund_def AddGas_def)

lemma refundGas_ok:
  assumes "msg_From msg = Inr s" "db_step db0 (sx_db st)" "total_supply db0 < 2 ^ 256" "0 \<le> msg_GasPrice msg"
    and "0 \<le> sx_gas st" "sx_gas st \<le> sx_initialGas st"
    and "total_supply (sx_db st) + sx_initialGas st * msg_GasPrice msg \<le> total_supply db0"
  obtains st' r where "refundGas msg st = Some st'" "r = min (gasUsed st div 2) (refund (sx_db st))"
    "sx_gas st' = sx_gas st + r" "sx_initialGas st' = sx_initialGas st" "0 \<le> r" "2 * r \<le> gasUsed st"
    "sx_gp st' = sx_gp st + sx_gas st'" "db_step db0 (sx_db st')"
    "total_supply (sx_db st') = total_supply (sx_db st) + sx_gas st' * msg_GasPrice msg"
proof -
  let ?p = "msg_GasPrice msg"
  have ok: "db_ok (sx_db st)" using assms(2) by (rule db_step_ok)
  obtain st1 where 1: "st_from msg st = (Inr s, st1)" "untouched st st1" "exists_acct (sx_db st1) s"
    "sx_initialGas st1 = sx_initialGas st" "sx_db st1 = account_or_new (sx_db st) s"
    using st_from_ok [OF assms(1) ok] by metis
  have g: "sx_gas st1 = sx_gas st" "gasUsed st1 = gasUsed st" "sx_gp st1 = sx_gp st" "bal (sx_db st1) = bal (sx_db st)"
    using 1(2,4) by (simp_all add: untouched_def gasUsed_def)
  have st1: "db_step db0 (sx_db st1)" using assms(2) 1(2) by (auto simp: untouched_def intro: db_step_trans)
  obtain db where db: "Account_AddBalance (sx_db st1) s (sx_gas st1 * ?p) = Some db"
    "bal db = (bal (sx_db st1))(s := bal (sx_db st1) s + sx_gas st1 * ?p)"
    "exists_acct db = exists_acct (sx_db st1)" "code_of db = code_of (sx_db st1)" "refund db = refund (sx_db st1)"
    "same_frame (sx_db st1) db"
    using Account_AddBalance_ok [OF 1(3)] by metis
  have rf: "refund db = refund (sx_db st)"
    using db(5) by (simp add: 1(5) account_or_new_def case_prod_beta bal_simps)
  define r where "r = min (gasUsed st div 2) (refund (sx_db st))"
  have "0 \<le> refund (sx_db st)" "0 \<le> gasUsed st" using ok assms(6) by (simp_all add: db_ok_def gasUsed_def)
  then have r: "0 \<le> r" "2 * r \<le> gasUsed st" by (auto simp: r_def)
  have le: "(sx_gas st + r) * ?p \<le> sx_initialGas st * ?p"
    using r assms(4) by (intro mult_right_mono) (simp_all add: gasUsed_def)
  have nn: "0 \<le> sx_gas st * ?p" "0 \<le> r * ?p" using r(1) assms(4,5) by simp_all
  have T0: "total_supply (sx_db st1) = total_supply (sx_db st)" by (rule total_supply_cong) (rule g(4))
  have fit1: "total_supply (sx_db st1) + sx_gas st1 * ?p \<le> total_supply db0"
    using le nn assms(7) unfolding distrib_right g(1) T0 by linarith
  have nn1: "0 \<le> sx_gas st1 * ?p" using nn(1) g(1) by simp
  note d = db_step_Account_credit [OF st1 db(2) nn1 fit1 assms(3) db(3-6)]
  have fit2: "total_supply db + r * ?p \<le> total_supply db0"
    using d(2) T0 g(1) le assms(7) unfolding distrib_right by simp
  note pay = pay_refund_ok [OF d(1) nn(2) fit2 assms(3), of "gasUsed st div 2 > refund (sx_db st)" s]
  have "total_supply (sx_db st) + (sx_gas st + r) * ?p = total_supply db + r * ?p"
    using d(2) T0 g(1) by (simp add: distrib_right)
  then show ?thesis
    using that [OF refundGas_eq [OF 1(1) db(1)] r_def] r 1(4) pay g by (simp add: rf r_def [symmetric])
qed

section \<open>The transition\<close>

lemma IntrinsicGas_eq:
  "IntrinsicGas data = 21000 + 68 * int (length (filter (\<lambda>b. b \<noteq> 0) data)) + 4 * int (length (filter (\<lambda>b. b = 0) data))"
proof -
  have "fold (\<lambda>byt nz. if byt \<noteq> 0 then nz + 1 else nz) xs n = n + int (length (filter (\<lambda>b. b \<noteq> 0) xs))"
    for xs :: bytes and n
    by (induction xs arbitrary: n) simp_all
  moreover have "length data = length (filter (\<lambda>b. b \<noteq> 0) data) + length (filter (\<lambda>b. b = 0) data)"
    using sum_length_filter_compl [of "\<lambda>b. b \<noteq> 0" data] by simp
  ultimately show ?thesis by (simp add: IntrinsicGas_def Let_def)
qed

lemma IntrinsicGas_pos: "21000 \<le> IntrinsicGas data"
  by (simp add: IntrinsicGas_eq)

text \<open>The state after the checks, at the point where the message is executed.\<close>

definition ready :: "message \<Rightarrow> address \<Rightarrow> state_transition \<Rightarrow> state_transition \<Rightarrow> bool" where
  "ready msg s st st' \<longleftrightarrow>
     sx_gp st' = sx_gp st - msg_Gas msg \<and> sx_initialGas st' = msg_Gas msg \<and> sx_gas st' = msg_Gas msg \<and>
     db_step (sx_db st) (sx_db st') \<and> exists_acct (sx_db st') s \<and>
     bal (sx_db st') = (bal (sx_db st))(s := bal (sx_db st) s - msg_Gas msg * msg_GasPrice msg)"

lemma bought_ready:
  assumes "bought msg s st st1" "sx_gas st = 0" "msg_From msg = Inr s"
  obtains st' where "st_from msg st1 = (Inr s, st')" "ready msg s st st'"
proof -
  have ok: "db_ok (sx_db st1)" using assms(1) by (simp add: bought_def db_step_def)
  obtain st' where "st_from msg st1 = (Inr s, st')" "untouched st1 st'" "exists_acct (sx_db st') s"
    "sx_initialGas st' = sx_initialGas st1"
    using st_from_ok [OF assms(3) ok] by metis
  then show ?thesis
    using that [of st'] assms(1,2) by (auto simp: bought_def ready_def untouched_def intro: db_step_trans)
qed

lemma ready_total:
  "ready msg s st st' \<Longrightarrow> total_supply (sx_db st') = total_supply (sx_db st) - msg_Gas msg * msg_GasPrice msg"
  using total_supply_upd [of "sx_db st'" "sx_db st" s] by (simp add: ready_def)

text \<open>What the execution and the settlement make of it.\<close>

definition settled :: "message \<Rightarrow> state_transition \<Rightarrow> (core_error + bytes \<times> int) \<Rightarrow> state_transition \<Rightarrow> bool" where
  "settled msg st res st' \<longleftrightarrow>
     db_step (sx_db st) (sx_db st') \<and>
     (case res of
        Inl err \<Rightarrow> sx_gp st' = sx_gp st - msg_Gas msg \<and> (\<exists>e. err = InvalidTxErr (VmErr e) \<and> IsValueTransferErr e)
      | Inr (ret, used) \<Rightarrow>
          IntrinsicGas (msg_Data msg) \<le> 2 * used \<and> used \<le> msg_Gas msg \<and> sx_gp st' = sx_gp st - used)"

definition run_message :: "vm_env \<Rightarrow> message \<Rightarrow> address \<Rightarrow> state_transition \<Rightarrow>
    (bytes \<times> vm_error option \<times> state_transition) option" where
  "run_message vmenv msg s st =
     (if MessageCreatesContract msg then st_create vmenv msg s st else st_call vmenv msg s st)"

definition settle :: "vm_env \<Rightarrow> message \<Rightarrow> bytes \<times> vm_error option \<times> state_transition \<Rightarrow>
    ((core_error + bytes \<times> int) \<times> state_transition) option" where
  "settle vmenv msg = (\<lambda>(ret, err, st).
     if (case err of Some e \<Rightarrow> IsValueTransferErr e | None \<Rightarrow> False)
     then Some (Inl (InvalidTxErr (VmErr (the err))), st)
     else do { st \<leftarrow> refundGas msg st;
               let db = AddBalance (sx_db st) (env_Coinbase vmenv) (gasUsed st * msg_GasPrice msg);
                   st = sx_set_db db st in
               Some (Inr (ret, gasUsed st), st) })"

lemma transitionDb_ready:
  assumes "preCheck msg st = Some (None, st1)" "st_from msg st1 = (Inr s, st2)"
  shows "transitionDb vmenv msg st =
    (if sx_gas st2 < IntrinsicGas (msg_Data msg) then Some (Inl (InvalidTxErr (VmErr OutOfGasError)), st2)
     else run_message vmenv msg s (st2\<lparr>sx_gas := sx_gas st2 - IntrinsicGas (msg_Data msg)\<rparr>) \<bind> settle vmenv msg)"
  using assms
  by (simp add: transitionDb_def st_useGas_def run_message_def settle_def case_prod_beta Let_def)

lemma run_message_ok:
  assumes "calls_ok N vmenv" "exec_pre N msg s st"
  shows "\<exists>ret err st'. run_message vmenv msg s st = Some (ret, err, st') \<and> executed st st'"
  using st_create_ok [OF assms] st_call_ok [OF assms]
  by (auto simp: run_message_def MessageCreatesContract_def)

lemma settle_ok:
  assumes rd: "ready msg s st st1" and ex: "executed (st1\<lparr>sx_gas := msg_Gas msg - IntrinsicGas (msg_Data msg)\<rparr>) st2"
    and "msg_From msg = Inr s" "db_ok (sx_db st)" "0 \<le> msg_GasPrice msg"
  shows "\<exists>res st'. settle vmenv msg (ret, err, st2) = Some (res, st') \<and> settled msg st res st'"
proof (cases "case err of Some e \<Rightarrow> IsValueTransferErr e | None \<Rightarrow> False")
  case True
  then show ?thesis
    using rd ex by (auto simp: settle_def settled_def ready_def executed_def intro: db_step_trans split: option.splits)
next
  case False
  let ?p = "msg_GasPrice msg" and ?G = "msg_Gas msg"
  have db2: "db_step (sx_db st) (sx_db st2)" and T: "total_supply (sx_db st2) \<le> total_supply (sx_db st1)"
    using rd ex by (auto simp: ready_def executed_def intro: db_step_trans) (simp add: db_step_def)
  have st2: "0 \<le> sx_gas st2" "sx_gas st2 \<le> ?G - IntrinsicGas (msg_Data msg)" "sx_initialGas st2 = ?G"
    "sx_gp st2 = sx_gp st - ?G"
    using rd ex by (auto simp: ready_def executed_def)
  have T': "total_supply (sx_db st2) + sx_initialGas st2 * ?p \<le> total_supply (sx_db st)"
    using T ready_total [OF rd] st2(3) by simp
  have lt: "total_supply (sx_db st) < 2 ^ 256" using assms(4) by (simp add: db_ok_def)
  have le: "sx_gas st2 \<le> sx_initialGas st2" using st2(2,3) IntrinsicGas_pos [of "msg_Data msg"] by linarith
  obtain st3 r where 3: "refundGas msg st2 = Some st3" "sx_gas st3 = sx_gas st2 + r" "sx_initialGas st3 = sx_initialGas st2"
    "0 \<le> r" "2 * r \<le> gasUsed st2" "sx_gp st3 = sx_gp st2 + sx_gas st3" "db_step (sx_db st) (sx_db st3)"
    "total_supply (sx_db st3) = total_supply (sx_db st2) + sx_gas st3 * ?p"
    using refundGas_ok [OF assms(3) db2 lt assms(5) st2(1) le T'] by metis
  have used: "gasUsed st3 = gasUsed st2 - r" using 3(2,3) by (simp add: gasUsed_def)
  have bounds: "IntrinsicGas (msg_Data msg) \<le> gasUsed st2" "0 \<le> gasUsed st3" "gasUsed st3 \<le> ?G"
    using st2 3(4,5) used by (auto simp: gasUsed_def)
  have "db_step (sx_db st) (AddBalance (sx_db st3) (env_Coinbase vmenv) (gasUsed st3 * ?p))"
  proof (rule db_step_credit [OF 3(7) _ _ lt])
    show "0 \<le> gasUsed st3 * ?p" using bounds(2) assms(5) by simp
    have "sx_gas st3 * ?p + gasUsed st3 * ?p = sx_initialGas st2 * ?p"
      using 3(3) by (simp add: gasUsed_def algebra_simps)
    then show "total_supply (sx_db st3) + gasUsed st3 * ?p \<le> total_supply (sx_db st)"
      using 3(8) T' by linarith
  qed
  moreover have "IntrinsicGas (msg_Data msg) \<le> 2 * gasUsed st3" using bounds(1) used 3(5) by linarith
  moreover have "sx_gp st3 = sx_gp st - gasUsed st3"
    using 3(3,6) st2(3,4) by (simp add: gasUsed_def)
  ultimately show ?thesis
    using False 3(1) bounds(3) by (auto simp: settle_def settled_def gasUsed_def Let_def)
qed

text \<open>Every way a message can go.\<close>

lemma transitionDb_cases:
  assumes env: "calls_ok N vmenv" and s: "msg_From msg = Inr s" and ok: "db_ok (sx_db st)" and z: "sx_gas st = 0"
    and "0 \<le> msg_Gas msg" "msg_Gas msg < N" "is_u256 (msg_GasPrice msg)" "is_u256 (msg_Value msg)"
    and "int (length (msg_Data msg)) < 2 ^ 63"
  obtains err st' where "transitionDb vmenv msg st = Some (Inl err, st')" "untouched st st'"
      "precheck_error msg s (sx_gp st) (sx_db st) = Some err"
  | st' where "transitionDb vmenv msg st = Some (Inl (InvalidTxErr (VmErr OutOfGasError)), st')" "ready msg s st st'"
      "msg_Gas msg < IntrinsicGas (msg_Data msg)" "precheck_error msg s (sx_gp st) (sx_db st) = None"
  | res st' where "transitionDb vmenv msg st = Some (res, st')" "settled msg st res st'"
      "IntrinsicGas (msg_Data msg) \<le> msg_Gas msg" "precheck_error msg s (sx_gp st) (sx_db st) = None"
proof -
  have p: "0 \<le> msg_GasPrice msg" using assms(7) by (simp add: is_u256_def)
  from preCheck_ok [OF s ok assms(5) p] show ?thesis
  proof cases
    case (1 err st')
    then show ?thesis using that(1) [of err st'] by (simp add: transitionDb_def)
  next
    case (2 st1)
    obtain st2 where st2: "st_from msg st1 = (Inr s, st2)" "ready msg s st st2"
      using bought_ready [OF 2(2) z s] by blast
    note run = transitionDb_ready [OF 2(1) st2(1), of vmenv]
    have gas: "sx_gas st2 = msg_Gas msg" using st2(2) by (simp add: ready_def)
    show ?thesis
    proof (cases "msg_Gas msg < IntrinsicGas (msg_Data msg)")
      case True
      then show ?thesis using that(2) [of st2] run gas st2(2) 2(3) by simp
    next
      case False
      let ?st = "st2\<lparr>sx_gas := msg_Gas msg - IntrinsicGas (msg_Data msg)\<rparr>"
      have "exec_pre N msg s ?st"
        using st2(2) assms(5-9) False IntrinsicGas_pos [of "msg_Data msg"]
        by (simp add: exec_pre_def call_pre_def ready_def db_step_def)
      then obtain ret err st3 where 3: "run_message vmenv msg s ?st = Some (ret, err, st3)" "executed ?st st3"
        using run_message_ok [OF env] by blast
      obtain res st' where "settle vmenv msg (ret, err, st3) = Some (res, st')" "settled msg st res st'"
        using settle_ok [OF st2(2) 3(2) s ok p] by blast
      then show ?thesis using that(3) [of res st'] run gas False 3(1) 2(3) by simp
    qed
  qed
qed

section \<open>Messages\<close>

text \<open>The three ways a message can go, on the environment of nested calls.\<close>

definition message_ok :: "vm_env \<Rightarrow> nat \<Rightarrow> nat \<Rightarrow> message \<Rightarrow> bool" where
  "message_ok env d fuel msg \<longleftrightarrow>
     crypto_ok (env_crypto env) \<and> new_addresses (env_crypto env) \<and> 1026 \<le> d \<and>
     0 \<le> msg_Gas msg \<and> msg_Gas msg < 2 ^ 63 \<and> msg_Gas msg < int fuel \<and>
     is_u256 (msg_GasPrice msg) \<and> is_u256 (msg_Value msg) \<and> int (length (msg_Data msg)) < 2 ^ 63"

lemma ApplyMessage_cases:
  fixes gp :: int
  assumes "message_ok env d fuel msg" "msg_From msg = Inr s" "db_ok (w_db w)"
  defines "st \<equiv> \<lparr>sx_gp = gp, sx_gas = 0, sx_initialGas = 0, sx_world = w\<rparr>"
  obtains err st' where "ApplyMessage ((VMEnv d fuel env)\<lparr>env_Depth := 0\<rparr>) w msg gp = Some (Inl err, st')" "untouched st st'"
      "precheck_error msg s gp (w_db w) = Some err"
  | st' where "ApplyMessage ((VMEnv d fuel env)\<lparr>env_Depth := 0\<rparr>) w msg gp = Some (Inl (InvalidTxErr (VmErr OutOfGasError)), st')"
      "ready msg s st st'" "msg_Gas msg < IntrinsicGas (msg_Data msg)" "precheck_error msg s gp (w_db w) = None"
  | res st' where "ApplyMessage ((VMEnv d fuel env)\<lparr>env_Depth := 0\<rparr>) w msg gp = Some (res, st')" "settled msg st res st'"
      "IntrinsicGas (msg_Data msg) \<le> msg_Gas msg" "precheck_error msg s gp (w_db w) = None"
proof -
  note m = assms(1) [unfolded message_ok_def]
  have env: "calls_ok (msg_Gas msg + 1) ((VMEnv d fuel env)\<lparr>env_Depth := 0\<rparr>)"
    using m by (intro VMEnv_calls_ok) simp_all
  have st: "db_ok (sx_db st)" "sx_gas st = 0" "sx_gp st = gp" "sx_db st = w_db w" using assms(3) by (simp_all add: st_def)
  have eq: "ApplyMessage v w msg gp = transitionDb v msg st" for v by (simp add: ApplyMessage_def st_def)
  have g: "0 \<le> msg_Gas msg" "msg_Gas msg < msg_Gas msg + 1" "is_u256 (msg_GasPrice msg)" "is_u256 (msg_Value msg)"
    "int (length (msg_Data msg)) < 2 ^ 63" using m by simp_all
  from transitionDb_cases [OF env assms(2) st(1,2) g] show ?thesis
    by cases (use that in \<open>simp_all add: eq st(3,4)\<close>)
qed

lemma ApplyMessage_returns:
  assumes "message_ok env d fuel msg" "msg_From msg = Inr s" "db_ok (w_db w)"
  shows "\<exists>res st'. ApplyMessage ((VMEnv d fuel env)\<lparr>env_Depth := 0\<rparr>) w msg gp = Some (res, st')"
  by (rule ApplyMessage_cases [OF assms, of gp]) blast+

end
