(* ===== verification/Validator.thy ===== *)
theory Validator
  imports Blocks Sample
begin

text \<open>
  The rules for headers, uncles and blocks: \<^verbatim>\<open>src/core/block_validator.go\<close>, and the difficulty and the
  gas limit of the next block, \<^verbatim>\<open>src/core/database_util.go\<close>.

  The minimum difficulty is a package variable that \<open>CalcDifficulty\<close> can write to: where the adjusted
  difficulty is below the minimum, \<open>diff\<close> becomes the pointer to the variable, and the exponential
  part is added in place. The functions that lead to it take the variable as \<open>md\<close> and return its new
  value. The clock, the proof of work and the chain are parameters.
\<close>

section \<open>Difficulty and gas limit\<close>

definition ExpDiffPeriod :: int where
  "ExpDiffPeriod = 100000"

definition CalcDifficulty :: "int \<Rightarrow> uint64 \<Rightarrow> uint64 \<Rightarrow> int \<Rightarrow> int \<Rightarrow> int \<times> int" where
  "CalcDifficulty md time parentTime parentNumber parentDiff =
     (let adjust = parentDiff div DifficultyBoundDivisor;
          diff = (if uint time - uint parentTime < DurationLimit then parentDiff + adjust else parentDiff - adjust);
          aliased = (diff < md);
          diff = (if aliased then md else diff);
          periodCount = (parentNumber + 1) div ExpDiffPeriod in
      if periodCount > 1 then
        let diff = diff + 2 ^ nat (periodCount - 2);
            md = (if aliased then diff else md) in
        (BigMax diff md, md)
      else (diff, md))"


section \<open>Headers\<close>

datatype validation_error =
    KnownBlockError
  | ParentErr hash
  | ExtraTooLong nat
  | BlockTSTooBigErr
  | BlockFutureErr
  | BlockEqualTSErr
  | DifficultyErr int int
  | GasLimitCheckErr int
  | BlockNumberErr
  | BlockNonceErr
  | TooManyUncles nat
  | UncleNotUnique nat
  | UncleIsAncestor nat
  | UncleParentErr nat
  | UncleHeaderErr nat validation_error
  | UncleRootErr
  | TxRootErr
  | GasUsedErr int int
  | BloomErr
  | ReceiptRootErr
  | StateRootErr

text \<open>
  \<open>pow\<close> is \<open>Verify\<close> of the proof of work, \<open>now\<close> the clock in seconds. The parent of the function with
  the same name of the validator may be nil.
\<close>

definition ValidateHeader :: "(block \<Rightarrow> bool) \<Rightarrow> int \<Rightarrow> int \<Rightarrow> header \<Rightarrow> header \<Rightarrow> bool \<Rightarrow> bool \<Rightarrow>
    validation_error option \<times> int" where
  "ValidateHeader pow now md header parent checkPow uncle =
     (if int (length (hd_Extra header)) > MaximumExtraDataSize then (Some (ExtraTooLong (length (hd_Extra header))), md)
      else if uncle \<and> hd_Time header > MaxBig then (Some BlockTSTooBigErr, md)
      else if \<not> uncle \<and> hd_Time header > now then (Some BlockFutureErr, md)
      else if \<not> hd_Time header > hd_Time parent then (Some BlockEqualTSErr, md)
      else
        let (expd, md) = CalcDifficulty md (Uint64 (hd_Time header)) (Uint64 (hd_Time parent)) (hd_Number parent) (hd_Difficulty parent) in
        if expd \<noteq> hd_Difficulty header then (Some (DifficultyErr (hd_Difficulty header) expd), md)
        else
          let a = \<bar>hd_GasLimit parent - hd_GasLimit header\<bar>;
              b = hd_GasLimit parent div GasLimitBoundDivisor in
          if \<not> a < b \<or> hd_GasLimit header < MinGasLimit then (Some (GasLimitCheckErr (hd_GasLimit header)), md)
          else if hd_Number header - hd_Number parent \<noteq> 1 then (Some BlockNumberErr, md)
          else if checkPow \<and> \<not> pow (NewBlockWithHeader header) then (Some BlockNonceErr, md)
          else (None, md))"

text \<open>The chain: the blocks by their hash, the headers that are known and the states that are stored.\<close>

record chain =
  ch_block :: "hash \<Rightarrow> block option"
  ch_header :: "hash \<Rightarrow> bool"
  ch_state :: "hash \<Rightarrow> bool"

definition Validator_ValidateHeader :: "crypto \<Rightarrow> chain \<Rightarrow> (block \<Rightarrow> bool) \<Rightarrow> int \<Rightarrow> int \<Rightarrow> header \<Rightarrow> header option \<Rightarrow> bool \<Rightarrow>
    validation_error option \<times> int" where
  "Validator_ValidateHeader cr bc pow now md header parent checkPow =
     (case parent of
        None \<Rightarrow> (Some (ParentErr (hd_ParentHash header)), md)
      | Some parent \<Rightarrow>
          if ch_header bc (Header_Hash cr header) then (None, md)
          else ValidateHeader pow now md header parent checkPow False)"

section \<open>Uncles\<close>

primrec GetBlocksFromHash :: "chain \<Rightarrow> hash \<Rightarrow> nat \<Rightarrow> block list" where
  "GetBlocksFromHash bc h 0 = []"
| "GetBlocksFromHash bc h (Suc n) =
     (case ch_block bc h of
        None \<Rightarrow> []
      | Some b \<Rightarrow> b # GetBlocksFromHash bc (hd_ParentHash (bl_header b)) n)"

text \<open>The loop of \<open>VerifyUncles\<close>, from the uncle of index \<open>i\<close> on, with the set of uncles seen.\<close>

fun verify_uncles_loop :: "crypto \<Rightarrow> (block \<Rightarrow> bool) \<Rightarrow> int \<Rightarrow> hash \<Rightarrow> (hash \<rightharpoonup> block) \<Rightarrow> nat \<Rightarrow> int \<Rightarrow> hash set \<Rightarrow>
    header list \<Rightarrow> validation_error option \<times> int" where
  "verify_uncles_loop cr pow now parentHash ancestors i md uncles [] = (None, md)"
| "verify_uncles_loop cr pow now parentHash ancestors i md uncles (uncle # us) =
     (let h = Header_Hash cr uncle in
      if h \<in> uncles then (Some (UncleNotUnique i), md)
      else if ancestors h \<noteq> None then (Some (UncleIsAncestor i), md)
      else
        (case ancestors (hd_ParentHash uncle) of
           None \<Rightarrow> (Some (UncleParentErr i), md)
         | Some anc \<Rightarrow>
             if hd_ParentHash uncle = parentHash then (Some (UncleParentErr i), md)
             else
               (case ValidateHeader pow now md uncle (bl_header anc) True True of
                  (Some err, md) \<Rightarrow> (Some (UncleHeaderErr i err), md)
                | (None, md) \<Rightarrow> verify_uncles_loop cr pow now parentHash ancestors (i + 1) md (insert h uncles) us)))"

definition VerifyUncles :: "crypto \<Rightarrow> chain \<Rightarrow> (block \<Rightarrow> bool) \<Rightarrow> int \<Rightarrow> int \<Rightarrow> block \<Rightarrow> block \<Rightarrow> validation_error option \<times> int" where
  "VerifyUncles cr bc pow now md block parent =
     (if length (bl_uncles block) > 2 then (Some (TooManyUncles (length (bl_uncles block))), md)
      else
        let chain = GetBlocksFromHash bc (hd_ParentHash (bl_header block)) 7;
            ancestors = fold (\<lambda>a m. m(Block_Hash cr a \<mapsto> a)) chain Map.empty;
            uncles = fold (\<lambda>a s. fold (\<lambda>u s. insert (Header_Hash cr u) s) (bl_uncles a) s) chain {};
            ancestors = ancestors(Block_Hash cr block \<mapsto> block);
            uncles = insert (Block_Hash cr block) uncles in
        verify_uncles_loop cr pow now (Block_Hash cr parent) ancestors 0 md uncles (bl_uncles block))"

section \<open>Blocks\<close>

definition ValidateBlock :: "crypto \<Rightarrow> chain \<Rightarrow> (block \<Rightarrow> bool) \<Rightarrow> int \<Rightarrow> int \<Rightarrow> block \<Rightarrow> (validation_error option \<times> int) option" where
  "ValidateBlock cr bc pow now md block =
     (let header = bl_header block in
      if ch_block bc (Block_Hash cr block) \<noteq> None \<and> ch_state bc (hd_Root header) then Some (Some KnownBlockError, md)
      else
        (case ch_block bc (hd_ParentHash header) of
           None \<Rightarrow> Some (Some (ParentErr (hd_ParentHash header)), md)
         | Some parent \<Rightarrow>
             if \<not> ch_state bc (hd_Root (bl_header parent)) then Some (Some (ParentErr (hd_ParentHash header)), md)
             else
               (case ValidateHeader pow now md header (bl_header parent) False False of
                  (Some err, md) \<Rightarrow> Some (Some err, md)
                | (None, md) \<Rightarrow>
                    (case VerifyUncles cr bc pow now md block parent of
                       (Some err, md) \<Rightarrow> Some (Some err, md)
                     | (None, md) \<Rightarrow>
                         if CalcUncleHash cr (bl_uncles block) \<noteq> hd_UncleHash header then Some (Some UncleRootErr, md)
                         else do { txSha \<leftarrow> tx_root cr (bl_transactions block);
                                   Some (if txSha \<noteq> hd_TxHash header then Some TxRootErr else None, md) }))))"

text \<open>
  \<open>ValidateState\<close>. The root hash of the account trie is a function of its contents, the parameter
  \<open>root_of\<close>; \<open>keys\<close> is the order in which the objects are flushed.
\<close>

definition ValidateState :: "crypto \<Rightarrow> ((address \<rightharpoonup> account) \<Rightarrow> hash) \<Rightarrow> block \<Rightarrow> statedb \<Rightarrow> address list \<Rightarrow> receipt list \<Rightarrow> int \<Rightarrow>
    (validation_error option \<times> statedb) option" where
  "ValidateState cr root_of block db keys receipts usedGas =
     (let header = bl_header block in
      if hd_GasUsed header \<noteq> usedGas then Some (Some (GasUsedErr (hd_GasUsed header) usedGas), db)
      else
        do { rbloom \<leftarrow> CreateBloom cr receipts;
             if rbloom \<noteq> hd_Bloom header then Some (Some BloomErr, db)
             else
               do { receiptSha \<leftarrow> receipt_root cr receipts;
                    if receiptSha \<noteq> hd_ReceiptHash header then Some (Some ReceiptRootErr, db)
                    else
                      let db = IntermediateRoot db keys in
                      Some (if hd_Root header \<noteq> root_of (db_trie db) then Some StateRootErr else None, db) } })"

section \<open>Facts about the difficulty and the gas limit\<close>

text \<open>The two parts of the difficulty: the adjustment to the block time and the exponential part.\<close>

definition adjusted :: "uint64 \<Rightarrow> uint64 \<Rightarrow> int \<Rightarrow> int" where
  "adjusted t p d = (if uint t - uint p < 13 then d + d div 2048 else d - d div 2048)"

definition exp_part :: "int \<Rightarrow> int" where
  "exp_part n = (if 1 < (n + 1) div 100000 then 2 ^ nat ((n + 1) div 100000 - 2) else 0)"

lemma exp_part_nonneg: "0 \<le> exp_part n"
  by (simp add: exp_part_def)

lemma CalcDifficulty_eq:
  "CalcDifficulty md t p n d =
     (max (adjusted t p d) md + exp_part n, if adjusted t p d < md then md + exp_part n else md)"
proof -
  have "0 < (2 :: int) ^ k" for k by simp
  then have *: "\<not> x + 2 ^ k < m" if "m \<le> x" for x m :: int and k using that by (meson less_le_not_le add_increasing2 order.trans less_imp_le)
  show ?thesis
    by (auto simp: CalcDifficulty_def Let_def adjusted_def exp_part_def ExpDiffPeriod_def BigMax_def max_def not_less *)
qed



text \<open>When a header passes.\<close>

lemma ValidateHeader_None:
  "fst (ValidateHeader pow now md h p chk uncle) = None \<longleftrightarrow>
     length (hd_Extra h) \<le> 32 \<and> hd_Time h \<le> (if uncle then MaxBig else now) \<and> hd_Time p < hd_Time h \<and>
     hd_Difficulty h = fst (CalcDifficulty md (Uint64 (hd_Time h)) (Uint64 (hd_Time p)) (hd_Number p) (hd_Difficulty p)) \<and>
     \<bar>hd_GasLimit p - hd_GasLimit h\<bar> < hd_GasLimit p div 1024 \<and> 5000 \<le> hd_GasLimit h \<and>
     hd_Number h = hd_Number p + 1 \<and> (chk \<longrightarrow> pow (NewBlockWithHeader h))"
  by (auto simp: ValidateHeader_def Let_def case_prod_beta not_less)

section \<open>Facts about uncles\<close>









section \<open>Properties\<close>

text \<open>
  C17. The difficulty of a block: the difficulty of the parent moved by one part in 2048, down where
  the block took 13 seconds or longer, but not below the minimum, plus the exponential part, which
  doubles every 100000 blocks from block 200000 on. So it is never below the minimum and never above
  the parent by more than these two parts, except where the minimum itself is above the parent.
\<close>

theorem difficulty_bounds:
  assumes "CalcDifficulty md t p n d = (d', md')" "0 \<le> d" "md \<le> d"
  shows "md \<le> d' \<and> d - d div 2048 + exp_part n \<le> d' \<and> d' \<le> d + d div 2048 + exp_part n"
proof -
  have d': "d' = max (adjusted t p d) md + exp_part n" using assms(1) by (simp add: CalcDifficulty_eq)
  have "d - d div 2048 \<le> adjusted t p d" "adjusted t p d \<le> d + d div 2048" "0 \<le> d div 2048"
    using assms(2) by (simp_all add: adjusted_def pos_imp_zdiv_nonneg_iff)
  then show ?thesis using assms(3) exp_part_nonneg [of n] unfolding d' by linarith
qed

theorem difficulty_bounds_witness:
  "CalcDifficulty 131072 20 0 249999 1000000 = (999513, 131072) \<and> (131072 :: int) \<le> 999513 \<and>
   (1000000 :: int) - 1000000 div 2048 + exp_part 249999 \<le> 999513"
proof -
  have c: "CalcDifficulty 131072 20 0 249999 1000000 = (999513, 131072)" by code_simp
  show ?thesis using difficulty_bounds [OF c] c by simp
qed

text \<open>
  C18. The difficulty is not a function of its arguments. Where the adjusted difficulty is below the
  minimum, from block 200000 on, the call raises the minimum itself by the exponential part, so that
  the same computation gives a higher difficulty the next time, and a header that was sealed with the
  first result is refused.
\<close>

theorem difficulty_drifts:
  assumes "CalcDifficulty md (Uint64 (hd_Time h)) (Uint64 (hd_Time p)) (hd_Number p) (hd_Difficulty p) = (d, md')"
    and "adjusted (Uint64 (hd_Time h)) (Uint64 (hd_Time p)) (hd_Difficulty p) < md" "199999 \<le> hd_Number p"
    and "hd_Difficulty h = d"
  shows "md < md' \<and>
    fst (CalcDifficulty md' (Uint64 (hd_Time h)) (Uint64 (hd_Time p)) (hd_Number p) (hd_Difficulty p)) = d + exp_part (hd_Number p) \<and>
    fst (ValidateHeader pow now md' h p chk uncle) \<noteq> None"
proof -
  have "2 \<le> (hd_Number p + 1) div 100000" using assms(3) zdiv_mono1 [of 200000 "hd_Number p + 1" 100000] by simp
  then have pos: "0 < exp_part (hd_Number p)" by (simp add: exp_part_def)
  have "md' = md + exp_part (hd_Number p)" "d = md + exp_part (hd_Number p)"
    using assms(1,2) by (simp_all add: CalcDifficulty_eq max_def)
  moreover from this have again:
    "fst (CalcDifficulty md' (Uint64 (hd_Time h)) (Uint64 (hd_Time p)) (hd_Number p) (hd_Difficulty p)) = d + exp_part (hd_Number p)"
    using assms(2) pos by (simp add: CalcDifficulty_eq max_def)
  ultimately show ?thesis using pos assms(4) unfolding ValidateHeader_None by auto
qed

definition sample_header :: header where
  "sample_header =
     \<lparr>hd_ParentHash = 0, hd_UncleHash = 0, hd_Coinbase = 9, hd_Root = 0, hd_TxHash = 0, hd_ReceiptHash = 0,
      hd_Bloom = replicate 256 0, hd_Difficulty = 131072, hd_Number = 200000, hd_GasLimit = 3141592, hd_GasUsed = 0,
      hd_Time = 1000, hd_Extra = [], hd_MixDigest = 0, hd_Nonce = replicate 8 0\<rparr>"

theorem difficulty_drifts_witness:
  "\<exists>md'. CalcDifficulty 131072 1060 1000 200000 131072 = (131073, md') \<and>
     fst (CalcDifficulty md' 1060 1000 200000 131072) = 131074 \<and>
     fst (ValidateHeader (\<lambda>_. True) 2000 md' (sample_header\<lparr>hd_Time := 1060, hd_Number := 200001, hd_Difficulty := 131073\<rparr>)
        sample_header False False) \<noteq> None"
proof -
  have c: "CalcDifficulty 131072 1060 1000 200000 131072 = (131073, 131073)" "adjusted 1060 1000 131072 < 131072"
    "exp_part 200000 = 1" by code_simp+
  then show ?thesis
    using difficulty_drifts [of 131072 "sample_header\<lparr>hd_Time := 1060, hd_Number := 200001, hd_Difficulty := 131073\<rparr>" sample_header
        131073 131073 "\<lambda>_. True" 2000 False False]
    by (simp add: sample_header_def Uint64_def)
qed



















end
