(* ===== verification/State_Facts.thy ===== *)
theory State_Facts
  imports World
begin

text \<open>
  The state database as a map of accounts. \<open>db_view\<close> forgets where an account is kept, in the
  object cache, in the storage cache of an object or in a trie; every operation acts on it as the
  corresponding operation on a map, and flushing writes exactly it to the account trie.
\<close>

section \<open>The accounts\<close>

definition db_view :: "statedb \<Rightarrow> address \<Rightarrow> account option" where
  "db_view db a = map_option so_view (live db a)"

text \<open>The account a setter works on: the existing one or a new one.\<close>

definition new_account :: "statedb \<Rightarrow> account" where
  "new_account db = \<lparr>ac_nonce = db_StartingNonce db, ac_balance = 0, ac_storage = (\<lambda>_. 0), ac_code = []\<rparr>"

definition account_at :: "statedb \<Rightarrow> address \<Rightarrow> account" where
  "account_at db a = (case db_view db a of Some ac \<Rightarrow> ac | None \<Rightarrow> new_account db)"

lemma so_view_fresh: "so_view (fresh db a) = new_account db"
  by (simp add: so_view_def fresh_def so_SetNonce_def NewStateObject_def new_account_def)

lemma so_view_obtained: "so_view (obtained db a) = account_at db a"
  by (simp add: obtained_def account_at_def db_view_def so_view_fresh split: option.split)

lemma so_view_updates:
  "so_view (so_AddBalance so v) = (so_view so)\<lparr>ac_balance := ac_balance (so_view so) + v\<rparr>"
  "so_view (so_SubBalance so v) = (so_view so)\<lparr>ac_balance := ac_balance (so_view so) - v\<rparr>"
  "so_view (so_SetNonce so n) = (so_view so)\<lparr>ac_nonce := n\<rparr>"
  "so_view (so_SetCode so c) = (so_view so)\<lparr>ac_code := c\<rparr>"
  "so_view (so_SetState so k h) = (so_view so)\<lparr>ac_storage := (ac_storage (so_view so))(k := h)\<rparr>"
  by (auto simp: so_view_def so_AddBalance_def so_SubBalance_def so_SetBalance_def so_SetNonce_def
      so_SetCode_def so_SetState_def fun_eq_iff split: option.split)

lemma so_view_created:
  "so_view (created db a) = (new_account db)\<lparr>ac_balance := ac_balance (account_at db a)\<rparr>"
proof -
  have "so_balance so = ac_balance (so_view so)" for so by (simp add: so_view_def)
  then show ?thesis
    by (auto simp: created_def account_at_def db_view_def so_view_def fresh_def so_SetNonce_def
        NewStateObject_def new_account_def split: option.split)
qed

text \<open>
  C26. The state database refines a map from addresses to accounts: a lookup returns what the map
  holds and does not change it, and a setter updates the account at its address and no other. A
  missing account reads as zero and is created by the setters; creating an existing account keeps
  its balance only.
\<close>

theorem statedb_refines_map:
  "fst (GetBalance db a) = (case db_view db a of Some ac \<Rightarrow> ac_balance ac | None \<Rightarrow> 0) \<and>
   fst (GetNonce db a) = (case db_view db a of Some ac \<Rightarrow> ac_nonce ac | None \<Rightarrow> 0) \<and>
   fst (GetCode db a) = (case db_view db a of Some ac \<Rightarrow> ac_code ac | None \<Rightarrow> []) \<and>
   fst (GetState db a k) = (case db_view db a of Some ac \<Rightarrow> ac_storage ac k | None \<Rightarrow> 0) \<and>
   fst (Exist db a) = (db_view db a \<noteq> None) \<and>
   db_view (snd (GetBalance db a)) = db_view db \<and> db_view (snd (GetNonce db a)) = db_view db \<and>
   db_view (snd (GetCode db a)) = db_view db \<and> db_view (snd (GetState db a k)) = db_view db \<and>
   db_view (snd (Exist db a)) = db_view db \<and>
   db_view (AddBalance db a v) = (db_view db)(a \<mapsto> (account_at db a)\<lparr>ac_balance := ac_balance (account_at db a) + v\<rparr>) \<and>
   db_view (SetNonce db a n) = (db_view db)(a \<mapsto> (account_at db a)\<lparr>ac_nonce := n\<rparr>) \<and>
   db_view (SetCode db a c) = (db_view db)(a \<mapsto> (account_at db a)\<lparr>ac_code := c\<rparr>) \<and>
   db_view (SetState db a k h) =
     (db_view db)(a \<mapsto> (account_at db a)\<lparr>ac_storage := (ac_storage (account_at db a))(k := h)\<rparr>) \<and>
   db_view (CreateAccount db a) = (db_view db)(a \<mapsto> (new_account db)\<lparr>ac_balance := ac_balance (account_at db a)\<rparr>)"
proof -
  have v: "ac_balance (so_view so) = so_balance so" "ac_nonce (so_view so) = so_nonce so"
    "ac_code (so_view so) = so_code so" for so
    by (simp_all add: so_view_def)
  show ?thesis
    by (intro conjI)
      (auto simp: db_view_def live_simps fun_eq_iff v so_GetState_value so_view_updates so_view_obtained
        so_view_created bal_def option.map_comp comp_def split: option.split)
qed

section \<open>Flushing\<close>

text \<open>
  The object cache and the account trie agree: an object that is not dirty is what the trie holds,
  a deleted object is not in the trie, and an object marked for removal is deleted by the flush.
\<close>

definition object_ok :: "account option \<Rightarrow> address \<Rightarrow> state_object \<Rightarrow> bool" where
  "object_ok entry a so \<longleftrightarrow>
     so_address so = a \<and> (so_deleted so \<longrightarrow> \<not> so_dirty so) \<and> (\<not> so_dirty so \<longrightarrow> so_remove so = so_deleted so) \<and>
     (\<not> so_dirty so \<longrightarrow> entry = (if so_deleted so then None else Some (so_view so)))"

definition coherent :: "statedb \<Rightarrow> bool" where
  "coherent db \<longleftrightarrow> (\<forall>a so. stateObjects db a = Some so \<longrightarrow> object_ok (db_trie db a) a so)"

text \<open>What remains after the accounts marked for removal are gone.\<close>

definition final_view :: "statedb \<Rightarrow> address \<Rightarrow> account option" where
  "final_view db a =
     (case live db a of Some so \<Rightarrow> if so_remove so then None else Some (so_view so) | None \<Rightarrow> None)"

lemma live_eq:
  "live db a = (case stateObjects db a of
      Some so \<Rightarrow> if so_deleted so then None else Some so
    | None \<Rightarrow> map_option (NewStateObjectFromBytes a) (db_trie db a))"
  by (simp add: live_def split: option.split)





lemma final_view_eq:
  "final_view db a =
     (case stateObjects db a of
        Some so \<Rightarrow> if so_deleted so \<or> so_remove so then None else Some (so_view so)
      | None \<Rightarrow> db_trie db a)"
  by (auto simp: final_view_def live_eq NewStateObjectFromBytes_def so_view_def split: option.split)



lemma coherent_refund [simp]: "coherent (db\<lparr>refund := r\<rparr>) = coherent db" "final_view (db\<lparr>refund := r\<rparr>) = final_view db"
  by (simp_all add: coherent_def final_view_eq fun_eq_iff split: option.split)







section \<open>Every operation keeps the cache and the trie in agreement\<close>




















end
