(* ===== verification/Processor.thy ===== *)
theory Processor
  imports State_Transition_Facts Validator State_Facts
begin

text \<open>
  The processing of a block, \<^verbatim>\<open>src/core/state_processor.go\<close>, with the environment of a transaction,
  \<^verbatim>\<open>src/core/vm_env.go\<close>: the transactions are applied in order, each gives a receipt, and the miner and
  the miners of the uncles are paid. As in the validation of the state, \<open>root_of\<close> is the root hash of
  the account trie and \<open>order\<close> the order in which the objects are flushed.
\<close>

section \<open>Transactions as messages\<close>






section \<open>Transactions\<close>


section \<open>Rewards\<close>

definition BlockReward :: int where
  "BlockReward = 5000000000000000000"

definition AccumulateRewards :: "statedb \<Rightarrow> header \<Rightarrow> header list \<Rightarrow> statedb" where
  "AccumulateRewards db header uncles =
     (let (reward, db) =
        fold (\<lambda>uncle (reward, db).
            let r = (hd_Number uncle + 8 - hd_Number header) * BlockReward div 8;
                db = AddBalance db (hd_Coinbase uncle) r;
                r = BlockReward div 32 in
            (reward + r, db))
          uncles (BlockReward, db) in
      AddBalance db (hd_Coinbase header) reward)"

section \<open>Blocks\<close>



section \<open>The hashes of ancestors\<close>






section \<open>Flushing and the invariant\<close>





section \<open>Applying a transaction\<close>







section \<open>Rewards and blocks\<close>

definition uncle_reward :: "header \<Rightarrow> header \<Rightarrow> int" where
  "uncle_reward header u = (hd_Number u + 8 - hd_Number header) * BlockReward div 8"

definition minted :: "header \<Rightarrow> header list \<Rightarrow> int" where
  "minted header uncles = BlockReward + (\<Sum>u\<leftarrow>uncles. uncle_reward header u + BlockReward div 32)"

definition pay_uncles :: "header \<Rightarrow> header list \<Rightarrow> statedb \<Rightarrow> statedb" where
  "pay_uncles header uncles db = fold (\<lambda>u db. AddBalance db (hd_Coinbase u) (uncle_reward header u)) uncles db"

lemma AccumulateRewards_eq:
  "AccumulateRewards db header uncles =
     AddBalance (pay_uncles header uncles db) (hd_Coinbase header) (BlockReward + int (length uncles) * (BlockReward div 32))"
proof -
  have "fold (\<lambda>u (reward, db). let r = (hd_Number u + 8 - hd_Number header) * BlockReward div 8;
        db = AddBalance db (hd_Coinbase u) r; r = BlockReward div 32 in (reward + r, db)) uncles (x, db) =
      (x + int (length uncles) * (BlockReward div 32), pay_uncles header uncles db)" for x db
    by (induction uncles arbitrary: x db) (simp_all add: pay_uncles_def uncle_reward_def algebra_simps)
  then show ?thesis by (simp add: AccumulateRewards_def)
qed

lemma pay_uncles_ops:
  "bal (pay_uncles header uncles db) a = bal db a + (\<Sum>u\<leftarrow>uncles. if hd_Coinbase u = a then uncle_reward header u else 0)"
  "total_supply (pay_uncles header uncles db) = total_supply db + (\<Sum>u\<leftarrow>uncles. uncle_reward header u)"
  "code_of (pay_uncles header uncles db) = code_of db" "refund (pay_uncles header uncles db) = refund db"
  by (induction uncles arbitrary: db)
     (simp_all add: pay_uncles_def bal_simps total_supply_AddBalance)

lemma total_AccumulateRewards:
  "total_supply (AccumulateRewards db header uncles) = total_supply db + minted header uncles"
proof -
  have "(\<Sum>u\<leftarrow>uncles. uncle_reward header u + c) = (\<Sum>u\<leftarrow>uncles. uncle_reward header u) + int (length uncles) * c" for c
    by (induction uncles) (simp_all add: algebra_simps)
  then show ?thesis by (simp add: AccumulateRewards_eq total_supply_AddBalance pay_uncles_ops(2) minted_def)
qed






section \<open>A concrete block\<close>






section \<open>Properties\<close>



text \<open>
  C8. The rewards of a block, to the last unit: the coinbase gets the block reward and a 32nd of it for
  every uncle, the coinbase of an uncle the block reward less an eighth for every generation since,
  a coinbase that appears several times gets the sum, and every other account keeps its balance.
\<close>

theorem rewards_paid:
  "bal (AccumulateRewards db header uncles) a =
     bal db a + (\<Sum>u\<leftarrow>uncles. if hd_Coinbase u = a then (hd_Number u + 8 - hd_Number header) * 5000000000000000000 div 8 else 0) +
     (if a = hd_Coinbase header then 5000000000000000000 + int (length uncles) * 156250000000000000 else 0) \<and>
   total_supply (AccumulateRewards db header uncles) = total_supply db + minted header uncles"
  using total_AccumulateRewards [of db header uncles]
  by (simp add: AccumulateRewards_eq bal_simps pay_uncles_ops(1) uncle_reward_def BlockReward_def cong: if_cong)





end
