(* ===== verification/Arith_Facts.thy ===== *)
theory Arith_Facts
  imports Instructions Rlp_Facts "HOL-Library.Signed_Division"
begin

text \<open>
  The arithmetic instructions compute on arbitrary-precision integers and reduce the result. They
  agree with the operations on 256-bit words.
\<close>

section \<open>The stack\<close>

lemma pop_snoc:
  "st_data (fr_stack fr) = xs @ [x] \<Longrightarrow> pop fr = Some (x, fr\<lparr>fr_stack := \<lparr>st_data = xs\<rparr>\<rparr>)"
  by (simp add: pop_def st_pop_def)

abbreviation (input) stacked :: "frame \<Rightarrow> int list \<Rightarrow> frame" where
  "stacked fr xs \<equiv> fr\<lparr>fr_stack := \<lparr>st_data = xs\<rparr>\<rparr>"

lemma push_stacked: "push v (stacked fr xs) = stacked fr (xs @ [v])"
  by (simp add: push_def st_push_def)

section \<open>The operations on words\<close>

definition word_signextend :: "hash \<Rightarrow> hash \<Rightarrow> hash" where
  "word_signextend b x = (if b < 31 then word_of_int (signed_take_bit (8 * unat b + 7) (uint x)) else x)"

definition word_byte :: "hash \<Rightarrow> hash \<Rightarrow> hash" where
  "word_byte i x = (if i < 32 then take_bit 8 (drop_bit (8 * (31 - unat i)) x) else 0)"

definition flag :: "bool \<Rightarrow> hash" where
  "flag b = (if b then 1 else 0)"

text \<open>The instructions with two operands, the first from the top of the stack, and their meaning.\<close>

definition binary_words :: "(instrFn \<times> (hash \<Rightarrow> hash \<Rightarrow> hash)) list" where
  "binary_words =
     [(opAdd, \<lambda>x y. x + y), (opSub, \<lambda>x y. x - y), (opMul, \<lambda>x y. x * y),
      (opDiv, \<lambda>x y. x div y),
      (opSdiv, \<lambda>x y. word_of_int (sint x sdiv sint y)),
      (opMod, \<lambda>x y. if y = 0 then 0 else x mod y),
      (opSmod, \<lambda>x y. if y = 0 then 0 else word_of_int (sint x smod sint y)),
      (opExp, \<lambda>x y. x ^ unat y), (opSignExtend, word_signextend),
      (opLt, \<lambda>x y. flag (x < y)), (opGt, \<lambda>x y. flag (y < x)),
      (opSlt, \<lambda>x y. flag (sint x < sint y)), (opSgt, \<lambda>x y. flag (sint y < sint x)),
      (opEq, \<lambda>x y. flag (x = y)),
      (opAnd, \<lambda>x y. semiring_bit_operations_class.and x y),
      (opOr, \<lambda>x y. semiring_bit_operations_class.or x y),
      (opXor, \<lambda>x y. semiring_bit_operations_class.xor x y),
      (opByte, word_byte)]"

section \<open>Values\<close>

lemma word_of_int_eq_iff256:
  assumes "is_u256 x" "is_u256 y"
  shows "(word_of_int x :: hash) = word_of_int y \<longleftrightarrow> x = y"
    "(word_of_int x :: hash) < word_of_int y \<longleftrightarrow> x < y"
  using assms by (simp_all add: is_u256_def word_of_int_eq_iff word_less_def uint_word_of_int take_bit_int_eq_self)

lemma uint_of_u256: "is_u256 x \<Longrightarrow> uint (word_of_int x :: hash) = x"
  by (simp add: is_u256_def uint_word_of_int)

lemma S256_sint_u256: "is_u256 x \<Longrightarrow> S256 x = sint (word_of_int x :: hash)"
  by (rule S256_sint) (simp_all add: is_u256_def)

lemma S256_idem: "is_u256 x \<Longrightarrow> S256 (S256 x) = S256 x"
  by (auto simp: S256_def tt255_def tt256_def big_Lsh_def is_u256_def)

lemma S256_sint_idem: "is_u256 x \<Longrightarrow> S256 (sint (word_of_int x :: hash)) = sint (word_of_int x :: hash)"
  using S256_idem [of x] S256_sint_u256 [of x] by simp

lemma word_of_int_zero256: "is_u256 y \<Longrightarrow> (word_of_int y :: hash) = 0 \<longleftrightarrow> y = 0"
  using word_of_int_eq_iff256(1) [of y 0] by (simp add: is_u256_def)

lemma U256_ring:
  "U256 (x + y) = uint (word_of_int x + word_of_int y :: hash)"
  "U256 (x - y) = uint (word_of_int x - word_of_int y :: hash)"
  "U256 (x * y) = uint (word_of_int x * word_of_int y :: hash)"
  by (simp_all add: U256_uint)

lemma U256_div:
  assumes "is_u256 x" "is_u256 y"
  shows "(if y \<noteq> 0 then U256 (x div y) else 0) = uint (word_of_int x div word_of_int y :: hash)"
    "(if y = 0 then 0 else U256 (x mod y)) =
       uint (if word_of_int y = (0 :: hash) then 0 else word_of_int x mod word_of_int y :: hash)"
proof -
  have u: "uint (word_of_int x :: hash) = x" "uint (word_of_int y :: hash) = y"
    using assms by (simp_all add: uint_of_u256)
  have "x div y = uint (word_of_int x div word_of_int y :: hash)" "x mod y = uint (word_of_int x mod word_of_int y :: hash)"
    using u by (simp_all only: uint_div uint_mod)
  then have "U256 (x div y) = x div y" "U256 (x mod y) = x mod y"
    using uint_lt2p [of "word_of_int x div word_of_int y :: hash"] uint_lt2p [of "word_of_int x mod word_of_int y :: hash"]
    by (simp_all add: U256_id)
  then show "(if y \<noteq> 0 then U256 (x div y) else 0) = uint (word_of_int x div word_of_int y :: hash)"
    "(if y = 0 then 0 else U256 (x mod y)) =
       uint (if word_of_int y = (0 :: hash) then 0 else word_of_int x mod word_of_int y :: hash)"
    using word_of_int_zero256 [OF assms(2)] u by (simp_all add: uint_div uint_mod)
qed

lemma sdiv_eq:
  fixes x y :: int
  shows "y \<noteq> 0 \<Longrightarrow> \<bar>x\<bar> div \<bar>y\<bar> * (if x * y < 0 then - 1 else 1) = x sdiv y"
    "\<bar>x\<bar> mod \<bar>y\<bar> * (if x < 0 then - 1 else 1) = x smod y"
  by (auto simp: signed_divide_int_def signed_modulo_int_def sgn_if mult_less_0_iff abs_if)

lemma U256_exp: "is_u256 y \<Longrightarrow> U256 (big_Exp x y (2 ^ 256)) = uint (word_of_int x ^ unat (word_of_int y :: hash) :: hash)"
  by (simp add: big_Exp_def U256_mod uint_word_of_int unat_eq_nat_uint is_u256_def flip: of_int_power)

lemma U256_bits:
  assumes "is_u256 x" "is_u256 y"
  shows "big_And x y = uint (semiring_bit_operations_class.and (word_of_int x) (word_of_int y) :: hash)"
    "big_Or x y = uint (semiring_bit_operations_class.or (word_of_int x) (word_of_int y) :: hash)"
    "big_Xor x y = uint (semiring_bit_operations_class.xor (word_of_int x) (word_of_int y) :: hash)"
  using uint_of_u256 [OF assms(1)] uint_of_u256 [OF assms(2)]
  by (simp_all add: big_And_def big_Or_def big_Xor_def unsigned_and_eq unsigned_or_eq unsigned_xor_eq)

lemma signextend_eq:
  fixes k :: int and n :: nat
  defines "m \<equiv> big_Lsh 1 n - 1"
  shows "(if BitTest k n then big_Or k (big_Not m) else big_And k m) = signed_take_bit n k"
proof -
  have m: "m = mask n" by (simp add: m_def big_Lsh_def mask_eq_exp_minus_1)
  have n: "big_Not (mask n) = ring_bit_operations_class.not (mask n)" by (simp add: big_Not_def not_eq_complement)
  show ?thesis
    by (rule bit_eqI) (auto simp: m n big_Or_def big_And_def BitTest_def bit_signed_take_bit_iff bit_or_iff
        bit_and_iff bit_not_iff bit_mask_iff min_def)
qed

lemma nth_bytes_of: "i < k \<Longrightarrow> bytes_of k n ! i = byte_at n (k - 1 - i)"
proof (induction k arbitrary: i)
  case (Suc k)
  then show ?case by (cases i) simp_all
qed simp

lemma LeftPad_bytes_of:
  assumes "is_u256 x"
  shows "LeftPadBytes (big_Bytes x) 32 = bytes_of 32 (nat x)"
proof (rule be_nat_inject)
  have "length (big_Bytes x) \<le> 32" using assms by (intro length_big_Bytes) (simp add: is_u256_def)
  then show "length (LeftPadBytes (big_Bytes x) 32) = length (bytes_of 32 (nat x))"
    by (simp add: length_LeftPadBytes)
  have "nat x < 256 ^ 32" using assms by (simp add: is_u256_def nat_less_iff)
  then show "be_nat (LeftPadBytes (big_Bytes x) 32) = be_nat (bytes_of 32 (nat x))"
    using assms by (simp add: be_nat_bytes_of is_u256_def be_nat_LeftPadBytes)
qed

lemma uint_byte_at:
  assumes "is_u256 x"
  shows "uint (byte_at (nat x) j) = uint (take_bit 8 (drop_bit (8 * j) (word_of_int x :: hash)))"
proof -
  have "uint (byte_at (nat x) j) = int (nat x div 256 ^ j mod 256)"
    by (simp add: byte_at_def uint_nat byte_of_nat)
  also have "\<dots> = x div 2 ^ (8 * j) mod 2 ^ 8"
    using assms by (simp add: is_u256_def zdiv_int zmod_int power_mult)
  also have "\<dots> = take_bit 8 (drop_bit (8 * j) x)" by (simp add: take_bit_eq_mod drop_bit_eq_div)
  also have "\<dots> = uint (take_bit 8 (drop_bit (8 * j) (word_of_int x :: hash)))"
    using uint_of_u256 [OF assms] take_bit_int_eq_self [of x 256] assms
    by (simp add: unsigned_take_bit_eq unsigned_drop_bit_eq is_u256_def)
  finally show ?thesis .
qed

section \<open>Instructions\<close>

definition refines :: "instrFn \<Rightarrow> (hash \<Rightarrow> hash \<Rightarrow> hash) \<Rightarrow> bool" where
  "refines f g \<longleftrightarrow>
     (\<forall>env fr xs x y. st_data (fr_stack fr) = xs @ [y, x] \<and> is_u256 x \<and> is_u256 y \<longrightarrow>
        f env fr = Some (stacked fr (xs @ [uint (g (word_of_int x) (word_of_int y))])))"

lemma refinesI:
  assumes "\<And>env fr xs x y. pop fr = Some (x, stacked fr (xs @ [y])) \<Longrightarrow>
      pop (stacked fr (xs @ [y])) = Some (y, stacked fr xs) \<Longrightarrow> is_u256 x \<Longrightarrow> is_u256 y \<Longrightarrow>
      f env fr = Some (push (uint (g (word_of_int x) (word_of_int y))) (stacked fr xs))"
  shows "refines f g"
  unfolding refines_def push_stacked [symmetric]
proof (intro allI impI, elim conjE)
  fix env xs x y and fr :: frame
  assume "st_data (fr_stack fr) = xs @ [y, x]" and u: "is_u256 x" "is_u256 y"
  then show "f env fr = Some (push (uint (g (word_of_int x) (word_of_int y))) (stacked fr xs))"
    using pop_snoc [of fr "xs @ [y]" x] pop_snoc [of "stacked fr (xs @ [y])" xs y]
    by (intro assms) simp_all
qed

lemma refines_ring: "refines opAdd (\<lambda>x y. x + y)" "refines opSub (\<lambda>x y. x - y)" "refines opMul (\<lambda>x y. x * y)"
  by (rule refinesI; simp add: opAdd_def opSub_def opMul_def U256_ring)+

lemma refines_div:
  "refines opDiv (\<lambda>x y. x div y)" "refines opMod (\<lambda>x y. if y = 0 then 0 else x mod y)"
  by (rule refinesI; simp add: opDiv_def opMod_def U256_div)+

lemma refines_signed:
  "refines opSdiv (\<lambda>x y. word_of_int (sint x sdiv sint y))"
  "refines opSmod (\<lambda>x y. if y = 0 then 0 else word_of_int (sint x smod sint y))"
proof -
  have z: "S256 y = 0 \<longleftrightarrow> (word_of_int y :: hash) = 0" if "is_u256 y" for y
    using that U256_S256 [of y] word_of_int_zero256 [OF that]
    by (auto simp: is_u256_def S256_def tt255_def tt256_def big_Lsh_def)
  show "refines opSdiv (\<lambda>x y. word_of_int (sint x sdiv sint y))"
  proof (rule refinesI)
    fix env fr xs x y
    assume p: "pop fr = Some (x, stacked fr (xs @ [y]))" "pop (stacked fr (xs @ [y])) = Some (y, stacked fr xs)"
      and u: "is_u256 x" "is_u256 y"
    show "opSdiv env fr = Some (push (uint (word_of_int (sint (word_of_int x :: hash) sdiv sint (word_of_int y :: hash)) :: hash)) (stacked fr xs))"
      using z [OF u(2)] sdiv_eq(1) [of "S256 y" "S256 x", symmetric]
      by (auto simp: opSdiv_def p Let_def U256_uint S256_sint_u256 [OF u(1), symmetric] S256_sint_u256 [OF u(2), symmetric])
  qed
  show "refines opSmod (\<lambda>x y. if y = 0 then 0 else word_of_int (sint x smod sint y))"
  proof (rule refinesI)
    fix env fr xs x y
    assume p: "pop fr = Some (x, stacked fr (xs @ [y]))" "pop (stacked fr (xs @ [y])) = Some (y, stacked fr xs)"
      and u: "is_u256 x" "is_u256 y"
    show "opSmod env fr = Some (push (uint (if (word_of_int y :: hash) = 0 then 0 else
            word_of_int (sint (word_of_int x :: hash) smod sint (word_of_int y :: hash)) :: hash)) (stacked fr xs))"
      using z [OF u(2)] sdiv_eq(2) [of "S256 x" "S256 y", symmetric]
      by (auto simp: opSmod_def p Let_def U256_uint S256_sint_u256 [OF u(1), symmetric] S256_sint_u256 [OF u(2), symmetric])
  qed
qed

lemma refines_exp: "refines opExp (\<lambda>x y. x ^ unat y)"
  by (rule refinesI) (simp add: opExp_def U256_exp [simplified])

lemma refines_compare:
  "refines opLt (\<lambda>x y. flag (x < y))" "refines opGt (\<lambda>x y. flag (y < x))" "refines opEq (\<lambda>x y. flag (x = y))"
  "refines opSlt (\<lambda>x y. flag (sint x < sint y))" "refines opSgt (\<lambda>x y. flag (sint y < sint x))"
  by (rule refinesI; simp add: opLt_def opGt_def opEq_def opSlt_def opSgt_def flag_def Let_def
      word_of_int_eq_iff256 S256_sint_u256 S256_sint_idem)+

lemma refines_bits:
  "refines opAnd (\<lambda>x y. semiring_bit_operations_class.and x y)"
  "refines opOr (\<lambda>x y. semiring_bit_operations_class.or x y)"
  "refines opXor (\<lambda>x y. semiring_bit_operations_class.xor x y)"
  by (rule refinesI; simp add: opAnd_def opOr_def opXor_def U256_bits)+

lemma small_operand:
  assumes "is_u256 x"
  shows "(word_of_int x :: hash) < 32 \<longleftrightarrow> x < 32" "(word_of_int x :: hash) < 31 \<longleftrightarrow> x < 31"
    "unat (word_of_int x :: hash) = nat x"
  using word_of_int_eq_iff256(2) [OF assms, of 32] word_of_int_eq_iff256(2) [OF assms, of 31] uint_of_u256 [OF assms]
  by (simp_all add: is_u256_def unat_eq_nat_uint)

lemma sign_bit:
  assumes "is_u256 x" "x < 31"
  shows "unat (Uint64 x * 8 + 7) = 8 * nat x + 7"
proof -
  have "Uint64 x * 8 + 7 = Uint64 (x * 8 + 7)" using assms(1) by (simp add: Uint64_def is_u256_def)
  moreover have "nat (x * 8 + 7) = 8 * nat x + 7" using assms(1) by (auto simp: is_u256_def nat_add_distrib nat_mult_distrib)
  ultimately show ?thesis
    using assms unat_Uint64 [of "x * 8 + 7"] by (simp add: is_u256_def)
qed

lemma refines_signextend: "refines opSignExtend word_signextend"
proof (rule refinesI)
  fix env xs x y and fr :: frame
  assume p: "pop fr = Some (x, stacked fr (xs @ [y]))" "pop (stacked fr (xs @ [y])) = Some (y, stacked fr xs)"
    and u: "is_u256 x" "is_u256 y"
  show "opSignExtend env fr = Some (push (uint (word_signextend (word_of_int x) (word_of_int y))) (stacked fr xs))"
  proof (cases "x < 31")
    case True
    then show ?thesis
      using sign_bit [OF u(1) True]
      by (simp add: opSignExtend_def p Let_def signextend_eq word_signextend_def small_operand [OF u(1)]
          uint_of_u256 [OF u(2)] U256_uint)
  next
    case False
    then show ?thesis
      by (simp add: opSignExtend_def p word_signextend_def small_operand [OF u(1)] uint_of_u256 [OF u(2)] push_stacked)
  qed
qed

lemma refines_byte: "refines opByte word_byte"
proof (rule refinesI)
  fix env xs x y and fr :: frame
  assume p: "pop fr = Some (x, stacked fr (xs @ [y]))" "pop (stacked fr (xs @ [y])) = Some (y, stacked fr xs)"
    and u: "is_u256 x" "is_u256 y"
  show "opByte env fr = Some (push (uint (word_byte (word_of_int x) (word_of_int y))) (stacked fr xs))"
  proof (cases "x < 32")
    case True
    then have "Int64 x = x" "0 \<le> x" using u(1) Int64_small [of x] by (simp_all add: is_u256_def)
    moreover have "index (LeftPadBytes (big_Bytes y) 32) (nat x) = Some (byte_at (nat y) (31 - nat x))"
      using True u(1) by (simp add: LeftPad_bytes_of [OF u(2)] index_def nth_bytes_of is_u256_def nat_less_iff)
    ultimately show ?thesis
      using True by (simp add: opByte_def p word_byte_def small_operand [OF u(1)] uint_byte_at [OF u(2)])
  qed (simp add: opByte_def p word_byte_def small_operand [OF u(1)])
qed

text \<open>
  C24. Every binary arithmetic, comparison and bitwise instruction replaces the two operands on top
  of the stack by the result of the operation on 256-bit words: wrap-around addition, subtraction,
  multiplication and exponentiation, unsigned and signed division and remainder with zero for a
  zero divisor, sign extension, unsigned and signed comparison, bitwise operations and selection
  of a byte.
\<close>

theorem binary_instructions:
  assumes "(f, g) \<in> set binary_words" "st_data (fr_stack fr) = xs @ [y, x]" "is_u256 x" "is_u256 y"
  shows "f env fr = Some (fr\<lparr>fr_stack := \<lparr>st_data = xs @ [uint (g (word_of_int x) (word_of_int y))]\<rparr>\<rparr>)"
proof -
  have "\<forall>(f, g) \<in> set binary_words. refines f g"
    by (simp add: binary_words_def refines_ring refines_div refines_signed refines_exp refines_compare
        refines_bits refines_signextend refines_byte)
  then show ?thesis using assms by (auto simp: refines_def)
qed

text \<open>
  The operations with one and three operands; the sum and the product modulo the third operand
  are computed without wrap-around.
\<close>

lemma opNot_eq:
  "st_data (fr_stack fr) = xs @ [x] \<Longrightarrow>
   opNot env fr = Some (stacked fr (xs @ [uint (ring_bit_operations_class.not (word_of_int x :: hash))]))"
  using pop_snoc [of fr xs x]
  by (simp add: opNot_def push_stacked U256_uint big_Not_def not_eq_complement)

lemma opIszero_eq:
  "st_data (fr_stack fr) = xs @ [x] \<Longrightarrow> is_u256 x \<Longrightarrow> opIszero env fr = Some (stacked fr (xs @ [if x = 0 then 1 else 0]))"
  using pop_snoc [of fr xs x] by (simp add: opIszero_def push_stacked is_u256_def)

lemma opAddmod_eq:
  assumes "st_data (fr_stack fr) = xs @ [z, y, x]" "is_u256 x" "is_u256 y" "is_u256 z"
  shows "opAddmod env fr = Some (stacked fr (xs @ [if z = 0 then 0 else (x + y) mod z])) \<and>
         opMulmod env fr = Some (stacked fr (xs @ [if z = 0 then 0 else (x * y) mod z]))"
proof -
  have "is_u256 (t mod z)" if "0 < z" for t
    using that assms(4) pos_mod_bound [of z t] pos_mod_sign [of z t] unfolding is_u256_def by linarith
  then have "U256 (t mod z) = t mod z" if "0 < z" for t using that by (simp add: is_u256_def U256_id)
  then show ?thesis
    using assms(4) pop_snoc [of fr "xs @ [z, y]" x] pop_snoc [of "stacked fr (xs @ [z, y])" "xs @ [z]" y]
      pop_snoc [of "stacked fr (xs @ [z])" xs z] assms(1)
    by (auto simp: opAddmod_def opMulmod_def push_stacked is_u256_def)
qed

theorem binary_instructions_witness:
  "\<forall>env fr. opSdiv env (fr\<lparr>fr_stack := \<lparr>st_data = [4, 2 ^ 256 - 7]\<rparr>\<rparr>) =
     Some (fr\<lparr>fr_stack := \<lparr>st_data = [2 ^ 256 - 1]\<rparr>\<rparr>)"
proof (intro allI)
  fix env and fr :: frame
  have "(opSdiv, \<lambda>x y. word_of_int (sint x sdiv sint y)) \<in> set binary_words" by (simp add: binary_words_def)
  from binary_instructions [OF this, of "fr\<lparr>fr_stack := \<lparr>st_data = [4, 2 ^ 256 - 7]\<rparr>\<rparr>" "[]" 4 "2 ^ 256 - 7" env]
  show "opSdiv env (fr\<lparr>fr_stack := \<lparr>st_data = [4, 2 ^ 256 - 7]\<rparr>\<rparr>) = Some (fr\<lparr>fr_stack := \<lparr>st_data = [2 ^ 256 - 1]\<rparr>\<rparr>)"
    by (simp add: is_u256_def S256_sint [symmetric] S256_def tt255_def tt256_def big_Lsh_def signed_divide_int_def
        unsigned_minus_1_eq_mask mask_eq_exp_minus_1)
qed

end
