(* ===== verification/Spec2Isabelle.thy ===== *)
theory Spec2Isabelle
  imports Applications Processor Arith_Facts
begin

text \<open>
  A verification of the core of go-coupe, an Ethereum client written in Go: the state of the
  accounts, the virtual machine that runs contract code on it, the application of messages, the
  trie and the serialisation underneath, and the types of transactions and receipts.

  \<^bold>\<open>The program and its parts.\<close> A block is validated
  (\<^verbatim>\<open>src/core/block_validator.go\<close>) and its transactions are processed
  (\<^verbatim>\<open>src/core/state_processor.go\<close>). The state transition
  (\<^verbatim>\<open>src/core/state_transition.go\<close>) checks a message, buys its gas from the pool of the block, runs it
  with \<open>Call\<close> or \<open>Create\<close> of \<^verbatim>\<open>src/core/execution.go\<close> and settles the gas. A call transfers the value and
  starts the interpreter of \<^verbatim>\<open>src/core/vm/vm.go\<close> on the code of the account, whose instructions may call
  again, up to a depth of 1024. The interpreter reads and writes accounts through the state database,
  \<^verbatim>\<open>src/core/state\<close>, which caches the objects of the accounts over a trie, \<^verbatim>\<open>src/trie\<close>. Tries,
  transactions and receipts are encoded by \<^verbatim>\<open>src/rlp\<close> and identified by the hash of the encoding.

  \<^bold>\<open>Conventions.\<close> A panic of Go is \<open>None\<close>, an \<open>error\<close> value is a constructor of a result type.
  Big integers are \<open>int\<close>, machine integers are words of their width, hashes and addresses are words of
  256 and 160 bits. A pointer that is shared and written through is modelled where a result depends
  on it: the gas counters, the account that \<open>Transfer\<close> debits, the refund counter. The digests, the
  curve and the database of nodes are parameters; what is needed of them is collected in \<open>crypto_ok\<close>
  (the lengths of the digests), \<open>new_addresses\<close>, and injectivity on the strings at hand.

  \<^bold>\<open>Theories.\<close>
  \<^item> \<open>Prelude\<close>, \<open>Common\<close>, \<open>Params\<close>: byte strings, slices and big integers; \<^verbatim>\<open>src/common\<close>; \<^verbatim>\<open>src/params\<close>.
  \<^item> \<open>State_Object\<close>, \<open>StateDB\<close>: accounts and the database of accounts, \<^verbatim>\<open>src/core/state\<close>. The storage and
    the account trie are represented by their contents. \<open>World\<close> states the interface that the virtual
    machine relies on as a locale and interprets it on the database; \<open>State_Facts\<close> proves that the
    database behaves as a map, what flushing writes, and that clean objects agree with the trie.
  \<^item> \<open>Vm_Stack\<close>, \<open>Vm_Memory\<close>, \<open>Opcodes\<close>, \<open>Vm_Gas\<close>, \<open>Contract\<close>, \<open>Precompiled\<close>, \<open>Instructions\<close>, \<open>Interp\<close>:
    \<^verbatim>\<open>src/core/vm\<close>, one definition per instruction; \<open>step\<close> is one iteration of the loop of \<open>Run\<close>.
    \<open>Arith_Facts\<close> proves the arithmetic instructions equal to the operations on 256-bit words.
  \<^item> \<open>Exec\<close>: \<open>Call\<close>, \<open>CallCode\<close>, \<open>Create\<close> and the environment that nests them. \<open>Instr_Facts\<close>, \<open>Call_Facts\<close>,
    \<open>Op_Table\<close>, \<open>Interp_Facts\<close>, \<open>Step_Facts\<close>, \<open>Run_Facts\<close> and \<open>Exec_Facts\<close> carry the invariant of a run
    through every instruction and every nested call.
  \<^item> \<open>Transaction\<close>, \<open>Bloom\<close>: \<^verbatim>\<open>src/core/types\<close>, with the recovery of the sender and the filter of logs.
  \<^item> \<open>State_Transition\<close>, \<open>State_Transition_Facts\<close>: messages, the gas pool and the settlement of gas.
  \<^item> \<open>Rlp\<close>, \<open>Rlp_Facts\<close>: the encoder with its two buffers against the format, and splitting.
  \<^item> \<open>Trie_Encoding\<close>, \<open>Trie\<close>: keys, nodes and operations of the trie; \<open>Trie_Facts\<close> shows that canonical
    trees are determined by their map, \<open>Trie_Ops\<close> and \<open>Trie_Map\<close> that the operations implement the map
    on tries of which any part is unloaded, with the inputs on which they panic. \<open>Secure_Trie\<close> states
    the interface of a store as a locale, with the trie and the trie with hashed keys as its providers.
    \<open>Trie_Commit\<close> proves that a committed trie is loaded again from its root.
  \<^item> \<open>Blocks\<close>, \<open>Validator\<close>: headers, blocks and the roots of their lists; difficulty, gas limit, uncles and
    the validation of blocks, \<^verbatim>\<open>src/core/block_validator.go\<close>. The minimum difficulty is threaded through,
    since the code may write to it.
  \<^item> \<open>Processor\<close>: the transactions of a block, their receipts and the rewards, \<^verbatim>\<open>src/core/state_processor.go\<close>,
    and the environment of a transaction, \<^verbatim>\<open>src/core/vm_env.go\<close>; it composes the state transition with the
    validation of uncles in a bound on the money supply.
  \<^item> \<open>Crypto\<close>: the helpers of \<^verbatim>\<open>src/crypto\<close>; \<open>Sample\<close> and \<open>Applications\<close>: concrete inputs.

  \<^bold>\<open>Bounds and fuel.\<close> A call gets fuel above its gas: every instruction that continues costs at
  least one unit of gas, so the loop ends within the fuel. The environment nests 1026 levels, two
  more than the depth at which \<open>exec\<close> refuses. Gas and lengths of code and data are below \<open>2 ^ 63\<close>,
  balances are 256-bit words and so is their sum; lengths of encodings are below \<open>2 ^ 64\<close>. The decoder
  of nodes gets fuel for the length of its buffer, which bounds the nesting.

  \<^bold>\<open>Not modelled.\<close> The network, the downloader, the miner, the console and the interfaces over
  sockets are concurrent code around external services. The chain database, key files and
  JavaScript are input and output or foreign libraries. The just-in-time compiler of the virtual
  machine is disabled by default. Logging, metrics, printing and the statistics of the debugger have
  no effect on results. Tries that are copied by pointer are values here, and the cache of decoded
  nodes is represented by what it returns.
\<close>

section \<open>Message calls\<close>







section \<open>Messages\<close>








end
